(* ===== verification/Uril_Prelude.thy ===== *)
theory Uril_Prelude
  imports Main "HOL-Library.Word"
begin

text \<open>
  Prelude of the development: the machine types of the program, the outcomes of an
  operation that may fault, the functions of the C library on strings and numbers that the
  sources use, and the generic lemmas the component theories share.

  Conventions used by every theory:
  \<^item> \<open>uint8_t\<close>, \<open>uint16_t\<close>, \<open>uint32_t\<close> are words of that width, and an \<open>int\<close> is a
    32 bit word (read with \<open>sint\<close> where its sign matters); \<open>long\<close>, \<open>size_t\<close> and
    pointers have 64 bits (LP64).
  \<^item> A C string is the list of its characters before the terminating NUL; a nullable
    \<open>char*\<close> is a \<open>string option\<close> with \<open>None\<close> for the null pointer.
  \<^item> An operation that can fail an assertion or run into undefined behaviour returns an
    \<open>outcome\<close>; \<open>Fault\<close> names what happened.  Assertions are enabled: the build files
    never define \<open>NDEBUG\<close>.
\<close>

section \<open>Named collections\<close>

named_theorems outcome_simps \<open>evaluation of operations that may fault\<close>
named_theorems code_simps \<open>the numeric values of the enumerators\<close>

section \<open>Machine types\<close>

type_synonym u8 = "8 word"
type_synonym u16 = "16 word"
type_synonym u32 = "32 word"
type_synonym u64 = "64 word"

text \<open>The C constants the sources compare with.\<close>

definition INT_MAX :: u32 where
  "INT_MAX = 0x7FFFFFFF"

section \<open>Outcomes\<close>

datatype fault =
    Assert_failed
  | Out_of_bounds_write
  | Out_of_bounds_read
  | Uninitialised_read
  | Use_after_free
  | Null_deref
  | Self_join
  | Type_confusion
  | Data_race

datatype 'a outcome = Ok 'a | Fault fault

fun bind_outcome :: "'a outcome \<Rightarrow> ('a \<Rightarrow> 'b outcome) \<Rightarrow> 'b outcome" where
  "bind_outcome (Ok x) f = f x"
| "bind_outcome (Fault e) f = Fault e"

fun map_ok :: "('a \<Rightarrow> 'b) \<Rightarrow> 'a outcome \<Rightarrow> 'b outcome" where
  "map_ok f (Ok x) = Ok (f x)"
| "map_ok f (Fault e) = Fault e"

fun is_ok :: "'a outcome \<Rightarrow> bool" where
  "is_ok (Ok x) \<longleftrightarrow> True"
| "is_ok (Fault e) \<longleftrightarrow> False"

lemma bind_outcome_Ok_iff:
  "bind_outcome m f = Ok y \<longleftrightarrow> (\<exists>x. m = Ok x \<and> f x = Ok y)"
  by (cases m) auto

lemma bind_outcome_Fault_iff:
  "bind_outcome m f = Fault e \<longleftrightarrow> m = Fault e \<or> (\<exists>x. m = Ok x \<and> f x = Fault e)"
  by (cases m) auto

lemma map_ok_Ok_iff: "map_ok f m = Ok y \<longleftrightarrow> (\<exists>x. m = Ok x \<and> y = f x)"
  by (cases m) auto

lemma is_ok_iff: "is_ok m \<longleftrightarrow> (\<exists>x. m = Ok x)"
  by (cases m) auto

lemma bind_outcome_cong [fundef_cong]:
  "m = n \<Longrightarrow> (\<And>x. n = Ok x \<Longrightarrow> f x = g x) \<Longrightarrow> bind_outcome m f = bind_outcome n g"
  by (cases n) auto

lemma map_ok_Fault_iff: "map_ok f m = Fault e \<longleftrightarrow> m = Fault e"
  by (cases m) auto

lemma Some_map_option: "Some y = map_option f x \<longleftrightarrow> (\<exists>z. x = Some z \<and> y = f z)"
  by (cases x) auto

lemmas [outcome_simps] =
  bind_outcome_Ok_iff bind_outcome_Fault_iff map_ok_Ok_iff is_ok_iff

section \<open>Enumerations\<close>

text \<open>
  A C enumeration is a datatype of its enumerators and a function giving their values.  A
  \<open>switch\<close> over a raw value looks for the enumerator with that value; \<open>None\<close> is the
  \<open>default\<close> label.
\<close>

definition enum_of :: "('e \<Rightarrow> u32) \<Rightarrow> 'e list \<Rightarrow> u32 \<Rightarrow> 'e option" where
  "enum_of code es v = find (\<lambda>e. code e = v) es"

lemma enum_of_SomeD: "enum_of code es v = Some e \<Longrightarrow> code e = v \<and> e \<in> set es"
  by (auto simp: enum_of_def find_Some_iff)

lemma enum_of_None_iff: "enum_of code es v = None \<longleftrightarrow> (\<forall>e \<in> set es. code e \<noteq> v)"
  by (auto simp: enum_of_def find_None_iff)

text \<open>
  What the model relies on of an enumeration: the list \<open>es\<close> holds every enumerator and no
  two of them share a value.  Then looking a value up undoes taking an enumerator's value.
\<close>

locale c_enum =
  fixes code :: "'e \<Rightarrow> u32"
    and es :: "'e list"
  assumes complete: "e \<in> set es"
    and codes_distinct: "distinct (map code es)"
begin

lemma code_inj: "inj code"
proof -
  have "set es = UNIV" using complete by blast
  with codes_distinct show ?thesis by (simp add: distinct_map)
qed

lemma code_eq_iff: "code d = code e \<longleftrightarrow> d = e"
  using code_inj by (auto dest: injD)

lemma enum_of_code: "enum_of code es (code e) = Some e"
proof -
  have "\<exists>d. find (\<lambda>d. code d = code e) es = Some d"
    using complete [of e] by (metis (mono_tags, lifting) find_None_iff not_Some_eq)
  then obtain d where d: "find (\<lambda>d. code d = code e) es = Some d" ..
  then have "code d = code e" by (auto simp: find_Some_iff)
  with d show ?thesis by (simp add: enum_of_def code_eq_iff)
qed

lemma enum_of_Some_iff: "enum_of code es v = Some e \<longleftrightarrow> v = code e"
  using enum_of_code enum_of_SomeD [of code es v e] by auto

lemma enum_of_None_range: "enum_of code es v = None \<longleftrightarrow> v \<notin> range code"
  using complete by (auto simp: enum_of_None_iff image_iff)

end

section \<open>Lists\<close>

text \<open>A write of \<open>src\<close> over the front of a block of memory: \<open>memcpy\<close>.\<close>

definition overlay :: "'a list \<Rightarrow> 'a list \<Rightarrow> 'a list" where
  "overlay src dest = src @ drop (length src) dest"

lemma length_overlay [simp]:
  "length src \<le> length dest \<Longrightarrow> length (overlay src dest) = length dest"
  by (simp add: overlay_def)

lemma take_overlay [simp]: "take (length src) (overlay src dest) = src"
  by (simp add: overlay_def)

lemma drop_overlay [simp]: "drop (length src) (overlay src dest) = drop (length src) dest"
  by (simp add: overlay_def)

lemma find_index_upt:
  assumes "i < length xs" and "P (xs ! i)" and "\<And>j. j < i \<Longrightarrow> \<not> P (xs ! j)"
  shows "find (\<lambda>j. P (xs ! j)) [0..<length xs] = Some i"
proof -
  have "\<exists>k < length [0..<length xs]. P (xs ! ([0..<length xs] ! k)) \<and> Some i = Some ([0..<length xs] ! k)
      \<and> (\<forall>j < k. \<not> P (xs ! ([0..<length xs] ! j)))"
    using assms by (intro exI [of _ i]) auto
  then show ?thesis by (simp add: find_Some_iff)
qed

section \<open>Functions of the C library\<close>

subsection \<open>Character classes\<close>

definition isspace :: "char \<Rightarrow> bool" where
  "isspace c \<longleftrightarrow> c = CHR '' '' \<or> (9 \<le> (of_char c :: nat) \<and> (of_char c :: nat) \<le> 13)"

definition isdigit :: "char \<Rightarrow> bool" where
  "isdigit c \<longleftrightarrow> 48 \<le> (of_char c :: nat) \<and> (of_char c :: nat) \<le> 57"

definition digit_val :: "char \<Rightarrow> nat" where
  "digit_val c = of_char c - 48"

fun digits_val :: "nat \<Rightarrow> string \<Rightarrow> nat" where
  "digits_val a [] = a"
| "digits_val a (c # cs) = digits_val (10 * a + digit_val c) cs"

subsection \<open>Bounded copies\<close>

text \<open>
  \<open>snprintf(dst, size, "%s", src)\<close> leaves at most \<open>size - 1\<close> characters and a NUL in
  \<open>dst\<close>; \<open>strncpy(dst, src, n)\<close> into a zeroed field of more than \<open>n\<close> bytes leaves
  the first \<open>n\<close> characters and pads with NUL.
\<close>

definition snprintf_s :: "nat \<Rightarrow> string \<Rightarrow> string" where
  "snprintf_s sz src = take (sz - 1) src"

definition strncpy :: "string \<Rightarrow> nat \<Rightarrow> string" where
  "strncpy src n = take n src"

lemma length_snprintf_s: "length (snprintf_s sz src) \<le> sz - 1"
  by (simp add: snprintf_s_def)

lemma snprintf_s_id: "length src < sz \<Longrightarrow> snprintf_s sz src = src"
  by (simp add: snprintf_s_def)

subsection \<open>strtoul\<close>

text \<open>
  \<open>strtoul(s, &end, 10)\<close> on LP64: skip white space, an optional sign, the longest run of
  digits.  Without a digit the value is 0 and \<open>end\<close> is \<open>s\<close>.  A value above
  \<open>ULONG_MAX\<close> yields \<open>ULONG_MAX\<close> and sets \<open>errno\<close> to \<open>ERANGE\<close>; a minus sign
  negates in the unsigned type.
\<close>

record strtoul_result =
  ul_value :: u64
  ul_end :: string
  ul_erange :: bool

definition strtoul :: "string \<Rightarrow> strtoul_result" where
  "strtoul s =
     (let t = dropWhile isspace s;
          neg = (case t of [] \<Rightarrow> False | c # _ \<Rightarrow> c = CHR ''-'');
          u = (case t of [] \<Rightarrow> [] | c # cs \<Rightarrow> if c = CHR ''-'' \<or> c = CHR ''+'' then cs else t);
          ds = takeWhile isdigit u;
          n = digits_val 0 ds
      in if ds = [] then \<lparr>ul_value = 0, ul_end = s, ul_erange = False\<rparr>
         else if n \<ge> 2 ^ 64
         then \<lparr>ul_value = - 1, ul_end = dropWhile isdigit u, ul_erange = True\<rparr>
         else \<lparr>ul_value = (if neg then - of_nat n else of_nat n),
               ul_end = dropWhile isdigit u, ul_erange = False\<rparr>)"

subsection \<open>Printing a number\<close>

text \<open>\<open>snprintf(dst, size, "%d", v)\<close> for a non-negative \<open>v\<close>.\<close>

fun decimal :: "nat \<Rightarrow> string" where
  "decimal n = (if n < 10 then [char_of (48 + n)] else decimal (n div 10) @ [char_of (48 + n mod 10)])"

declare decimal.simps [simp del]

definition print_d :: "u32 \<Rightarrow> string" where
  "print_d v = (if sint v < 0 then CHR ''-'' # decimal (nat (- sint v)) else decimal (unat v))"

lemma digit_val_char_of: "(n::nat) < 10 \<Longrightarrow> digit_val (char_of (48 + n)) = n"
  by (simp add: digit_val_def)

lemma isdigit_char_of: "(n::nat) < 10 \<Longrightarrow> isdigit (char_of (48 + n))"
  by (simp add: isdigit_def)

lemma digits_val_snoc: "digits_val a (cs @ [c]) = 10 * digits_val a cs + digit_val c"
  by (induction cs arbitrary: a) auto

lemma decimal_isdigit: "\<forall>c \<in> set (decimal n). isdigit c"
proof (induction n rule: decimal.induct)
  case (1 n)
  then show ?case
    by (subst decimal.simps) (auto simp: isdigit_char_of)
qed

lemma decimal_nonempty: "decimal n \<noteq> []"
  by (subst decimal.simps) simp

lemma digits_val_decimal: "digits_val 0 (decimal n) = n"
proof (induction n rule: decimal.induct)
  case (1 n)
  show ?case
  proof (cases "n < 10")
    case True
    then show ?thesis by (subst decimal.simps) (simp add: digit_val_char_of)
  next
    case False
    with "1.IH" show ?thesis
      by (subst decimal.simps) (simp add: digits_val_snoc digit_val_char_of)
  qed
qed

lemma length_decimal_le: "n < 10 ^ Suc k \<Longrightarrow> length (decimal n) \<le> Suc k"
proof (induction k arbitrary: n)
  case 0
  then show ?case by (subst decimal.simps) simp
next
  case (Suc k)
  show ?case
  proof (cases "n < 10")
    case True
    then show ?thesis by (subst decimal.simps) simp
  next
    case False
    from Suc.prems have "n div 10 < 10 ^ Suc k" by (simp add: div_less_iff_less_mult)
    with Suc.IH have "length (decimal (n div 10)) \<le> Suc k" by blast
    with False show ?thesis by (subst decimal.simps) simp
  qed
qed

lemma digit_not_space: "isdigit c \<Longrightarrow> \<not> isspace c"
  by (auto simp: isdigit_def isspace_def)

lemma digit_not_sign: "isdigit c \<Longrightarrow> c \<noteq> CHR ''-'' \<and> c \<noteq> CHR ''+''"
  by (auto simp: isdigit_def)

text \<open>Parsing a printed number gives the number back and consumes the whole string.\<close>

lemma strtoul_decimal:
  assumes "n < 2 ^ 64"
  shows "strtoul (decimal n) = \<lparr>ul_value = of_nat n, ul_end = [], ul_erange = False\<rparr>"
proof -
  obtain c cs where d: "decimal n = c # cs"
    using decimal_nonempty by (cases "decimal n") auto
  have all: "\<forall>x \<in> set (c # cs). isdigit x" using decimal_isdigit [of n] d by simp
  then have c: "isdigit c" by simp
  have sp: "dropWhile isspace (c # cs) = c # cs"
    using c by (simp add: digit_not_space)
  have tw: "takeWhile isdigit (c # cs) = c # cs" and dw: "dropWhile isdigit (c # cs) = []"
    using all by simp_all
  have dv: "digits_val 0 (c # cs) = n"
    using digits_val_decimal [of n] d by simp
  show ?thesis
    using assms digit_not_sign [OF c] unfolding d strtoul_def Let_def sp
    by (simp only: list.case if_False simp_thms tw dw dv list.distinct) simp
qed

end
