(* ===== verification/Uril_Layout.thy ===== *)
theory Uril_Layout
  imports Uril_Prelude
begin

text \<open>
  The memory layout of the messages (\<open>inc/*.h\<close>).  A C type is a value of \<open>ctype\<close>;
  \<open>sizeof\<close> gives the size of a packed structure (every message body carries
  \<open>__attribute__((packed))\<close>) and \<open>locate\<close> the offset and type of a part of it.
  \<open>struct_offsets\<close> lays out a structure with natural alignment, as the one unpacked
  structure that crosses the wire, \<open>uril_protocol_msg_t\<close>.  The structures below are the
  ones of the headers, field by field.
\<close>

section \<open>C types and their layout\<close>

named_theorems layout_simps \<open>the message structures and the layout functions\<close>

datatype ctype =
    U8 | I8 | U16 | I16 | U32 | CEnum | CChar
  | Arr nat ctype
  | Struct "(string \<times> ctype) list"

fun sizeof :: "ctype \<Rightarrow> nat" where
  "sizeof U8 = 1"
| "sizeof I8 = 1"
| "sizeof CChar = 1"
| "sizeof U16 = 2"
| "sizeof I16 = 2"
| "sizeof U32 = 4"
| "sizeof CEnum = 4"
| "sizeof (Arr n t) = n * sizeof t"
| "sizeof (Struct fs) = sum_list (map (\<lambda>(f, t). sizeof t) fs)"

text \<open>A path into a structure: a field name or an array index at each level.\<close>

datatype step = Dot string | At nat

fun field_offset :: "(string \<times> ctype) list \<Rightarrow> string \<Rightarrow> (nat \<times> ctype) option" where
  "field_offset [] f = None"
| "field_offset ((g, t) # fs) f =
     (if g = f then Some (0, t)
      else map_option (\<lambda>(k, u). (sizeof t + k, u)) (field_offset fs f))"

fun locate :: "ctype \<Rightarrow> step list \<Rightarrow> (nat \<times> ctype) option" where
  "locate t [] = Some (0, t)"
| "locate (Struct fs) (Dot f # p) =
     (case field_offset fs f of
        None \<Rightarrow> None
      | Some (k, u) \<Rightarrow> map_option (\<lambda>(j, v). (k + j, v)) (locate u p))"
| "locate (Arr n t) (At i # p) =
     (if i < n then map_option (\<lambda>(j, v). (i * sizeof t + j, v)) (locate t p) else None)"
| "locate t p = None"

text \<open>The first byte behind the part of \<open>t\<close> that the path names.\<close>

definition end_of :: "ctype \<Rightarrow> step list \<Rightarrow> nat" where
  "end_of t p = (case locate t p of None \<Rightarrow> 0 | Some (k, u) \<Rightarrow> k + sizeof u)"

lemma field_offset_bound:
  "field_offset fs f = Some (k, t) \<Longrightarrow> k + sizeof t \<le> sizeof (Struct fs)"
proof (induction fs f arbitrary: k t rule: field_offset.induct)
  case (2 g u fs f)
  then show ?case by (fastforce split: if_splits)
qed simp

lemma locate_bound: "locate t p = Some (k, u) \<Longrightarrow> k + sizeof u \<le> sizeof t"
proof (induction t p arbitrary: k u rule: locate.induct)
  case (2 fs f p)
  then obtain a v j where "field_offset fs f = Some (a, v)" and "locate v p = Some (j, u)"
    and "k = a + j"
    by (auto split: option.splits)
  with "2.IH" [OF \<open>field_offset fs f = Some (a, v)\<close> refl] field_offset_bound
  show ?case by fastforce
next
  case (3 n t i p)
  then obtain j where i: "i < n" and j: "locate t p = Some (j, u)" and k: "k = i * sizeof t + j"
    by (auto split: if_splits)
  from "3.IH" [OF i] j have "j + sizeof u \<le> sizeof t" by blast
  moreover have "Suc i * sizeof t \<le> n * sizeof t" using i by (intro mult_le_mono1) simp
  ultimately show ?case using k by simp
qed auto

lemma end_of_le_sizeof: "end_of t p \<le> sizeof t"
  by (auto simp: end_of_def split: option.splits dest: locate_bound)

lemmas [layout_simps] = end_of_def

section \<open>Natural alignment\<close>

fun alignof :: "ctype \<Rightarrow> nat" where
  "alignof (Arr n t) = alignof t"
| "alignof (Struct fs) = fold max (map (\<lambda>(f, t). alignof t) fs) 1"
| "alignof t = sizeof t"

definition round_up :: "nat \<Rightarrow> nat \<Rightarrow> nat" where
  "round_up k a = (k + a - 1) div a * a"

text \<open>Offsets of the fields of a structure whose fields start at \<open>k\<close>, then its end.\<close>

fun struct_offsets :: "nat \<Rightarrow> (string \<times> ctype) list \<Rightarrow> nat list" where
  "struct_offsets k [] = [k]"
| "struct_offsets k ((f, t) # fs) =
     (let o' = round_up k (alignof t) in o' # struct_offsets (o' + sizeof t) fs)"

definition sizeof_aligned :: "(string \<times> ctype) list \<Rightarrow> nat" where
  "sizeof_aligned fs = round_up (last (struct_offsets 0 fs)) (alignof (Struct fs))"

section \<open>The message structures\<close>

subsection \<open>Common (uril_common_v01.h)\<close>

definition uril_response_t_v01 :: ctype where
  "uril_response_t_v01 = Struct
     [(''result'', CEnum),
      (''error'', CEnum)]"

subsection \<open>Network (uril_nw_v01.h)\<close>

definition URIL_NW_SCAN_MAX_ENTRY_COUNT_V01 :: nat where
  "URIL_NW_SCAN_MAX_ENTRY_COUNT_V01 = 32"

definition uril_nw_operator_name_t_v01 :: ctype where
  "uril_nw_operator_name_t_v01 = Struct
     [(''long_eons'', Arr (512 + 1) CChar),
      (''short_eons'', Arr (512 + 1) CChar),
      (''mcc'', Arr (3 + 1) CChar),
      (''mnc'', Arr (3 + 1) CChar)]"

definition uril_nw_scan_entry_t_v01 :: ctype where
  "uril_nw_scan_entry_t_v01 = Struct
     [(''operator_name'', uril_nw_operator_name_t_v01),
      (''network_status'', CEnum),
      (''rat'', CEnum)]"

definition uril_nw_registration_info_t_v01 :: ctype where
  "uril_nw_registration_info_t_v01 = Struct
     [(''tech_domain'', CEnum),
      (''rat'', CEnum),
      (''roaming'', CEnum),
      (''denied'', U8),
      (''deny_reason'', CEnum),
      (''registration_state'', CEnum)]"

definition uril_cell_identity_gsm_t_v01 :: ctype where
  "uril_cell_identity_gsm_t_v01 = Struct
     [(''mcc'', Arr (3 + 1) CChar),
      (''mnc'', Arr (3 + 1) CChar),
      (''lac'', U16),
      (''cid'', U32)]"

definition uril_cell_identity_lte_t_v01 :: ctype where
  "uril_cell_identity_lte_t_v01 = Struct
     [(''mcc'', Arr (3 + 1) CChar),
      (''mnc'', Arr (3 + 1) CChar),
      (''ci'', U32),
      (''pci'', U16),
      (''tac'', U16)]"

definition uril_cell_identity_wcdma_t_v01 :: ctype where
  "uril_cell_identity_wcdma_t_v01 = Struct
     [(''mcc'', Arr (3 + 1) CChar),
      (''mnc'', Arr (3 + 1) CChar),
      (''lac'', U16),
      (''cid'', U32),
      (''psc'', U16)]"

definition uril_cell_identity_tdscdma_t_v01 :: ctype where
  "uril_cell_identity_tdscdma_t_v01 = Struct
     [(''mcc'', Arr (3 + 1) CChar),
      (''mnc'', Arr (3 + 1) CChar),
      (''lac'', U16),
      (''cid'', U32),
      (''cpid'', U8)]"

definition uril_nw_selection_t_v01 :: ctype where
  "uril_nw_selection_t_v01 = Struct
     [(''nw_selection_type'', CEnum),
      (''mcc'', Arr (3 + 1) CChar),
      (''mnc'', Arr (3 + 1) CChar)]"

definition uril_nw_gsm_signal_strength_t_v01 :: ctype where
  "uril_nw_gsm_signal_strength_t_v01 = Struct
     [(''rssi'', I8)]"

definition uril_nw_wcdma_signal_strength_t_v01 :: ctype where
  "uril_nw_wcdma_signal_strength_t_v01 = Struct
     [(''rssi'', I8),
      (''ecio'', I16)]"

definition uril_nw_tdscdma_signal_strength_t_v01 :: ctype where
  "uril_nw_tdscdma_signal_strength_t_v01 = Struct
     [(''rssi'', I8),
      (''rscp'', I8),
      (''ecio'', I16),
      (''sinr'', I8)]"

definition uril_nw_lte_signal_strength_t_v01 :: ctype where
  "uril_nw_lte_signal_strength_t_v01 = Struct
     [(''rssi'', I8),
      (''rsrq'', I8),
      (''rsrp'', I8),
      (''snr'', I8)]"

definition uril_nw_set_pref_req_msg_v01 :: ctype where
  "uril_nw_set_pref_req_msg_v01 = Struct
     [(''preferred_nw_mode'', CEnum)]"

definition uril_nw_set_pref_resp_msg_v01 :: ctype where
  "uril_nw_set_pref_resp_msg_v01 = Struct
     [(''response'', uril_response_t_v01)]"

definition uril_nw_get_pref_req_msg_v01 :: ctype where
  "uril_nw_get_pref_req_msg_v01 = Struct
     [(''__placeholder'', CChar)]"

definition uril_nw_get_pref_resp_msg_v01 :: ctype where
  "uril_nw_get_pref_resp_msg_v01 = Struct
     [(''response'', uril_response_t_v01),
      (''preferred_nw_mode_follows'', U8),
      (''preferred_nw_mode'', CEnum)]"

definition uril_nw_get_registration_status_req_msg_v01 :: ctype where
  "uril_nw_get_registration_status_req_msg_v01 = Struct
     [(''__placeholder'', CChar)]"

definition uril_nw_get_registration_status_resp_msg_v01 :: ctype where
  "uril_nw_get_registration_status_resp_msg_v01 = Struct
     [(''response'', uril_response_t_v01),
      (''nw_cell_identity_gsm_follows'', U8),
      (''nw_cell_identity_gsm'', uril_cell_identity_gsm_t_v01),
      (''nw_cell_identity_lte_follows'', U8),
      (''nw_cell_identity_lte'', uril_cell_identity_lte_t_v01),
      (''nw_cell_identity_wcdma_follows'', U8),
      (''nw_cell_identity_wcdma'', uril_cell_identity_wcdma_t_v01),
      (''nw_cell_identity_tdscdma_follows'', U8),
      (''nw_cell_identity_tdscdma'', uril_cell_identity_tdscdma_t_v01),
      (''voice_registration_follows'', U8),
      (''voice_registration'', uril_nw_registration_info_t_v01),
      (''data_registration_follows'', U8),
      (''data_registration'', uril_nw_registration_info_t_v01)]"

definition uril_nw_scan_req_msg_v01 :: ctype where
  "uril_nw_scan_req_msg_v01 = Struct
     [(''__placeholder'', CChar)]"

definition uril_nw_scan_resp_msg_v01 :: ctype where
  "uril_nw_scan_resp_msg_v01 = Struct
     [(''response'', uril_response_t_v01),
      (''entries_follows'', U8),
      (''entries_len'', U32),
      (''entries'', Arr URIL_NW_SCAN_MAX_ENTRY_COUNT_V01 uril_nw_scan_entry_t_v01)]"

definition uril_nw_set_screen_state_req_msg_v01 :: ctype where
  "uril_nw_set_screen_state_req_msg_v01 = Struct
     [(''screen_state'', U8)]"

definition uril_nw_set_screen_state_resp_msg_v01 :: ctype where
  "uril_nw_set_screen_state_resp_msg_v01 = Struct
     [(''response'', uril_response_t_v01)]"

definition uril_nw_selection_req_msg_v01 :: ctype where
  "uril_nw_selection_req_msg_v01 = Struct
     [(''nw_selection_info'', uril_nw_selection_t_v01)]"

definition uril_nw_selection_resp_msg_v01 :: ctype where
  "uril_nw_selection_resp_msg_v01 = Struct
     [(''response'', uril_response_t_v01)]"

definition uril_nw_get_signal_strength_req_msg_v01 :: ctype where
  "uril_nw_get_signal_strength_req_msg_v01 = Struct
     [(''__placeholder'', CChar)]"

definition uril_nw_get_signal_strength_resp_msg_v01 :: ctype where
  "uril_nw_get_signal_strength_resp_msg_v01 = Struct
     [(''response'', uril_response_t_v01),
      (''gsm_signal_strength_follows'', U8),
      (''gsm_signal_strength'', uril_nw_gsm_signal_strength_t_v01),
      (''wcdma_signal_strength_follows'', U8),
      (''wcdma_signal_strength'', uril_nw_wcdma_signal_strength_t_v01),
      (''tdscdma_signal_strength_follows'', U8),
      (''tdscdma_signal_strength'', uril_nw_tdscdma_signal_strength_t_v01),
      (''lte_signal_strength_follows'', U8),
      (''lte_signal_strength'', uril_nw_lte_signal_strength_t_v01)]"

definition uril_nw_get_cell_access_state_req_msg_v01 :: ctype where
  "uril_nw_get_cell_access_state_req_msg_v01 = Struct
     [(''__placeholder'', CChar)]"

definition uril_nw_get_cell_access_state_resp_msg_v01 :: ctype where
  "uril_nw_get_cell_access_state_resp_msg_v01 = Struct
     [(''response'', uril_response_t_v01),
      (''nw_cell_access_state_follows'', U8),
      (''nw_cell_access_state'', CEnum)]"

subsection \<open>Radio (uril_radio_v01.h)\<close>

definition uril_radio_get_radio_mode_req_msg_v01 :: ctype where
  "uril_radio_get_radio_mode_req_msg_v01 = Struct
     [(''__placeholder'', CChar)]"

definition uril_radio_get_radio_mode_resp_msg_v01 :: ctype where
  "uril_radio_get_radio_mode_resp_msg_v01 = Struct
     [(''response'', uril_response_t_v01),
      (''radio_mode_follows'', U8),
      (''radio_mode'', CEnum)]"

definition uril_radio_set_radio_mode_req_msg_v01 :: ctype where
  "uril_radio_set_radio_mode_req_msg_v01 = Struct
     [(''radio_mode'', CEnum)]"

definition uril_radio_set_radio_mode_resp_msg_v01 :: ctype where
  "uril_radio_set_radio_mode_resp_msg_v01 = Struct
     [(''response'', uril_response_t_v01)]"

subsection \<open>Data (uril_data_v01.h)\<close>

definition URIL_DATA_MAX_APN_LEN_V01 :: nat where
  "URIL_DATA_MAX_APN_LEN_V01 = 150"

definition URIL_DATA_MAX_USERNAME_LEN_V01 :: nat where
  "URIL_DATA_MAX_USERNAME_LEN_V01 = 127"

definition URIL_DATA_MAX_PASSWORD_LEN_V01 :: nat where
  "URIL_DATA_MAX_PASSWORD_LEN_V01 = 127"

definition URIL_DATA_MAX_ADDR_LEN_V01 :: nat where
  "URIL_DATA_MAX_ADDR_LEN_V01 = 256"

definition URIL_DATA_MAX_DEVICE_NAME_LEN_V01 :: nat where
  "URIL_DATA_MAX_DEVICE_NAME_LEN_V01 = 13"

definition URIL_DATA_MAX_ADDR_COUNT_V01 :: nat where
  "URIL_DATA_MAX_ADDR_COUNT_V01 = 4"

definition URIL_DATA_MAX_PROFILES_COUNT_V01 :: nat where
  "URIL_DATA_MAX_PROFILES_COUNT_V01 = 8"

definition URIL_DATA_MAX_CALLS_COUNT_V01 :: nat where
  "URIL_DATA_MAX_CALLS_COUNT_V01 = 6"

definition uril_data_profile_info_t_v01 :: ctype where
  "uril_data_profile_info_t_v01 = Struct
     [(''profile_id'', U8),
      (''apn'', Arr URIL_DATA_MAX_APN_LEN_V01 CChar),
      (''pdp_type'', CEnum),
      (''auth_type'', CEnum),
      (''user'', Arr URIL_DATA_MAX_USERNAME_LEN_V01 CChar),
      (''password'', Arr URIL_DATA_MAX_PASSWORD_LEN_V01 CChar),
      (''tech'', CEnum),
      (''enabled'', U8)]"

definition uril_data_addr_t_v01 :: ctype where
  "uril_data_addr_t_v01 = Struct
     [(''addr'', Arr URIL_DATA_MAX_ADDR_LEN_V01 CChar),
      (''prefix_len'', U32)]"

definition uril_data_call_info_t_v01 :: ctype where
  "uril_data_call_info_t_v01 = Struct
     [(''failure_cause'', CEnum),
      (''suggested_retry_time'', U16),
      (''cid'', U8),
      (''phy_link_state'', CEnum),
      (''pdp_type'', CEnum),
      (''interface_name'', Arr URIL_DATA_MAX_DEVICE_NAME_LEN_V01 CChar),
      (''pdp_addrs_len'', U32),
      (''pdp_addrs'', Arr URIL_DATA_MAX_ADDR_COUNT_V01 uril_data_addr_t_v01),
      (''gtwy_addr'', uril_data_addr_t_v01),
      (''dnsp_addr'', uril_data_addr_t_v01),
      (''dnss_addr'', uril_data_addr_t_v01),
      (''pcscf_addr'', uril_data_addr_t_v01),
      (''mtu'', U16)]"

definition uril_data_set_data_profiles_req_msg_v01 :: ctype where
  "uril_data_set_data_profiles_req_msg_v01 = Struct
     [(''profiles_len'', U8),
      (''profiles'', Arr URIL_DATA_MAX_PROFILES_COUNT_V01 uril_data_profile_info_t_v01)]"

definition uril_data_set_data_profiles_resp_msg_v01 :: ctype where
  "uril_data_set_data_profiles_resp_msg_v01 = Struct
     [(''response'', uril_response_t_v01)]"

definition uril_data_setup_data_call_req_msg_v01 :: ctype where
  "uril_data_setup_data_call_req_msg_v01 = Struct
     [(''rat'', CEnum),
      (''profile_id'', U8),
      (''apn'', Arr URIL_DATA_MAX_APN_LEN_V01 CChar),
      (''pdp_type'', CEnum),
      (''auth_type'', CEnum),
      (''user'', Arr URIL_DATA_MAX_USERNAME_LEN_V01 CChar),
      (''password'', Arr URIL_DATA_MAX_PASSWORD_LEN_V01 CChar)]"

definition uril_data_setup_data_call_resp_msg_v01 :: ctype where
  "uril_data_setup_data_call_resp_msg_v01 = Struct
     [(''response'', uril_response_t_v01),
      (''data_call'', uril_data_call_info_t_v01)]"

definition uril_data_deactivate_data_call_req_msg_v01 :: ctype where
  "uril_data_deactivate_data_call_req_msg_v01 = Struct
     [(''cid'', U8),
      (''reason'', CEnum)]"

definition uril_data_deactivate_data_call_resp_msg_v01 :: ctype where
  "uril_data_deactivate_data_call_resp_msg_v01 = Struct
     [(''response'', uril_response_t_v01)]"

definition uril_data_get_data_call_list_req_msg_v01 :: ctype where
  "uril_data_get_data_call_list_req_msg_v01 = Struct
     [(''__placeholder'', CChar)]"

definition uril_data_get_data_call_list_resp_msg_v01 :: ctype where
  "uril_data_get_data_call_list_resp_msg_v01 = Struct
     [(''response'', uril_response_t_v01),
      (''data_calls_len'', U8),
      (''data_calls'', Arr URIL_DATA_MAX_CALLS_COUNT_V01 uril_data_call_info_t_v01)]"

definition uril_data_set_initial_params_req_msg_v01 :: ctype where
  "uril_data_set_initial_params_req_msg_v01 = Struct
     [(''apn'', Arr URIL_DATA_MAX_APN_LEN_V01 CChar),
      (''pdp_type'', CEnum),
      (''auth_type'', CEnum),
      (''user'', Arr URIL_DATA_MAX_USERNAME_LEN_V01 CChar),
      (''password'', Arr URIL_DATA_MAX_PASSWORD_LEN_V01 CChar)]"

definition uril_data_set_initial_params_resp_msg_v01 :: ctype where
  "uril_data_set_initial_params_resp_msg_v01 = Struct
     [(''response'', uril_response_t_v01)]"

subsection \<open>Voice (uril_voice_v01.h)\<close>

definition URIL_VOICE_MAX_CALLS_COUNT_V01 :: nat where
  "URIL_VOICE_MAX_CALLS_COUNT_V01 = 8"

definition URIL_VOICE_MAX_NUMBER_LEN_V01 :: nat where
  "URIL_VOICE_MAX_NUMBER_LEN_V01 = 82"

definition uril_voice_call_info_t_v01 :: ctype where
  "uril_voice_call_info_t_v01 = Struct
     [(''state'', CEnum),
      (''id'', U8),
      (''is_multiparty'', U8),
      (''is_mt'', U8),
      (''is_voice'', U8),
      (''number'', Arr URIL_VOICE_MAX_NUMBER_LEN_V01 CChar),
      (''clir'', CEnum)]"

definition uril_voice_call_start_req_msg_v01 :: ctype where
  "uril_voice_call_start_req_msg_v01 = Struct
     [(''number'', Arr URIL_VOICE_MAX_NUMBER_LEN_V01 CChar),
      (''clir'', CEnum)]"

definition uril_voice_call_start_resp_msg_v01 :: ctype where
  "uril_voice_call_start_resp_msg_v01 = Struct
     [(''response'', uril_response_t_v01)]"

definition uril_voice_get_call_list_req_msg_v01 :: ctype where
  "uril_voice_get_call_list_req_msg_v01 = Struct
     [(''__placeholder'', CChar)]"

definition uril_voice_get_call_list_resp_msg_v01 :: ctype where
  "uril_voice_get_call_list_resp_msg_v01 = Struct
     [(''response'', uril_response_t_v01),
      (''voice_calls_len'', U8),
      (''voice_calls'', Arr URIL_VOICE_MAX_CALLS_COUNT_V01 uril_voice_call_info_t_v01)]"

definition uril_voice_call_stop_req_msg_v01 :: ctype where
  "uril_voice_call_stop_req_msg_v01 = Struct
     [(''call_id'', U8)]"

definition uril_voice_call_stop_resp_msg_v01 :: ctype where
  "uril_voice_call_stop_resp_msg_v01 = Struct
     [(''response'', uril_response_t_v01)]"

definition uril_voice_call_answer_req_msg_v01 :: ctype where
  "uril_voice_call_answer_req_msg_v01 = Struct
     [(''call_id'', U8)]"

definition uril_voice_call_answer_resp_msg_v01 :: ctype where
  "uril_voice_call_answer_resp_msg_v01 = Struct
     [(''response'', uril_response_t_v01)]"

definition uril_voice_call_set_auto_answer_req_msg_v01 :: ctype where
  "uril_voice_call_set_auto_answer_req_msg_v01 = Struct
     [(''auto_answer'', U8)]"

definition uril_voice_call_set_auto_answer_resp_msg_v01 :: ctype where
  "uril_voice_call_set_auto_answer_resp_msg_v01 = Struct
     [(''response'', uril_response_t_v01)]"

lemmas [layout_simps] =
  uril_response_t_v01_def
  URIL_NW_SCAN_MAX_ENTRY_COUNT_V01_def
  uril_nw_operator_name_t_v01_def
  uril_nw_scan_entry_t_v01_def
  uril_nw_registration_info_t_v01_def
  uril_cell_identity_gsm_t_v01_def
  uril_cell_identity_lte_t_v01_def
  uril_cell_identity_wcdma_t_v01_def
  uril_cell_identity_tdscdma_t_v01_def
  uril_nw_selection_t_v01_def
  uril_nw_gsm_signal_strength_t_v01_def
  uril_nw_wcdma_signal_strength_t_v01_def
  uril_nw_tdscdma_signal_strength_t_v01_def
  uril_nw_lte_signal_strength_t_v01_def
  uril_nw_set_pref_req_msg_v01_def
  uril_nw_set_pref_resp_msg_v01_def
  uril_nw_get_pref_req_msg_v01_def
  uril_nw_get_pref_resp_msg_v01_def
  uril_nw_get_registration_status_req_msg_v01_def
  uril_nw_get_registration_status_resp_msg_v01_def
  uril_nw_scan_req_msg_v01_def
  uril_nw_scan_resp_msg_v01_def
  uril_nw_set_screen_state_req_msg_v01_def
  uril_nw_set_screen_state_resp_msg_v01_def
  uril_nw_selection_req_msg_v01_def
  uril_nw_selection_resp_msg_v01_def
  uril_nw_get_signal_strength_req_msg_v01_def
  uril_nw_get_signal_strength_resp_msg_v01_def
  uril_nw_get_cell_access_state_req_msg_v01_def
  uril_nw_get_cell_access_state_resp_msg_v01_def
  uril_radio_get_radio_mode_req_msg_v01_def
  uril_radio_get_radio_mode_resp_msg_v01_def
  uril_radio_set_radio_mode_req_msg_v01_def
  uril_radio_set_radio_mode_resp_msg_v01_def
  URIL_DATA_MAX_APN_LEN_V01_def
  URIL_DATA_MAX_USERNAME_LEN_V01_def
  URIL_DATA_MAX_PASSWORD_LEN_V01_def
  URIL_DATA_MAX_ADDR_LEN_V01_def
  URIL_DATA_MAX_DEVICE_NAME_LEN_V01_def
  URIL_DATA_MAX_ADDR_COUNT_V01_def
  URIL_DATA_MAX_PROFILES_COUNT_V01_def
  URIL_DATA_MAX_CALLS_COUNT_V01_def
  uril_data_profile_info_t_v01_def
  uril_data_addr_t_v01_def
  uril_data_call_info_t_v01_def
  uril_data_set_data_profiles_req_msg_v01_def
  uril_data_set_data_profiles_resp_msg_v01_def
  uril_data_setup_data_call_req_msg_v01_def
  uril_data_setup_data_call_resp_msg_v01_def
  uril_data_deactivate_data_call_req_msg_v01_def
  uril_data_deactivate_data_call_resp_msg_v01_def
  uril_data_get_data_call_list_req_msg_v01_def
  uril_data_get_data_call_list_resp_msg_v01_def
  uril_data_set_initial_params_req_msg_v01_def
  uril_data_set_initial_params_resp_msg_v01_def
  URIL_VOICE_MAX_CALLS_COUNT_V01_def
  URIL_VOICE_MAX_NUMBER_LEN_V01_def
  uril_voice_call_info_t_v01_def
  uril_voice_call_start_req_msg_v01_def
  uril_voice_call_start_resp_msg_v01_def
  uril_voice_get_call_list_req_msg_v01_def
  uril_voice_get_call_list_resp_msg_v01_def
  uril_voice_call_stop_req_msg_v01_def
  uril_voice_call_stop_resp_msg_v01_def
  uril_voice_call_answer_req_msg_v01_def
  uril_voice_call_answer_resp_msg_v01_def
  uril_voice_call_set_auto_answer_req_msg_v01_def
  uril_voice_call_set_auto_answer_resp_msg_v01_def

end
