(* ===== verification/Uril_Protocol.thy ===== *)
theory Uril_Protocol
  imports Uril_Layout
begin

text \<open>
  The message of the protocol between client and service (\<open>inc/internal/uril_protocol.h\<close>,
  \<open>client/src/uril_protocol.c\<close>): the record of its fields, the image of it that crosses the
  socket, and the copy the receiver makes of a received image.  Client and service run on the
  same machine type, so the image is the structure in memory: little endian, natural
  alignment, with padding bytes that no code writes and that are therefore an argument of
  \<open>msg_image\<close>.
\<close>

unbundle bit_operations_syntax

section \<open>The message\<close>

definition MAX_URIL_PAYLOAD_SIZE :: nat where
  "MAX_URIL_PAYLOAD_SIZE = 1024"

record uril_protocol_msg_t =
  is_indication :: u8
  unique_id :: u32
  sim_id :: u8
  msg_id :: u32
  plen :: u16
  payload :: "u8 list"

definition uril_protocol_msg_layout :: "(string \<times> ctype) list" where
  "uril_protocol_msg_layout =
     [(''is_indication'', U8),
      (''unique_id'', U32),
      (''sim_id'', U8),
      (''msg_id'', U32),
      (''len'', U16),
      (''payload'', Arr MAX_URIL_PAYLOAD_SIZE U8)]"

definition MSG_SIZE :: nat where
  "MSG_SIZE = sizeof_aligned uril_protocol_msg_layout"

definition zero_payload :: "u8 list" where
  "zero_payload = replicate MAX_URIL_PAYLOAD_SIZE 0"

text \<open>A message whose payload array has its declared length.\<close>

definition msg_wf :: "uril_protocol_msg_t \<Rightarrow> bool" where
  "msg_wf m \<longleftrightarrow> length (payload m) = MAX_URIL_PAYLOAD_SIZE"

lemma length_zero_payload [simp]: "length zero_payload = MAX_URIL_PAYLOAD_SIZE"
  by (simp add: zero_payload_def)

lemma msg_offsets: "struct_offsets 0 uril_protocol_msg_layout = [0, 4, 8, 12, 16, 18, 1042]"
  by code_simp

lemma MSG_SIZE_eq: "MSG_SIZE = 1044"
  unfolding MSG_SIZE_def by code_simp

section \<open>Little endian words\<close>

definition le16 :: "u16 \<Rightarrow> u8 list" where
  "le16 w = [ucast w, ucast (drop_bit 8 w)]"

definition le32 :: "u32 \<Rightarrow> u8 list" where
  "le32 w = [ucast w, ucast (drop_bit 8 w), ucast (drop_bit 16 w), ucast (drop_bit 24 w)]"

fun from_le16 :: "u8 list \<Rightarrow> u16" where
  "from_le16 [a, b] = ucast a OR push_bit 8 (ucast b)"
| "from_le16 bs = 0"

fun from_le32 :: "u8 list \<Rightarrow> u32" where
  "from_le32 [a, b, c, d] =
     ucast a OR push_bit 8 (ucast b) OR push_bit 16 (ucast c) OR push_bit 24 (ucast d)"
| "from_le32 bs = 0"

lemma length_le16 [simp]: "length (le16 w) = 2"
  by (simp add: le16_def)

lemma length_le32 [simp]: "length (le32 w) = 4"
  by (simp add: le32_def)

lemma from_le16_le16 [simp]: "from_le16 (le16 w) = w"
  by (rule bit_word_eqI) (auto simp: le16_def bit_simps)

lemma from_le32_le32 [simp]: "from_le32 (le32 w) = w"
proof (rule bit_word_eqI)
  fix n assume "n < LENGTH(32)"
  then show "bit (from_le32 (le32 w)) n = bit w n"
    by (cases "n < 8"; cases "n < 16"; cases "n < 24") (auto simp: le32_def bit_simps)
qed

section \<open>The image of a message\<close>

text \<open>
  The padding of \<open>uril_protocol_msg_t\<close>: three bytes after \<open>is_indication\<close>, three after
  \<open>sim_id\<close>, two at the end (\<open>msg_offsets\<close>, \<open>MSG_SIZE_eq\<close>).
\<close>

record msg_padding =
  pad_a :: "u8 list"
  pad_b :: "u8 list"
  pad_c :: "u8 list"

definition padding_wf :: "msg_padding \<Rightarrow> bool" where
  "padding_wf p \<longleftrightarrow> length (pad_a p) = 3 \<and> length (pad_b p) = 3 \<and> length (pad_c p) = 2"

definition zero_padding :: msg_padding where
  "zero_padding = \<lparr>pad_a = [0, 0, 0], pad_b = [0, 0, 0], pad_c = [0, 0]\<rparr>"

definition msg_image :: "msg_padding \<Rightarrow> uril_protocol_msg_t \<Rightarrow> u8 list" where
  "msg_image p m =
     [is_indication m] @ pad_a p @ le32 (unique_id m) @ [sim_id m] @ pad_b p
     @ le32 (msg_id m) @ le16 (plen m) @ payload m @ pad_c p"

text \<open>Reading the fields of a message in memory, at the offsets of \<open>msg_offsets\<close>.\<close>

definition bytes_at :: "nat \<Rightarrow> nat \<Rightarrow> 'a list \<Rightarrow> 'a list" where
  "bytes_at k n bs = take n (drop k bs)"

definition msg_of_image :: "u8 list \<Rightarrow> uril_protocol_msg_t" where
  "msg_of_image bs =
     \<lparr>is_indication = bs ! 0,
      unique_id = from_le32 (bytes_at 4 4 bs),
      sim_id = bs ! 8,
      msg_id = from_le32 (bytes_at 12 4 bs),
      plen = from_le16 (bytes_at 16 2 bs),
      payload = bytes_at 18 MAX_URIL_PAYLOAD_SIZE bs\<rparr>"

lemma length_msg_image:
  "msg_wf m \<Longrightarrow> padding_wf p \<Longrightarrow> length (msg_image p m) = MSG_SIZE"
  by (simp add: msg_image_def msg_wf_def padding_wf_def MSG_SIZE_eq MAX_URIL_PAYLOAD_SIZE_def)

lemma length3_conv: "length xs = 3 \<longleftrightarrow> (\<exists>a b c. xs = [a, b, c])"
  by (auto simp: eval_nat_numeral length_Suc_conv)

lemma msg_of_image_image:
  assumes "msg_wf m" and "padding_wf p"
  shows "msg_of_image (msg_image p m @ rest) = m"
proof -
  obtain a b c where a: "pad_a p = [a, b, c]"
    using assms(2) by (auto simp: padding_wf_def length3_conv)
  obtain d e f where b: "pad_b p = [d, e, f]"
    using assms(2) by (auto simp: padding_wf_def length3_conv)
  have len: "length (payload m) = 1024"
    using assms(1) by (simp add: msg_wf_def MAX_URIL_PAYLOAD_SIZE_def)
  have eq: "msg_image p m @ rest =
      is_indication m # a # b # c # le32 (unique_id m) @ sim_id m # d # e # f #
      le32 (msg_id m) @ le16 (plen m) @ payload m @ pad_c p @ rest"
    by (simp add: msg_image_def a b)
  have "from_le32 (bytes_at 4 4 (msg_image p m @ rest)) = unique_id m"
    unfolding eq by (simp add: bytes_at_def eval_nat_numeral)
  moreover have "(msg_image p m @ rest) ! 8 = sim_id m"
    unfolding eq by (simp add: le32_def)
  moreover have "from_le32 (bytes_at 12 4 (msg_image p m @ rest)) = msg_id m"
    unfolding eq by (simp add: bytes_at_def le32_def flip: le32_def)
  moreover have "from_le16 (bytes_at 16 2 (msg_image p m @ rest)) = plen m"
    unfolding eq by (simp add: bytes_at_def le32_def le16_def flip: le16_def)
  moreover have "bytes_at 18 1024 (msg_image p m @ rest) = payload m"
    unfolding eq using len by (simp add: bytes_at_def le32_def le16_def)
  ultimately show ?thesis
    by (simp add: msg_of_image_def MAX_URIL_PAYLOAD_SIZE_def msg_image_def)
qed

section \<open>Receiving\<close>

text \<open>
  \<open>uril_protocol_msg_from_buffer\<close> copies the smaller of \<open>sizeof(*dest)\<close> and \<open>len\<close> bytes
  over \<open>dest\<close>, whose own bytes stay behind the copy.  Reading more than the buffer holds is
  out of bounds.
\<close>

definition uril_protocol_msg_from_buffer :: "u8 list \<Rightarrow> u8 list \<Rightarrow> nat \<Rightarrow> u8 list outcome" where
  "uril_protocol_msg_from_buffer dest buffer len =
     (let n = min MSG_SIZE len
      in if length buffer < n then Fault Out_of_bounds_read
         else Ok (overlay (take n buffer) dest))"

lemma from_buffer_full:
  assumes "length dest = MSG_SIZE" and "MSG_SIZE \<le> len" and "MSG_SIZE \<le> length buffer"
  shows "uril_protocol_msg_from_buffer dest buffer len = Ok (take MSG_SIZE buffer)"
  using assms by (simp add: uril_protocol_msg_from_buffer_def overlay_def Let_def)

end
