(* ===== verification/Uril_Enums.thy ===== *)
theory Uril_Enums
  imports Uril_Prelude
begin

text \<open>
  The enumerations of the public headers (\<open>inc/*.h\<close>) and the message identifiers.  Each enumeration is a datatype with the source's enumerators,
  the function \<open>..._code\<close> giving their values as the four bytes they occupy in a message,
  and the list \<open>..._all\<close>; its \<open>interpretation\<close> of the locale \<open>c_enum\<close> says that the
  list is complete and that no two enumerators share a value.
\<close>

section \<open>Enumerations\<close>

subsection \<open>Common (uril_common_v01.h)\<close>

datatype uril_result_t_v01 =
    URIL_RESULT_SUCCESS_V01
  | URIL_RESULT_FAILURE_V01

fun uril_result_t_v01_code :: "uril_result_t_v01 \<Rightarrow> u32" where
  "uril_result_t_v01_code URIL_RESULT_SUCCESS_V01 = 0"
| "uril_result_t_v01_code URIL_RESULT_FAILURE_V01 = 1"

definition uril_result_t_v01_all :: "uril_result_t_v01 list" where
  "uril_result_t_v01_all =
     [URIL_RESULT_SUCCESS_V01,
      URIL_RESULT_FAILURE_V01]"

interpretation result: c_enum uril_result_t_v01_code uril_result_t_v01_all
proof (unfold_locales, goal_cases)
  case (1 e)
  then show ?case by (cases e) (simp_all add: uril_result_t_v01_all_def)
next
  case 2
  show ?case by code_simp
qed

datatype uril_error_t_v01 =
    URIL_ERROR_SUCCESS_V01
  | URIL_ERROR_RADIO_NOT_AVAILABLE_V01
  | URIL_ERROR_GENERIC_FAILURE_V01
  | URIL_ERROR_PASSWORD_INCORRECT_V01
  | URIL_ERROR_SIM_PIN2_V01
  | URIL_ERROR_SIM_PUK2_V01
  | URIL_ERROR_REQUEST_NOT_SUPPORTED_V01
  | URIL_ERROR_CANCELLED_V01
  | URIL_ERROR_OP_NOT_ALLOWED_DURING_VOICE_CALL_V01
  | URIL_ERROR_OP_NOT_ALLOWED_BEFORE_REG_TO_NW_V01
  | URIL_ERROR_SMS_SEND_FAIL_RETRY_V01
  | URIL_ERROR_SIM_ABSENT_V01
  | URIL_ERROR_SUBSCRIPTION_NOT_AVAILABLE_V01
  | URIL_ERROR_MODE_NOT_SUPPORTED_V01
  | URIL_ERROR_FDN_CHECK_FAILURE_V01
  | URIL_ERROR_ILLEGAL_SIM_OR_ME_V01
  | URIL_ERROR_MISSING_RESOURCE_V01
  | URIL_ERROR_NO_SUCH_ELEMENT_V01
  | URIL_ERROR_DIAL_MODIFIED_TO_USSD_V01
  | URIL_ERROR_DIAL_MODIFIED_TO_SS_V01
  | URIL_ERROR_DIAL_MODIFIED_TO_DIAL_V01
  | URIL_ERROR_USSD_MODIFIED_TO_DIAL_V01
  | URIL_ERROR_USSD_MODIFIED_TO_SS_V01
  | URIL_ERROR_USSD_MODIFIED_TO_USSD_V01
  | URIL_ERROR_SS_MODIFIED_TO_DIAL_V01
  | URIL_ERROR_SS_MODIFIED_TO_USSD_V01
  | URIL_ERROR_SUBSCRIPTION_NOT_SUPPORTED_V01
  | URIL_ERROR_SS_MODIFIED_TO_SS_V01
  | URIL_ERROR_LCE_NOT_SUPPORTED_V01
  | URIL_ERROR_UNSUPPORTED_V01
  | URIL_ERROR_OEM_ERROR_OFFSET_V01

fun uril_error_t_v01_code :: "uril_error_t_v01 \<Rightarrow> u32" where
  "uril_error_t_v01_code URIL_ERROR_SUCCESS_V01 = 0"
| "uril_error_t_v01_code URIL_ERROR_RADIO_NOT_AVAILABLE_V01 = 1"
| "uril_error_t_v01_code URIL_ERROR_GENERIC_FAILURE_V01 = 2"
| "uril_error_t_v01_code URIL_ERROR_PASSWORD_INCORRECT_V01 = 3"
| "uril_error_t_v01_code URIL_ERROR_SIM_PIN2_V01 = 4"
| "uril_error_t_v01_code URIL_ERROR_SIM_PUK2_V01 = 5"
| "uril_error_t_v01_code URIL_ERROR_REQUEST_NOT_SUPPORTED_V01 = 6"
| "uril_error_t_v01_code URIL_ERROR_CANCELLED_V01 = 7"
| "uril_error_t_v01_code URIL_ERROR_OP_NOT_ALLOWED_DURING_VOICE_CALL_V01 = 8"
| "uril_error_t_v01_code URIL_ERROR_OP_NOT_ALLOWED_BEFORE_REG_TO_NW_V01 = 9"
| "uril_error_t_v01_code URIL_ERROR_SMS_SEND_FAIL_RETRY_V01 = 10"
| "uril_error_t_v01_code URIL_ERROR_SIM_ABSENT_V01 = 11"
| "uril_error_t_v01_code URIL_ERROR_SUBSCRIPTION_NOT_AVAILABLE_V01 = 12"
| "uril_error_t_v01_code URIL_ERROR_MODE_NOT_SUPPORTED_V01 = 13"
| "uril_error_t_v01_code URIL_ERROR_FDN_CHECK_FAILURE_V01 = 14"
| "uril_error_t_v01_code URIL_ERROR_ILLEGAL_SIM_OR_ME_V01 = 15"
| "uril_error_t_v01_code URIL_ERROR_MISSING_RESOURCE_V01 = 16"
| "uril_error_t_v01_code URIL_ERROR_NO_SUCH_ELEMENT_V01 = 17"
| "uril_error_t_v01_code URIL_ERROR_DIAL_MODIFIED_TO_USSD_V01 = 18"
| "uril_error_t_v01_code URIL_ERROR_DIAL_MODIFIED_TO_SS_V01 = 19"
| "uril_error_t_v01_code URIL_ERROR_DIAL_MODIFIED_TO_DIAL_V01 = 20"
| "uril_error_t_v01_code URIL_ERROR_USSD_MODIFIED_TO_DIAL_V01 = 21"
| "uril_error_t_v01_code URIL_ERROR_USSD_MODIFIED_TO_SS_V01 = 22"
| "uril_error_t_v01_code URIL_ERROR_USSD_MODIFIED_TO_USSD_V01 = 23"
| "uril_error_t_v01_code URIL_ERROR_SS_MODIFIED_TO_DIAL_V01 = 24"
| "uril_error_t_v01_code URIL_ERROR_SS_MODIFIED_TO_USSD_V01 = 25"
| "uril_error_t_v01_code URIL_ERROR_SUBSCRIPTION_NOT_SUPPORTED_V01 = 26"
| "uril_error_t_v01_code URIL_ERROR_SS_MODIFIED_TO_SS_V01 = 27"
| "uril_error_t_v01_code URIL_ERROR_LCE_NOT_SUPPORTED_V01 = 36"
| "uril_error_t_v01_code URIL_ERROR_UNSUPPORTED_V01 = 500"
| "uril_error_t_v01_code URIL_ERROR_OEM_ERROR_OFFSET_V01 = 501"

definition uril_error_t_v01_all :: "uril_error_t_v01 list" where
  "uril_error_t_v01_all =
     [URIL_ERROR_SUCCESS_V01,
      URIL_ERROR_RADIO_NOT_AVAILABLE_V01,
      URIL_ERROR_GENERIC_FAILURE_V01,
      URIL_ERROR_PASSWORD_INCORRECT_V01,
      URIL_ERROR_SIM_PIN2_V01,
      URIL_ERROR_SIM_PUK2_V01,
      URIL_ERROR_REQUEST_NOT_SUPPORTED_V01,
      URIL_ERROR_CANCELLED_V01,
      URIL_ERROR_OP_NOT_ALLOWED_DURING_VOICE_CALL_V01,
      URIL_ERROR_OP_NOT_ALLOWED_BEFORE_REG_TO_NW_V01,
      URIL_ERROR_SMS_SEND_FAIL_RETRY_V01,
      URIL_ERROR_SIM_ABSENT_V01,
      URIL_ERROR_SUBSCRIPTION_NOT_AVAILABLE_V01,
      URIL_ERROR_MODE_NOT_SUPPORTED_V01,
      URIL_ERROR_FDN_CHECK_FAILURE_V01,
      URIL_ERROR_ILLEGAL_SIM_OR_ME_V01,
      URIL_ERROR_MISSING_RESOURCE_V01,
      URIL_ERROR_NO_SUCH_ELEMENT_V01,
      URIL_ERROR_DIAL_MODIFIED_TO_USSD_V01,
      URIL_ERROR_DIAL_MODIFIED_TO_SS_V01,
      URIL_ERROR_DIAL_MODIFIED_TO_DIAL_V01,
      URIL_ERROR_USSD_MODIFIED_TO_DIAL_V01,
      URIL_ERROR_USSD_MODIFIED_TO_SS_V01,
      URIL_ERROR_USSD_MODIFIED_TO_USSD_V01,
      URIL_ERROR_SS_MODIFIED_TO_DIAL_V01,
      URIL_ERROR_SS_MODIFIED_TO_USSD_V01,
      URIL_ERROR_SUBSCRIPTION_NOT_SUPPORTED_V01,
      URIL_ERROR_SS_MODIFIED_TO_SS_V01,
      URIL_ERROR_LCE_NOT_SUPPORTED_V01,
      URIL_ERROR_UNSUPPORTED_V01,
      URIL_ERROR_OEM_ERROR_OFFSET_V01]"

interpretation error: c_enum uril_error_t_v01_code uril_error_t_v01_all
proof (unfold_locales, goal_cases)
  case (1 e)
  then show ?case by (cases e) (simp_all add: uril_error_t_v01_all_def)
next
  case 2
  show ?case by code_simp
qed

subsection \<open>Network (uril_nw_v01.h)\<close>

datatype uril_nw_pref_type_t_v01 =
    URIL_NW_PREF_TYPE_GSM_WCDMA
  | URIL_NW_PREF_TYPE_GSM_ONLY
  | URIL_NW_PREF_TYPE_WCDMA
  | URIL_NW_PREF_TYPE_GSM_WCDMA_AUTO
  | URIL_NW_PREF_TYPE_CDMA_EVDO_AUTO
  | URIL_NW_PREF_TYPE_CDMA_ONLY
  | URIL_NW_PREF_TYPE_EVDO_ONLY
  | URIL_NW_PREF_TYPE_GSM_WCDMA_CDMA_EVDO_AUTO
  | URIL_NW_PREF_TYPE_LTE_CDMA_EVDO
  | URIL_NW_PREF_TYPE_LTE_GSM_WCDMA
  | URIL_NW_PREF_TYPE_LTE_CMDA_EVDO_GSM_WCDMA
  | URIL_NW_PREF_TYPE_LTE_ONLY
  | URIL_NW_PREF_TYPE_LTE_WCDMA

fun uril_nw_pref_type_t_v01_code :: "uril_nw_pref_type_t_v01 \<Rightarrow> u32" where
  "uril_nw_pref_type_t_v01_code URIL_NW_PREF_TYPE_GSM_WCDMA = 0"
| "uril_nw_pref_type_t_v01_code URIL_NW_PREF_TYPE_GSM_ONLY = 1"
| "uril_nw_pref_type_t_v01_code URIL_NW_PREF_TYPE_WCDMA = 2"
| "uril_nw_pref_type_t_v01_code URIL_NW_PREF_TYPE_GSM_WCDMA_AUTO = 3"
| "uril_nw_pref_type_t_v01_code URIL_NW_PREF_TYPE_CDMA_EVDO_AUTO = 4"
| "uril_nw_pref_type_t_v01_code URIL_NW_PREF_TYPE_CDMA_ONLY = 5"
| "uril_nw_pref_type_t_v01_code URIL_NW_PREF_TYPE_EVDO_ONLY = 6"
| "uril_nw_pref_type_t_v01_code URIL_NW_PREF_TYPE_GSM_WCDMA_CDMA_EVDO_AUTO = 7"
| "uril_nw_pref_type_t_v01_code URIL_NW_PREF_TYPE_LTE_CDMA_EVDO = 8"
| "uril_nw_pref_type_t_v01_code URIL_NW_PREF_TYPE_LTE_GSM_WCDMA = 9"
| "uril_nw_pref_type_t_v01_code URIL_NW_PREF_TYPE_LTE_CMDA_EVDO_GSM_WCDMA = 10"
| "uril_nw_pref_type_t_v01_code URIL_NW_PREF_TYPE_LTE_ONLY = 11"
| "uril_nw_pref_type_t_v01_code URIL_NW_PREF_TYPE_LTE_WCDMA = 12"

definition uril_nw_pref_type_t_v01_all :: "uril_nw_pref_type_t_v01 list" where
  "uril_nw_pref_type_t_v01_all =
     [URIL_NW_PREF_TYPE_GSM_WCDMA,
      URIL_NW_PREF_TYPE_GSM_ONLY,
      URIL_NW_PREF_TYPE_WCDMA,
      URIL_NW_PREF_TYPE_GSM_WCDMA_AUTO,
      URIL_NW_PREF_TYPE_CDMA_EVDO_AUTO,
      URIL_NW_PREF_TYPE_CDMA_ONLY,
      URIL_NW_PREF_TYPE_EVDO_ONLY,
      URIL_NW_PREF_TYPE_GSM_WCDMA_CDMA_EVDO_AUTO,
      URIL_NW_PREF_TYPE_LTE_CDMA_EVDO,
      URIL_NW_PREF_TYPE_LTE_GSM_WCDMA,
      URIL_NW_PREF_TYPE_LTE_CMDA_EVDO_GSM_WCDMA,
      URIL_NW_PREF_TYPE_LTE_ONLY,
      URIL_NW_PREF_TYPE_LTE_WCDMA]"

interpretation nw_pref_type: c_enum uril_nw_pref_type_t_v01_code uril_nw_pref_type_t_v01_all
proof (unfold_locales, goal_cases)
  case (1 e)
  then show ?case by (cases e) (simp_all add: uril_nw_pref_type_t_v01_all_def)
next
  case 2
  show ?case by code_simp
qed

datatype uril_nw_service_t_v01 =
    URIL_NW_SERVICE_NONE_V01
  | URIL_NW_SERVICE_LIMITED_V01
  | URIL_NW_SERVICE_FULL_V01

fun uril_nw_service_t_v01_code :: "uril_nw_service_t_v01 \<Rightarrow> u32" where
  "uril_nw_service_t_v01_code URIL_NW_SERVICE_NONE_V01 = 0"
| "uril_nw_service_t_v01_code URIL_NW_SERVICE_LIMITED_V01 = 1"
| "uril_nw_service_t_v01_code URIL_NW_SERVICE_FULL_V01 = 2"

definition uril_nw_service_t_v01_all :: "uril_nw_service_t_v01 list" where
  "uril_nw_service_t_v01_all =
     [URIL_NW_SERVICE_NONE_V01,
      URIL_NW_SERVICE_LIMITED_V01,
      URIL_NW_SERVICE_FULL_V01]"

interpretation nw_service: c_enum uril_nw_service_t_v01_code uril_nw_service_t_v01_all
proof (unfold_locales, goal_cases)
  case (1 e)
  then show ?case by (cases e) (simp_all add: uril_nw_service_t_v01_all_def)
next
  case 2
  show ?case by code_simp
qed

datatype uril_nw_selection_type_t_v01 =
    URIL_NW_SELECTION_AUTOMATIC_V01
  | URIL_NW_SELECTION_MANUAL_V01

fun uril_nw_selection_type_t_v01_code :: "uril_nw_selection_type_t_v01 \<Rightarrow> u32" where
  "uril_nw_selection_type_t_v01_code URIL_NW_SELECTION_AUTOMATIC_V01 = 0"
| "uril_nw_selection_type_t_v01_code URIL_NW_SELECTION_MANUAL_V01 = 1"

definition uril_nw_selection_type_t_v01_all :: "uril_nw_selection_type_t_v01 list" where
  "uril_nw_selection_type_t_v01_all =
     [URIL_NW_SELECTION_AUTOMATIC_V01,
      URIL_NW_SELECTION_MANUAL_V01]"

interpretation nw_selection_type: c_enum uril_nw_selection_type_t_v01_code uril_nw_selection_type_t_v01_all
proof (unfold_locales, goal_cases)
  case (1 e)
  then show ?case by (cases e) (simp_all add: uril_nw_selection_type_t_v01_all_def)
next
  case 2
  show ?case by code_simp
qed

datatype uril_nw_network_status_t_v01 =
    URIL_NW_NETWORK_STATUS_NONE_V01
  | URIL_NW_NETWORK_STATUS_CURRENT_SERVING_V01
  | URIL_NW_NETWORK_STATUS_AVAILABLE_V01
  | URIL_NW_NETWORK_STATUS_FORBIDDEN_V01

fun uril_nw_network_status_t_v01_code :: "uril_nw_network_status_t_v01 \<Rightarrow> u32" where
  "uril_nw_network_status_t_v01_code URIL_NW_NETWORK_STATUS_NONE_V01 = 0"
| "uril_nw_network_status_t_v01_code URIL_NW_NETWORK_STATUS_CURRENT_SERVING_V01 = 1"
| "uril_nw_network_status_t_v01_code URIL_NW_NETWORK_STATUS_AVAILABLE_V01 = 2"
| "uril_nw_network_status_t_v01_code URIL_NW_NETWORK_STATUS_FORBIDDEN_V01 = 3"

definition uril_nw_network_status_t_v01_all :: "uril_nw_network_status_t_v01 list" where
  "uril_nw_network_status_t_v01_all =
     [URIL_NW_NETWORK_STATUS_NONE_V01,
      URIL_NW_NETWORK_STATUS_CURRENT_SERVING_V01,
      URIL_NW_NETWORK_STATUS_AVAILABLE_V01,
      URIL_NW_NETWORK_STATUS_FORBIDDEN_V01]"

interpretation nw_network_status: c_enum uril_nw_network_status_t_v01_code uril_nw_network_status_t_v01_all
proof (unfold_locales, goal_cases)
  case (1 e)
  then show ?case by (cases e) (simp_all add: uril_nw_network_status_t_v01_all_def)
next
  case 2
  show ?case by code_simp
qed

datatype uril_nw_rat_t_v01 =
    URIL_NW_RAT_NONE_V01
  | URIL_NW_RAT_TD_SCDMA_V01
  | URIL_NW_RAT_GSM_V01
  | URIL_NW_RAT_HSPAP_V01
  | URIL_NW_RAT_LTE_V01
  | URIL_NW_RAT_EHRPD_V01
  | URIL_NW_RAT_EVDO_B_V01
  | URIL_NW_RAT_HSPA_V01
  | URIL_NW_RAT_HSUPA_V01
  | URIL_NW_RAT_HSDPA_V01
  | URIL_NW_RAT_EVDO_A_V01
  | URIL_NW_RAT_EVDO_0_V01
  | URIL_NW_RAT_1xRTT_V01
  | URIL_NW_RAT_IS95B_V01
  | URIL_NW_RAT_IS95A_V01
  | URIL_NW_RAT_UMTS_V01
  | URIL_NW_RAT_EDGE_V01
  | URIL_NW_RAT_GPRS_V01
  | URIL_NW_RAT_IWLAN_V01

fun uril_nw_rat_t_v01_code :: "uril_nw_rat_t_v01 \<Rightarrow> u32" where
  "uril_nw_rat_t_v01_code URIL_NW_RAT_NONE_V01 = 0"
| "uril_nw_rat_t_v01_code URIL_NW_RAT_TD_SCDMA_V01 = 1"
| "uril_nw_rat_t_v01_code URIL_NW_RAT_GSM_V01 = 2"
| "uril_nw_rat_t_v01_code URIL_NW_RAT_HSPAP_V01 = 3"
| "uril_nw_rat_t_v01_code URIL_NW_RAT_LTE_V01 = 4"
| "uril_nw_rat_t_v01_code URIL_NW_RAT_EHRPD_V01 = 5"
| "uril_nw_rat_t_v01_code URIL_NW_RAT_EVDO_B_V01 = 6"
| "uril_nw_rat_t_v01_code URIL_NW_RAT_HSPA_V01 = 7"
| "uril_nw_rat_t_v01_code URIL_NW_RAT_HSUPA_V01 = 8"
| "uril_nw_rat_t_v01_code URIL_NW_RAT_HSDPA_V01 = 9"
| "uril_nw_rat_t_v01_code URIL_NW_RAT_EVDO_A_V01 = 10"
| "uril_nw_rat_t_v01_code URIL_NW_RAT_EVDO_0_V01 = 11"
| "uril_nw_rat_t_v01_code URIL_NW_RAT_1xRTT_V01 = 12"
| "uril_nw_rat_t_v01_code URIL_NW_RAT_IS95B_V01 = 13"
| "uril_nw_rat_t_v01_code URIL_NW_RAT_IS95A_V01 = 14"
| "uril_nw_rat_t_v01_code URIL_NW_RAT_UMTS_V01 = 15"
| "uril_nw_rat_t_v01_code URIL_NW_RAT_EDGE_V01 = 16"
| "uril_nw_rat_t_v01_code URIL_NW_RAT_GPRS_V01 = 17"
| "uril_nw_rat_t_v01_code URIL_NW_RAT_IWLAN_V01 = 18"

definition uril_nw_rat_t_v01_all :: "uril_nw_rat_t_v01 list" where
  "uril_nw_rat_t_v01_all =
     [URIL_NW_RAT_NONE_V01,
      URIL_NW_RAT_TD_SCDMA_V01,
      URIL_NW_RAT_GSM_V01,
      URIL_NW_RAT_HSPAP_V01,
      URIL_NW_RAT_LTE_V01,
      URIL_NW_RAT_EHRPD_V01,
      URIL_NW_RAT_EVDO_B_V01,
      URIL_NW_RAT_HSPA_V01,
      URIL_NW_RAT_HSUPA_V01,
      URIL_NW_RAT_HSDPA_V01,
      URIL_NW_RAT_EVDO_A_V01,
      URIL_NW_RAT_EVDO_0_V01,
      URIL_NW_RAT_1xRTT_V01,
      URIL_NW_RAT_IS95B_V01,
      URIL_NW_RAT_IS95A_V01,
      URIL_NW_RAT_UMTS_V01,
      URIL_NW_RAT_EDGE_V01,
      URIL_NW_RAT_GPRS_V01,
      URIL_NW_RAT_IWLAN_V01]"

interpretation nw_rat: c_enum uril_nw_rat_t_v01_code uril_nw_rat_t_v01_all
proof (unfold_locales, goal_cases)
  case (1 e)
  then show ?case by (cases e) (simp_all add: uril_nw_rat_t_v01_all_def)
next
  case 2
  show ?case by code_simp
qed

datatype uril_nw_roaming_state_t_v01 =
    URIL_NW_ROAMING_STATE_OFF_V01
  | URIL_NW_ROAMING_STATE_ON_V01

fun uril_nw_roaming_state_t_v01_code :: "uril_nw_roaming_state_t_v01 \<Rightarrow> u32" where
  "uril_nw_roaming_state_t_v01_code URIL_NW_ROAMING_STATE_OFF_V01 = 0"
| "uril_nw_roaming_state_t_v01_code URIL_NW_ROAMING_STATE_ON_V01 = 1"

definition uril_nw_roaming_state_t_v01_all :: "uril_nw_roaming_state_t_v01 list" where
  "uril_nw_roaming_state_t_v01_all =
     [URIL_NW_ROAMING_STATE_OFF_V01,
      URIL_NW_ROAMING_STATE_ON_V01]"

interpretation nw_roaming_state: c_enum uril_nw_roaming_state_t_v01_code uril_nw_roaming_state_t_v01_all
proof (unfold_locales, goal_cases)
  case (1 e)
  then show ?case by (cases e) (simp_all add: uril_nw_roaming_state_t_v01_all_def)
next
  case 2
  show ?case by code_simp
qed

datatype uril_nw_tech_t_v01 =
    URIL_NW_TECH_NONE_V01
  | URIL_NW_TECH_3GPP_V01

fun uril_nw_tech_t_v01_code :: "uril_nw_tech_t_v01 \<Rightarrow> u32" where
  "uril_nw_tech_t_v01_code URIL_NW_TECH_NONE_V01 = 0"
| "uril_nw_tech_t_v01_code URIL_NW_TECH_3GPP_V01 = 1"

definition uril_nw_tech_t_v01_all :: "uril_nw_tech_t_v01 list" where
  "uril_nw_tech_t_v01_all =
     [URIL_NW_TECH_NONE_V01,
      URIL_NW_TECH_3GPP_V01]"

interpretation nw_tech: c_enum uril_nw_tech_t_v01_code uril_nw_tech_t_v01_all
proof (unfold_locales, goal_cases)
  case (1 e)
  then show ?case by (cases e) (simp_all add: uril_nw_tech_t_v01_all_def)
next
  case 2
  show ?case by code_simp
qed

datatype uril_nw_deny_reason_t_v01 =
    URIL_NW_GENERAL
  | URIL_NW_AUTHENTICATION_FAILURE
  | URIL_NW_IMSI_UNKNOWN_IN_HLR
  | URIL_NW_ILLEGAL_MS
  | URIL_NW_ILLEGAL_ME
  | URIL_NW_PLMN_NOT_ALLOWED
  | URIL_NW_LOCATION_AREA_NOT_ALLOWED
  | URIL_NW_ROAMING_NOT_ALLOWED
  | URIL_NW_NO_SUITABLE_CELLS_IN_THIS_LOCATION_AREA
  | URIL_NW_NETWORK_FAILURE
  | URIL_NW_PERSISTENT_LOCATION_UPDATE_REJECT
  | URIL_NW_MAC_FAILURE
  | URIL_NW_SYNC_FAILURE
  | URIL_NW_CONGESTION
  | URIL_NW_GSM_AUTHENTICATION_UNACCEPTABLE
  | URIL_NW_NOT_AUTHORIZED_FOR_THIS_CSG
  | URIL_NW_SERVICE_OPTION_NOT_SUPPORTED
  | URIL_NW_REQUESTED_SERVICE_OPTION_NOT_SUBSCRIBED
  | URIL_NW_SERVICE_OPTION_TEMPORARILY_OUT_OF_ORDER
  | URIL_NW_CALL_CANNOT_BE_IDENTIFIED
  | URIL_NW_RETRY_UPON_ENTRY_INTO_A_NEW_CELL
  | URIL_NW_SEMANTICALLY_INCORRECT_MESSAGE
  | URIL_NW_INVALID_MANDATORY_INFORMATION
  | URIL_NW_MESSAGE_TYPE_NON_EXISTENT_OR_NOT_IMPLEMENTED
  | URIL_NW_MESSAGE_NOT_COMPATIBLE_WITH_PROTOCOL_STATE
  | URIL_NW_INFORMATION_ELEMENT_NON_EXISTENT_OR_NOT_IMPLEMENTED
  | URIL_NW_CONDITIONAL_IE_ERROR
  | URIL_NW_PROTOCOL_ERROR_UNSPECIFIED

fun uril_nw_deny_reason_t_v01_code :: "uril_nw_deny_reason_t_v01 \<Rightarrow> u32" where
  "uril_nw_deny_reason_t_v01_code URIL_NW_GENERAL = 0"
| "uril_nw_deny_reason_t_v01_code URIL_NW_AUTHENTICATION_FAILURE = 1"
| "uril_nw_deny_reason_t_v01_code URIL_NW_IMSI_UNKNOWN_IN_HLR = 2"
| "uril_nw_deny_reason_t_v01_code URIL_NW_ILLEGAL_MS = 3"
| "uril_nw_deny_reason_t_v01_code URIL_NW_ILLEGAL_ME = 4"
| "uril_nw_deny_reason_t_v01_code URIL_NW_PLMN_NOT_ALLOWED = 5"
| "uril_nw_deny_reason_t_v01_code URIL_NW_LOCATION_AREA_NOT_ALLOWED = 6"
| "uril_nw_deny_reason_t_v01_code URIL_NW_ROAMING_NOT_ALLOWED = 7"
| "uril_nw_deny_reason_t_v01_code URIL_NW_NO_SUITABLE_CELLS_IN_THIS_LOCATION_AREA = 8"
| "uril_nw_deny_reason_t_v01_code URIL_NW_NETWORK_FAILURE = 9"
| "uril_nw_deny_reason_t_v01_code URIL_NW_PERSISTENT_LOCATION_UPDATE_REJECT = 10"
| "uril_nw_deny_reason_t_v01_code URIL_NW_MAC_FAILURE = 20"
| "uril_nw_deny_reason_t_v01_code URIL_NW_SYNC_FAILURE = 21"
| "uril_nw_deny_reason_t_v01_code URIL_NW_CONGESTION = 22"
| "uril_nw_deny_reason_t_v01_code URIL_NW_GSM_AUTHENTICATION_UNACCEPTABLE = 23"
| "uril_nw_deny_reason_t_v01_code URIL_NW_NOT_AUTHORIZED_FOR_THIS_CSG = 25"
| "uril_nw_deny_reason_t_v01_code URIL_NW_SERVICE_OPTION_NOT_SUPPORTED = 32"
| "uril_nw_deny_reason_t_v01_code URIL_NW_REQUESTED_SERVICE_OPTION_NOT_SUBSCRIBED = 33"
| "uril_nw_deny_reason_t_v01_code URIL_NW_SERVICE_OPTION_TEMPORARILY_OUT_OF_ORDER = 34"
| "uril_nw_deny_reason_t_v01_code URIL_NW_CALL_CANNOT_BE_IDENTIFIED = 38"
| "uril_nw_deny_reason_t_v01_code URIL_NW_RETRY_UPON_ENTRY_INTO_A_NEW_CELL = 48"
| "uril_nw_deny_reason_t_v01_code URIL_NW_SEMANTICALLY_INCORRECT_MESSAGE = 95"
| "uril_nw_deny_reason_t_v01_code URIL_NW_INVALID_MANDATORY_INFORMATION = 96"
| "uril_nw_deny_reason_t_v01_code URIL_NW_MESSAGE_TYPE_NON_EXISTENT_OR_NOT_IMPLEMENTED = 97"
| "uril_nw_deny_reason_t_v01_code URIL_NW_MESSAGE_NOT_COMPATIBLE_WITH_PROTOCOL_STATE = 98"
| "uril_nw_deny_reason_t_v01_code URIL_NW_INFORMATION_ELEMENT_NON_EXISTENT_OR_NOT_IMPLEMENTED = 99"
| "uril_nw_deny_reason_t_v01_code URIL_NW_CONDITIONAL_IE_ERROR = 100"
| "uril_nw_deny_reason_t_v01_code URIL_NW_PROTOCOL_ERROR_UNSPECIFIED = 111"

definition uril_nw_deny_reason_t_v01_all :: "uril_nw_deny_reason_t_v01 list" where
  "uril_nw_deny_reason_t_v01_all =
     [URIL_NW_GENERAL,
      URIL_NW_AUTHENTICATION_FAILURE,
      URIL_NW_IMSI_UNKNOWN_IN_HLR,
      URIL_NW_ILLEGAL_MS,
      URIL_NW_ILLEGAL_ME,
      URIL_NW_PLMN_NOT_ALLOWED,
      URIL_NW_LOCATION_AREA_NOT_ALLOWED,
      URIL_NW_ROAMING_NOT_ALLOWED,
      URIL_NW_NO_SUITABLE_CELLS_IN_THIS_LOCATION_AREA,
      URIL_NW_NETWORK_FAILURE,
      URIL_NW_PERSISTENT_LOCATION_UPDATE_REJECT,
      URIL_NW_MAC_FAILURE,
      URIL_NW_SYNC_FAILURE,
      URIL_NW_CONGESTION,
      URIL_NW_GSM_AUTHENTICATION_UNACCEPTABLE,
      URIL_NW_NOT_AUTHORIZED_FOR_THIS_CSG,
      URIL_NW_SERVICE_OPTION_NOT_SUPPORTED,
      URIL_NW_REQUESTED_SERVICE_OPTION_NOT_SUBSCRIBED,
      URIL_NW_SERVICE_OPTION_TEMPORARILY_OUT_OF_ORDER,
      URIL_NW_CALL_CANNOT_BE_IDENTIFIED,
      URIL_NW_RETRY_UPON_ENTRY_INTO_A_NEW_CELL,
      URIL_NW_SEMANTICALLY_INCORRECT_MESSAGE,
      URIL_NW_INVALID_MANDATORY_INFORMATION,
      URIL_NW_MESSAGE_TYPE_NON_EXISTENT_OR_NOT_IMPLEMENTED,
      URIL_NW_MESSAGE_NOT_COMPATIBLE_WITH_PROTOCOL_STATE,
      URIL_NW_INFORMATION_ELEMENT_NON_EXISTENT_OR_NOT_IMPLEMENTED,
      URIL_NW_CONDITIONAL_IE_ERROR,
      URIL_NW_PROTOCOL_ERROR_UNSPECIFIED]"

interpretation nw_deny_reason: c_enum uril_nw_deny_reason_t_v01_code uril_nw_deny_reason_t_v01_all
proof (unfold_locales, goal_cases)
  case (1 e)
  then show ?case by (cases e) (simp_all add: uril_nw_deny_reason_t_v01_all_def)
next
  case 2
  show ?case by code_simp
qed

datatype uril_nw_cell_access_state_t_v01 =
    URIL_NW_CELL_ACCESS_NONE_V01
  | URIL_NW_CELL_ACCESS_NORMAL_ONLY_V01
  | URIL_NW_CELL_ACCESS_EMERGENCY_ONLY_V01
  | URIL_NW_CELL_ACCESS_NO_CALLS_V01
  | URIL_NW_CELL_ACCESS_ALL_CALLS_V01

fun uril_nw_cell_access_state_t_v01_code :: "uril_nw_cell_access_state_t_v01 \<Rightarrow> u32" where
  "uril_nw_cell_access_state_t_v01_code URIL_NW_CELL_ACCESS_NONE_V01 = 0"
| "uril_nw_cell_access_state_t_v01_code URIL_NW_CELL_ACCESS_NORMAL_ONLY_V01 = 1"
| "uril_nw_cell_access_state_t_v01_code URIL_NW_CELL_ACCESS_EMERGENCY_ONLY_V01 = 2"
| "uril_nw_cell_access_state_t_v01_code URIL_NW_CELL_ACCESS_NO_CALLS_V01 = 3"
| "uril_nw_cell_access_state_t_v01_code URIL_NW_CELL_ACCESS_ALL_CALLS_V01 = 4"

definition uril_nw_cell_access_state_t_v01_all :: "uril_nw_cell_access_state_t_v01 list" where
  "uril_nw_cell_access_state_t_v01_all =
     [URIL_NW_CELL_ACCESS_NONE_V01,
      URIL_NW_CELL_ACCESS_NORMAL_ONLY_V01,
      URIL_NW_CELL_ACCESS_EMERGENCY_ONLY_V01,
      URIL_NW_CELL_ACCESS_NO_CALLS_V01,
      URIL_NW_CELL_ACCESS_ALL_CALLS_V01]"

interpretation nw_cell_access_state: c_enum uril_nw_cell_access_state_t_v01_code uril_nw_cell_access_state_t_v01_all
proof (unfold_locales, goal_cases)
  case (1 e)
  then show ?case by (cases e) (simp_all add: uril_nw_cell_access_state_t_v01_all_def)
next
  case 2
  show ?case by code_simp
qed

datatype uril_nw_domain_t_v01 =
    URIL_DOMAIN_NONE_V01
  | URIL_DOMAIN_AUTO_V01
  | URIL_DOMAIN_CS_V01
  | URIL_DOMAIN_PS_V01

fun uril_nw_domain_t_v01_code :: "uril_nw_domain_t_v01 \<Rightarrow> u32" where
  "uril_nw_domain_t_v01_code URIL_DOMAIN_NONE_V01 = 0"
| "uril_nw_domain_t_v01_code URIL_DOMAIN_AUTO_V01 = 1"
| "uril_nw_domain_t_v01_code URIL_DOMAIN_CS_V01 = 2"
| "uril_nw_domain_t_v01_code URIL_DOMAIN_PS_V01 = 3"

definition uril_nw_domain_t_v01_all :: "uril_nw_domain_t_v01 list" where
  "uril_nw_domain_t_v01_all =
     [URIL_DOMAIN_NONE_V01,
      URIL_DOMAIN_AUTO_V01,
      URIL_DOMAIN_CS_V01,
      URIL_DOMAIN_PS_V01]"

interpretation nw_domain: c_enum uril_nw_domain_t_v01_code uril_nw_domain_t_v01_all
proof (unfold_locales, goal_cases)
  case (1 e)
  then show ?case by (cases e) (simp_all add: uril_nw_domain_t_v01_all_def)
next
  case 2
  show ?case by code_simp
qed

subsection \<open>Radio (uril_radio_v01.h)\<close>

datatype uril_radio_mode_t_v01 =
    URIL_RADIO_MODE_OFFLINE_V01
  | URIL_RADIO_MODE_ONLINE_V01
  | URIL_RADIO_MODE_UNAVAILABLE_V01

fun uril_radio_mode_t_v01_code :: "uril_radio_mode_t_v01 \<Rightarrow> u32" where
  "uril_radio_mode_t_v01_code URIL_RADIO_MODE_OFFLINE_V01 = 0x0001"
| "uril_radio_mode_t_v01_code URIL_RADIO_MODE_ONLINE_V01 = 0x0002"
| "uril_radio_mode_t_v01_code URIL_RADIO_MODE_UNAVAILABLE_V01 = 0x0003"

definition uril_radio_mode_t_v01_all :: "uril_radio_mode_t_v01 list" where
  "uril_radio_mode_t_v01_all =
     [URIL_RADIO_MODE_OFFLINE_V01,
      URIL_RADIO_MODE_ONLINE_V01,
      URIL_RADIO_MODE_UNAVAILABLE_V01]"

interpretation radio_mode: c_enum uril_radio_mode_t_v01_code uril_radio_mode_t_v01_all
proof (unfold_locales, goal_cases)
  case (1 e)
  then show ?case by (cases e) (simp_all add: uril_radio_mode_t_v01_all_def)
next
  case 2
  show ?case by code_simp
qed

subsection \<open>Data (uril_data_v01.h)\<close>

datatype uril_data_pdp_type_t_v01 =
    URIL_DATA_PDP_TYPE_NONE
  | URIL_DATA_PDP_TYPE_IP
  | URIL_DATA_PDP_TYPE_IPV6
  | URIL_DATA_PDP_TYPE_IPV4V6
  | URIL_DATA_PDP_TYPE_PPP

fun uril_data_pdp_type_t_v01_code :: "uril_data_pdp_type_t_v01 \<Rightarrow> u32" where
  "uril_data_pdp_type_t_v01_code URIL_DATA_PDP_TYPE_NONE = 0"
| "uril_data_pdp_type_t_v01_code URIL_DATA_PDP_TYPE_IP = 1"
| "uril_data_pdp_type_t_v01_code URIL_DATA_PDP_TYPE_IPV6 = 2"
| "uril_data_pdp_type_t_v01_code URIL_DATA_PDP_TYPE_IPV4V6 = 3"
| "uril_data_pdp_type_t_v01_code URIL_DATA_PDP_TYPE_PPP = 4"

definition uril_data_pdp_type_t_v01_all :: "uril_data_pdp_type_t_v01 list" where
  "uril_data_pdp_type_t_v01_all =
     [URIL_DATA_PDP_TYPE_NONE,
      URIL_DATA_PDP_TYPE_IP,
      URIL_DATA_PDP_TYPE_IPV6,
      URIL_DATA_PDP_TYPE_IPV4V6,
      URIL_DATA_PDP_TYPE_PPP]"

interpretation data_pdp_type: c_enum uril_data_pdp_type_t_v01_code uril_data_pdp_type_t_v01_all
proof (unfold_locales, goal_cases)
  case (1 e)
  then show ?case by (cases e) (simp_all add: uril_data_pdp_type_t_v01_all_def)
next
  case 2
  show ?case by code_simp
qed

datatype uril_data_auth_type_t_v01 =
    URIL_DATA_AUTH_TYPE_NONE
  | URIL_DATA_AUTH_TYPE_PAP
  | URIL_DATA_AUTH_TYPE_CHAP
  | URIL_DATA_AUTH_TYPE_PAPCHAP

fun uril_data_auth_type_t_v01_code :: "uril_data_auth_type_t_v01 \<Rightarrow> u32" where
  "uril_data_auth_type_t_v01_code URIL_DATA_AUTH_TYPE_NONE = 0"
| "uril_data_auth_type_t_v01_code URIL_DATA_AUTH_TYPE_PAP = 1"
| "uril_data_auth_type_t_v01_code URIL_DATA_AUTH_TYPE_CHAP = 2"
| "uril_data_auth_type_t_v01_code URIL_DATA_AUTH_TYPE_PAPCHAP = 3"

definition uril_data_auth_type_t_v01_all :: "uril_data_auth_type_t_v01 list" where
  "uril_data_auth_type_t_v01_all =
     [URIL_DATA_AUTH_TYPE_NONE,
      URIL_DATA_AUTH_TYPE_PAP,
      URIL_DATA_AUTH_TYPE_CHAP,
      URIL_DATA_AUTH_TYPE_PAPCHAP]"

interpretation data_auth_type: c_enum uril_data_auth_type_t_v01_code uril_data_auth_type_t_v01_all
proof (unfold_locales, goal_cases)
  case (1 e)
  then show ?case by (cases e) (simp_all add: uril_data_auth_type_t_v01_all_def)
next
  case 2
  show ?case by code_simp
qed

datatype uril_data_bearer_tech_info_t_v01 =
    URIL_DATA_BEARER_TECH_TYPE_UNKNOWN_V01
  | URIL_DATA_BEARER_TECH_TYPE_CDMA_1X_V01
  | URIL_DATA_BEARER_TECH_TYPE_EVDO_REV0_V01
  | URIL_DATA_BEARER_TECH_TYPE_EVDO_REVA_V01
  | URIL_DATA_BEARER_TECH_TYPE_EVDO_REVB_V01
  | URIL_DATA_BEARER_TECH_TYPE_EHRPD_V01
  | URIL_DATA_BEARER_TECH_TYPE_FMC_V01
  | URIL_DATA_BEARER_TECH_TYPE_HRPD_V01
  | URIL_DATA_BEARER_TECH_TYPE_3GPP2_WLAN_V01
  | URIL_DATA_BEARER_TECH_TYPE_WCDMA_V01
  | URIL_DATA_BEARER_TECH_TYPE_GPRS_V01
  | URIL_DATA_BEARER_TECH_TYPE_HSDPA_V01
  | URIL_DATA_BEARER_TECH_TYPE_HSUPA_V01
  | URIL_DATA_BEARER_TECH_TYPE_EDGE_V01
  | URIL_DATA_BEARER_TECH_TYPE_LTE_V01
  | URIL_DATA_BEARER_TECH_TYPE_HSDPA_PLUS_V01
  | URIL_DATA_BEARER_TECH_TYPE_DC_HSDPA_PLUS_V01
  | URIL_DATA_BEARER_TECH_TYPE_HSPA_V01
  | URIL_DATA_BEARER_TECH_TYPE_64_QAM_V01
  | URIL_DATA_BEARER_TECH_TYPE_TDSCDMA_V01
  | URIL_DATA_BEARER_TECH_TYPE_GSM_V01
  | URIL_DATA_BEARER_TECH_TYPE_3GPP_WLAN_V01

fun uril_data_bearer_tech_info_t_v01_code :: "uril_data_bearer_tech_info_t_v01 \<Rightarrow> u32" where
  "uril_data_bearer_tech_info_t_v01_code URIL_DATA_BEARER_TECH_TYPE_UNKNOWN_V01 = 0x00"
| "uril_data_bearer_tech_info_t_v01_code URIL_DATA_BEARER_TECH_TYPE_CDMA_1X_V01 = 0x01"
| "uril_data_bearer_tech_info_t_v01_code URIL_DATA_BEARER_TECH_TYPE_EVDO_REV0_V01 = 0x02"
| "uril_data_bearer_tech_info_t_v01_code URIL_DATA_BEARER_TECH_TYPE_EVDO_REVA_V01 = 0x03"
| "uril_data_bearer_tech_info_t_v01_code URIL_DATA_BEARER_TECH_TYPE_EVDO_REVB_V01 = 0x04"
| "uril_data_bearer_tech_info_t_v01_code URIL_DATA_BEARER_TECH_TYPE_EHRPD_V01 = 0x05"
| "uril_data_bearer_tech_info_t_v01_code URIL_DATA_BEARER_TECH_TYPE_FMC_V01 = 0x06"
| "uril_data_bearer_tech_info_t_v01_code URIL_DATA_BEARER_TECH_TYPE_HRPD_V01 = 0x07"
| "uril_data_bearer_tech_info_t_v01_code URIL_DATA_BEARER_TECH_TYPE_3GPP2_WLAN_V01 = 0x08"
| "uril_data_bearer_tech_info_t_v01_code URIL_DATA_BEARER_TECH_TYPE_WCDMA_V01 = 0x09"
| "uril_data_bearer_tech_info_t_v01_code URIL_DATA_BEARER_TECH_TYPE_GPRS_V01 = 0x0A"
| "uril_data_bearer_tech_info_t_v01_code URIL_DATA_BEARER_TECH_TYPE_HSDPA_V01 = 0x0B"
| "uril_data_bearer_tech_info_t_v01_code URIL_DATA_BEARER_TECH_TYPE_HSUPA_V01 = 0x0C"
| "uril_data_bearer_tech_info_t_v01_code URIL_DATA_BEARER_TECH_TYPE_EDGE_V01 = 0x0D"
| "uril_data_bearer_tech_info_t_v01_code URIL_DATA_BEARER_TECH_TYPE_LTE_V01 = 0x0E"
| "uril_data_bearer_tech_info_t_v01_code URIL_DATA_BEARER_TECH_TYPE_HSDPA_PLUS_V01 = 0x0F"
| "uril_data_bearer_tech_info_t_v01_code URIL_DATA_BEARER_TECH_TYPE_DC_HSDPA_PLUS_V01 = 0x10"
| "uril_data_bearer_tech_info_t_v01_code URIL_DATA_BEARER_TECH_TYPE_HSPA_V01 = 0x11"
| "uril_data_bearer_tech_info_t_v01_code URIL_DATA_BEARER_TECH_TYPE_64_QAM_V01 = 0x12"
| "uril_data_bearer_tech_info_t_v01_code URIL_DATA_BEARER_TECH_TYPE_TDSCDMA_V01 = 0x13"
| "uril_data_bearer_tech_info_t_v01_code URIL_DATA_BEARER_TECH_TYPE_GSM_V01 = 0x14"
| "uril_data_bearer_tech_info_t_v01_code URIL_DATA_BEARER_TECH_TYPE_3GPP_WLAN_V01 = 0x15"

definition uril_data_bearer_tech_info_t_v01_all :: "uril_data_bearer_tech_info_t_v01 list" where
  "uril_data_bearer_tech_info_t_v01_all =
     [URIL_DATA_BEARER_TECH_TYPE_UNKNOWN_V01,
      URIL_DATA_BEARER_TECH_TYPE_CDMA_1X_V01,
      URIL_DATA_BEARER_TECH_TYPE_EVDO_REV0_V01,
      URIL_DATA_BEARER_TECH_TYPE_EVDO_REVA_V01,
      URIL_DATA_BEARER_TECH_TYPE_EVDO_REVB_V01,
      URIL_DATA_BEARER_TECH_TYPE_EHRPD_V01,
      URIL_DATA_BEARER_TECH_TYPE_FMC_V01,
      URIL_DATA_BEARER_TECH_TYPE_HRPD_V01,
      URIL_DATA_BEARER_TECH_TYPE_3GPP2_WLAN_V01,
      URIL_DATA_BEARER_TECH_TYPE_WCDMA_V01,
      URIL_DATA_BEARER_TECH_TYPE_GPRS_V01,
      URIL_DATA_BEARER_TECH_TYPE_HSDPA_V01,
      URIL_DATA_BEARER_TECH_TYPE_HSUPA_V01,
      URIL_DATA_BEARER_TECH_TYPE_EDGE_V01,
      URIL_DATA_BEARER_TECH_TYPE_LTE_V01,
      URIL_DATA_BEARER_TECH_TYPE_HSDPA_PLUS_V01,
      URIL_DATA_BEARER_TECH_TYPE_DC_HSDPA_PLUS_V01,
      URIL_DATA_BEARER_TECH_TYPE_HSPA_V01,
      URIL_DATA_BEARER_TECH_TYPE_64_QAM_V01,
      URIL_DATA_BEARER_TECH_TYPE_TDSCDMA_V01,
      URIL_DATA_BEARER_TECH_TYPE_GSM_V01,
      URIL_DATA_BEARER_TECH_TYPE_3GPP_WLAN_V01]"

interpretation data_bearer_tech_info: c_enum uril_data_bearer_tech_info_t_v01_code uril_data_bearer_tech_info_t_v01_all
proof (unfold_locales, goal_cases)
  case (1 e)
  then show ?case by (cases e) (simp_all add: uril_data_bearer_tech_info_t_v01_all_def)
next
  case 2
  show ?case by code_simp
qed

datatype uril_data_call_failure_cause_t_v01 =
    URIL_DATA_FAIL_CAUSE_NONE
  | URIL_DATA_FAIL_CAUSE_OPERATOR_BARRED
  | URIL_DATA_FAIL_CAUSE_INSUFFICIENT_RESOURCES
  | URIL_DATA_FAIL_CAUSE_MISSING_UKNOWN_APN
  | URIL_DATA_FAIL_CAUSE_UNKNOWN_PDP_ADDRESS_TYPE
  | URIL_DATA_FAIL_CAUSE_USER_AUTHENTICATION
  | URIL_DATA_FAIL_CAUSE_ACTIVATION_REJECT_GGSN
  | URIL_DATA_FAIL_CAUSE_ACTIVATION_REJECT_UNSPECIFIED
  | URIL_DATA_FAIL_CAUSE_SERVICE_OPTION_NOT_SUPPORTED
  | URIL_DATA_FAIL_CAUSE_SERVICE_OPTION_NOT_SUBSCRIBED
  | URIL_DATA_FAIL_CAUSE_SERVICE_OPTION_OUT_OF_ORDER
  | URIL_DATA_FAIL_CAUSE_NSAPI_IN_USE
  | URIL_DATA_FAIL_CAUSE_REGULAR_DEACTIVATION
  | URIL_DATA_FAIL_CAUSE_ONLY_IPV4_ALLOWED
  | URIL_DATA_FAIL_CAUSE_ONLY_IPV6_ALLOWED
  | URIL_DATA_FAIL_CAUSE_ONLY_SINGLE_BEARER_ALLOWED
  | URIL_DATA_FAIL_CAUSE_PROTOCOL_ERRORS
  | URIL_DATA_FAIL_CAUSE_VOICE_REGISTRATION_FAIL
  | URIL_DATA_FAIL_CAUSE_DATA_REGISTRATION_FAIL
  | URIL_DATA_FAIL_CAUSE_SIGNAL_LOST
  | URIL_DATA_FAIL_CAUSE_PREF_RADIO_TECH_CHANGED
  | URIL_DATA_FAIL_CAUSE_RADIO_POWER_OFF
  | URIL_DATA_FAIL_CAUSE_TETHERED_CALL_ACTIVE
  | URIL_DATA_FAIL_CAUSE_ERROR_UNSPECIFIED

fun uril_data_call_failure_cause_t_v01_code :: "uril_data_call_failure_cause_t_v01 \<Rightarrow> u32" where
  "uril_data_call_failure_cause_t_v01_code URIL_DATA_FAIL_CAUSE_NONE = 0"
| "uril_data_call_failure_cause_t_v01_code URIL_DATA_FAIL_CAUSE_OPERATOR_BARRED = 0x08"
| "uril_data_call_failure_cause_t_v01_code URIL_DATA_FAIL_CAUSE_INSUFFICIENT_RESOURCES = 0x1A"
| "uril_data_call_failure_cause_t_v01_code URIL_DATA_FAIL_CAUSE_MISSING_UKNOWN_APN = 0x1B"
| "uril_data_call_failure_cause_t_v01_code URIL_DATA_FAIL_CAUSE_UNKNOWN_PDP_ADDRESS_TYPE = 0x1C"
| "uril_data_call_failure_cause_t_v01_code URIL_DATA_FAIL_CAUSE_USER_AUTHENTICATION = 0x1D"
| "uril_data_call_failure_cause_t_v01_code URIL_DATA_FAIL_CAUSE_ACTIVATION_REJECT_GGSN = 0x1E"
| "uril_data_call_failure_cause_t_v01_code URIL_DATA_FAIL_CAUSE_ACTIVATION_REJECT_UNSPECIFIED = 0x1F"
| "uril_data_call_failure_cause_t_v01_code URIL_DATA_FAIL_CAUSE_SERVICE_OPTION_NOT_SUPPORTED = 0x20"
| "uril_data_call_failure_cause_t_v01_code URIL_DATA_FAIL_CAUSE_SERVICE_OPTION_NOT_SUBSCRIBED = 0x21"
| "uril_data_call_failure_cause_t_v01_code URIL_DATA_FAIL_CAUSE_SERVICE_OPTION_OUT_OF_ORDER = 0x22"
| "uril_data_call_failure_cause_t_v01_code URIL_DATA_FAIL_CAUSE_NSAPI_IN_USE = 0x23"
| "uril_data_call_failure_cause_t_v01_code URIL_DATA_FAIL_CAUSE_REGULAR_DEACTIVATION = 0x24"
| "uril_data_call_failure_cause_t_v01_code URIL_DATA_FAIL_CAUSE_ONLY_IPV4_ALLOWED = 0x32"
| "uril_data_call_failure_cause_t_v01_code URIL_DATA_FAIL_CAUSE_ONLY_IPV6_ALLOWED = 0x33"
| "uril_data_call_failure_cause_t_v01_code URIL_DATA_FAIL_CAUSE_ONLY_SINGLE_BEARER_ALLOWED = 0x34"
| "uril_data_call_failure_cause_t_v01_code URIL_DATA_FAIL_CAUSE_PROTOCOL_ERRORS = 0x6F"
| "uril_data_call_failure_cause_t_v01_code URIL_DATA_FAIL_CAUSE_VOICE_REGISTRATION_FAIL = - 1"
| "uril_data_call_failure_cause_t_v01_code URIL_DATA_FAIL_CAUSE_DATA_REGISTRATION_FAIL = - 2"
| "uril_data_call_failure_cause_t_v01_code URIL_DATA_FAIL_CAUSE_SIGNAL_LOST = - 3"
| "uril_data_call_failure_cause_t_v01_code URIL_DATA_FAIL_CAUSE_PREF_RADIO_TECH_CHANGED = - 4"
| "uril_data_call_failure_cause_t_v01_code URIL_DATA_FAIL_CAUSE_RADIO_POWER_OFF = - 5"
| "uril_data_call_failure_cause_t_v01_code URIL_DATA_FAIL_CAUSE_TETHERED_CALL_ACTIVE = - 6"
| "uril_data_call_failure_cause_t_v01_code URIL_DATA_FAIL_CAUSE_ERROR_UNSPECIFIED = 0xffff"

definition uril_data_call_failure_cause_t_v01_all :: "uril_data_call_failure_cause_t_v01 list" where
  "uril_data_call_failure_cause_t_v01_all =
     [URIL_DATA_FAIL_CAUSE_NONE,
      URIL_DATA_FAIL_CAUSE_OPERATOR_BARRED,
      URIL_DATA_FAIL_CAUSE_INSUFFICIENT_RESOURCES,
      URIL_DATA_FAIL_CAUSE_MISSING_UKNOWN_APN,
      URIL_DATA_FAIL_CAUSE_UNKNOWN_PDP_ADDRESS_TYPE,
      URIL_DATA_FAIL_CAUSE_USER_AUTHENTICATION,
      URIL_DATA_FAIL_CAUSE_ACTIVATION_REJECT_GGSN,
      URIL_DATA_FAIL_CAUSE_ACTIVATION_REJECT_UNSPECIFIED,
      URIL_DATA_FAIL_CAUSE_SERVICE_OPTION_NOT_SUPPORTED,
      URIL_DATA_FAIL_CAUSE_SERVICE_OPTION_NOT_SUBSCRIBED,
      URIL_DATA_FAIL_CAUSE_SERVICE_OPTION_OUT_OF_ORDER,
      URIL_DATA_FAIL_CAUSE_NSAPI_IN_USE,
      URIL_DATA_FAIL_CAUSE_REGULAR_DEACTIVATION,
      URIL_DATA_FAIL_CAUSE_ONLY_IPV4_ALLOWED,
      URIL_DATA_FAIL_CAUSE_ONLY_IPV6_ALLOWED,
      URIL_DATA_FAIL_CAUSE_ONLY_SINGLE_BEARER_ALLOWED,
      URIL_DATA_FAIL_CAUSE_PROTOCOL_ERRORS,
      URIL_DATA_FAIL_CAUSE_VOICE_REGISTRATION_FAIL,
      URIL_DATA_FAIL_CAUSE_DATA_REGISTRATION_FAIL,
      URIL_DATA_FAIL_CAUSE_SIGNAL_LOST,
      URIL_DATA_FAIL_CAUSE_PREF_RADIO_TECH_CHANGED,
      URIL_DATA_FAIL_CAUSE_RADIO_POWER_OFF,
      URIL_DATA_FAIL_CAUSE_TETHERED_CALL_ACTIVE,
      URIL_DATA_FAIL_CAUSE_ERROR_UNSPECIFIED]"

interpretation data_call_failure_cause: c_enum uril_data_call_failure_cause_t_v01_code uril_data_call_failure_cause_t_v01_all
proof (unfold_locales, goal_cases)
  case (1 e)
  then show ?case by (cases e) (simp_all add: uril_data_call_failure_cause_t_v01_all_def)
next
  case 2
  show ?case by code_simp
qed

datatype uril_physical_link_state_t_v01 =
    URIL_DATA_PHYSLINK_STATE_INACTIVE_V01
  | URIL_DATA_PHYSLINK_STATE_ACTIVE_DOWN_V01
  | URIL_DATA_PHYSLINK_STATE_ACTIVE_UP_V01

fun uril_physical_link_state_t_v01_code :: "uril_physical_link_state_t_v01 \<Rightarrow> u32" where
  "uril_physical_link_state_t_v01_code URIL_DATA_PHYSLINK_STATE_INACTIVE_V01 = 0"
| "uril_physical_link_state_t_v01_code URIL_DATA_PHYSLINK_STATE_ACTIVE_DOWN_V01 = 1"
| "uril_physical_link_state_t_v01_code URIL_DATA_PHYSLINK_STATE_ACTIVE_UP_V01 = 2"

definition uril_physical_link_state_t_v01_all :: "uril_physical_link_state_t_v01 list" where
  "uril_physical_link_state_t_v01_all =
     [URIL_DATA_PHYSLINK_STATE_INACTIVE_V01,
      URIL_DATA_PHYSLINK_STATE_ACTIVE_DOWN_V01,
      URIL_DATA_PHYSLINK_STATE_ACTIVE_UP_V01]"

interpretation physical_link_state: c_enum uril_physical_link_state_t_v01_code uril_physical_link_state_t_v01_all
proof (unfold_locales, goal_cases)
  case (1 e)
  then show ?case by (cases e) (simp_all add: uril_physical_link_state_t_v01_all_def)
next
  case 2
  show ?case by code_simp
qed

datatype uril_data_call_end_reason_type_t_v01 =
    URIL_DATA_END_REASON_NONE
  | URIL_DATA_END_REASON_RADIO_OFF

fun uril_data_call_end_reason_type_t_v01_code :: "uril_data_call_end_reason_type_t_v01 \<Rightarrow> u32" where
  "uril_data_call_end_reason_type_t_v01_code URIL_DATA_END_REASON_NONE = 0"
| "uril_data_call_end_reason_type_t_v01_code URIL_DATA_END_REASON_RADIO_OFF = 1"

definition uril_data_call_end_reason_type_t_v01_all :: "uril_data_call_end_reason_type_t_v01 list" where
  "uril_data_call_end_reason_type_t_v01_all =
     [URIL_DATA_END_REASON_NONE,
      URIL_DATA_END_REASON_RADIO_OFF]"

interpretation data_call_end_reason_type: c_enum uril_data_call_end_reason_type_t_v01_code uril_data_call_end_reason_type_t_v01_all
proof (unfold_locales, goal_cases)
  case (1 e)
  then show ?case by (cases e) (simp_all add: uril_data_call_end_reason_type_t_v01_all_def)
next
  case 2
  show ?case by code_simp
qed

subsection \<open>Voice (uril_voice_v01.h)\<close>

datatype uril_voice_call_state_t_v01 =
    URIL_VOICE_CALL_STATE_ACTIVE
  | URIL_VOICE_CALL_STATE_HOLDING
  | URIL_VOICE_CALL_STATE_DIALING
  | URIL_VOICE_CALL_STATE_ALERTING
  | URIL_VOICE_CALL_STATE_INCOMING
  | URIL_VOICE_CALL_STATE_WAITING

fun uril_voice_call_state_t_v01_code :: "uril_voice_call_state_t_v01 \<Rightarrow> u32" where
  "uril_voice_call_state_t_v01_code URIL_VOICE_CALL_STATE_ACTIVE = 0"
| "uril_voice_call_state_t_v01_code URIL_VOICE_CALL_STATE_HOLDING = 1"
| "uril_voice_call_state_t_v01_code URIL_VOICE_CALL_STATE_DIALING = 2"
| "uril_voice_call_state_t_v01_code URIL_VOICE_CALL_STATE_ALERTING = 3"
| "uril_voice_call_state_t_v01_code URIL_VOICE_CALL_STATE_INCOMING = 4"
| "uril_voice_call_state_t_v01_code URIL_VOICE_CALL_STATE_WAITING = 5"

definition uril_voice_call_state_t_v01_all :: "uril_voice_call_state_t_v01 list" where
  "uril_voice_call_state_t_v01_all =
     [URIL_VOICE_CALL_STATE_ACTIVE,
      URIL_VOICE_CALL_STATE_HOLDING,
      URIL_VOICE_CALL_STATE_DIALING,
      URIL_VOICE_CALL_STATE_ALERTING,
      URIL_VOICE_CALL_STATE_INCOMING,
      URIL_VOICE_CALL_STATE_WAITING]"

interpretation voice_call_state: c_enum uril_voice_call_state_t_v01_code uril_voice_call_state_t_v01_all
proof (unfold_locales, goal_cases)
  case (1 e)
  then show ?case by (cases e) (simp_all add: uril_voice_call_state_t_v01_all_def)
next
  case 2
  show ?case by code_simp
qed

datatype uril_voice_call_answer_t_v01 =
    URIL_VOICE_CALL_ANSWER_REJECT
  | URIL_VOICE_CALL_ANSWER_ACCEPT

fun uril_voice_call_answer_t_v01_code :: "uril_voice_call_answer_t_v01 \<Rightarrow> u32" where
  "uril_voice_call_answer_t_v01_code URIL_VOICE_CALL_ANSWER_REJECT = 0"
| "uril_voice_call_answer_t_v01_code URIL_VOICE_CALL_ANSWER_ACCEPT = 1"

definition uril_voice_call_answer_t_v01_all :: "uril_voice_call_answer_t_v01 list" where
  "uril_voice_call_answer_t_v01_all =
     [URIL_VOICE_CALL_ANSWER_REJECT,
      URIL_VOICE_CALL_ANSWER_ACCEPT]"

interpretation voice_call_answer: c_enum uril_voice_call_answer_t_v01_code uril_voice_call_answer_t_v01_all
proof (unfold_locales, goal_cases)
  case (1 e)
  then show ?case by (cases e) (simp_all add: uril_voice_call_answer_t_v01_all_def)
next
  case 2
  show ?case by code_simp
qed

datatype uril_voice_call_clir_t_v01 =
    URIL_VOICE_CALL_CLIR_DEFAULT
  | URIL_VOICE_CALL_CLIR_INVOCATION
  | URIL_VOICE_CALL_CLIR_SUPPRESSION

fun uril_voice_call_clir_t_v01_code :: "uril_voice_call_clir_t_v01 \<Rightarrow> u32" where
  "uril_voice_call_clir_t_v01_code URIL_VOICE_CALL_CLIR_DEFAULT = 0"
| "uril_voice_call_clir_t_v01_code URIL_VOICE_CALL_CLIR_INVOCATION = 1"
| "uril_voice_call_clir_t_v01_code URIL_VOICE_CALL_CLIR_SUPPRESSION = 2"

definition uril_voice_call_clir_t_v01_all :: "uril_voice_call_clir_t_v01 list" where
  "uril_voice_call_clir_t_v01_all =
     [URIL_VOICE_CALL_CLIR_DEFAULT,
      URIL_VOICE_CALL_CLIR_INVOCATION,
      URIL_VOICE_CALL_CLIR_SUPPRESSION]"

interpretation voice_call_clir: c_enum uril_voice_call_clir_t_v01_code uril_voice_call_clir_t_v01_all
proof (unfold_locales, goal_cases)
  case (1 e)
  then show ?case by (cases e) (simp_all add: uril_voice_call_clir_t_v01_all_def)
next
  case 2
  show ?case by code_simp
qed

section \<open>Message identifiers\<close>

definition URIL_NW_SET_PREF_REQ_V01 :: u32 where
  "URIL_NW_SET_PREF_REQ_V01 = 0x0500"

definition URIL_NW_SET_PREF_RESP_V01 :: u32 where
  "URIL_NW_SET_PREF_RESP_V01 = 0x0500"

definition URIL_NW_GET_PREF_REQ_V01 :: u32 where
  "URIL_NW_GET_PREF_REQ_V01 = 0x0501"

definition URIL_NW_GET_PREF_RESP_V01 :: u32 where
  "URIL_NW_GET_PREF_RESP_V01 = 0x0501"

definition URIL_NW_GET_REGISTRATION_STATUS_REQ_V01 :: u32 where
  "URIL_NW_GET_REGISTRATION_STATUS_REQ_V01 = 0x0502"

definition URIL_NW_GET_REGISTRATION_STATUS_RESP_V01 :: u32 where
  "URIL_NW_GET_REGISTRATION_STATUS_RESP_V01 = 0x0502"

definition URIL_NW_SCAN_REQ_V01 :: u32 where
  "URIL_NW_SCAN_REQ_V01 = 0x0503"

definition URIL_NW_SCAN_RESP_V01 :: u32 where
  "URIL_NW_SCAN_RESP_V01 = 0x0503"

definition URIL_NW_SET_SCREEN_REQ_V01 :: u32 where
  "URIL_NW_SET_SCREEN_REQ_V01 = 0x0504"

definition URIL_NW_SET_SCREEN_RESP_V01 :: u32 where
  "URIL_NW_SET_SCREEN_RESP_V01 = 0x0504"

definition URIL_NW_SELECTION_REQ_V01 :: u32 where
  "URIL_NW_SELECTION_REQ_V01 = 0x0505"

definition URIL_NW_SELECTION_RESP_V01 :: u32 where
  "URIL_NW_SELECTION_RESP_V01 = 0x0505"

definition URIL_NW_GET_SIGNAL_STRENGTH_REQ_V01 :: u32 where
  "URIL_NW_GET_SIGNAL_STRENGTH_REQ_V01 = 0x0506"

definition URIL_NW_GET_SIGNAL_STRENGTH_RESP_V01 :: u32 where
  "URIL_NW_GET_SIGNAL_STRENGTH_RESP_V01 = 0x0506"

definition URIL_NW_GET_CELL_ACCESS_STATE_REQ_V01 :: u32 where
  "URIL_NW_GET_CELL_ACCESS_STATE_REQ_V01 = 0x0507"

definition URIL_NW_GET_CELL_ACCESS_STATE_RESP_V01 :: u32 where
  "URIL_NW_GET_CELL_ACCESS_STATE_RESP_V01 = 0x0507"

definition URIL_NW_REGISTRATION_EVENT_IND_V01 :: u32 where
  "URIL_NW_REGISTRATION_EVENT_IND_V01 = 0x0520"

definition URIL_NW_SIGNAL_STRENGTH_EVENT_IND_V01 :: u32 where
  "URIL_NW_SIGNAL_STRENGTH_EVENT_IND_V01 = 0x0521"

definition URIL_NW_CELL_ACCESS_STATE_CHANGE_EVENT_IND_V01 :: u32 where
  "URIL_NW_CELL_ACCESS_STATE_CHANGE_EVENT_IND_V01 = 0x0522"

definition URIL_RADIO_GET_RADIO_MODE_REQ_V01 :: u32 where
  "URIL_RADIO_GET_RADIO_MODE_REQ_V01 = 0x0101"

definition URIL_RADIO_GET_RADIO_MODE_RESP_V01 :: u32 where
  "URIL_RADIO_GET_RADIO_MODE_RESP_V01 = 0x0101"

definition URIL_RADIO_SET_RADIO_MODE_REQ_V01 :: u32 where
  "URIL_RADIO_SET_RADIO_MODE_REQ_V01 = 0x0102"

definition URIL_RADIO_SET_RADIO_MODE_RESP_V01 :: u32 where
  "URIL_RADIO_SET_RADIO_MODE_RESP_V01 = 0x0102"

definition URIL_RADIO_MODE_CHANGED_EVENT_IND_V01 :: u32 where
  "URIL_RADIO_MODE_CHANGED_EVENT_IND_V01 = 0x0120"

definition URIL_DATA_SET_DATA_PROFILES_REQ_V01 :: u32 where
  "URIL_DATA_SET_DATA_PROFILES_REQ_V01 = 0x0600"

definition URIL_DATA_SET_DATA_PROFILES_RESP_V01 :: u32 where
  "URIL_DATA_SET_DATA_PROFILES_RESP_V01 = 0x0600"

definition URIL_DATA_SETUP_DATA_CALL_REQ_V01 :: u32 where
  "URIL_DATA_SETUP_DATA_CALL_REQ_V01 = 0x0601"

definition URIL_DATA_SETUP_DATA_CALL_RESP_V01 :: u32 where
  "URIL_DATA_SETUP_DATA_CALL_RESP_V01 = 0x0601"

definition URIL_DATA_DEACTIVATE_DATA_CALL_REQ_V01 :: u32 where
  "URIL_DATA_DEACTIVATE_DATA_CALL_REQ_V01 = 0x0602"

definition URIL_DATA_DEACTIVATE_DATA_CALL_RESP_V01 :: u32 where
  "URIL_DATA_DEACTIVATE_DATA_CALL_RESP_V01 = 0x0602"

definition URIL_DATA_GET_DATA_CALL_LIST_REQ_V01 :: u32 where
  "URIL_DATA_GET_DATA_CALL_LIST_REQ_V01 = 0x0603"

definition URIL_DATA_GET_DATA_CALL_LIST_RESP_V01 :: u32 where
  "URIL_DATA_GET_DATA_CALL_LIST_RESP_V01 = 0x0603"

definition URIL_DATA_SET_INITIAL_ATTACH_PARAMS_REQ_V01 :: u32 where
  "URIL_DATA_SET_INITIAL_ATTACH_PARAMS_REQ_V01 = 0x0604"

definition URIL_DATA_SET_INITIAL_ATTACH_PARAMS_RESP_V01 :: u32 where
  "URIL_DATA_SET_INITIAL_ATTACH_PARAMS_RESP_V01 = 0x0604"

definition URIL_DATA_CALL_LIST_CHANGED_EVENT_IND_V01 :: u32 where
  "URIL_DATA_CALL_LIST_CHANGED_EVENT_IND_V01 = 0x0620"

definition URIL_VOICE_CALL_START_REQ_V01 :: u32 where
  "URIL_VOICE_CALL_START_REQ_V01 = 0x0400"

definition URIL_VOICE_CALL_START_RESP_V01 :: u32 where
  "URIL_VOICE_CALL_START_RESP_V01 = 0x0400"

definition URIL_VOICE_GET_CALL_LIST_REQ_V01 :: u32 where
  "URIL_VOICE_GET_CALL_LIST_REQ_V01 = 0x0401"

definition URIL_VOICE_GET_CALL_LIST_RESP_V01 :: u32 where
  "URIL_VOICE_GET_CALL_LIST_RESP_V01 = 0x0401"

definition URIL_VOICE_CALL_STOP_REQ_V01 :: u32 where
  "URIL_VOICE_CALL_STOP_REQ_V01 = 0x0402"

definition URIL_VOICE_CALL_STOP_RESP_V01 :: u32 where
  "URIL_VOICE_CALL_STOP_RESP_V01 = 0x0402"

definition URIL_VOICE_CALL_ANSWER_REQ_V01 :: u32 where
  "URIL_VOICE_CALL_ANSWER_REQ_V01 = 0x0403"

definition URIL_VOICE_CALL_ANSWER_RESP_V01 :: u32 where
  "URIL_VOICE_CALL_ANSWER_RESP_V01 = 0x0403"

definition URIL_VOICE_CALL_SET_AUTO_ANSWER_REQ_V01 :: u32 where
  "URIL_VOICE_CALL_SET_AUTO_ANSWER_REQ_V01 = 0x0404"

definition URIL_VOICE_CALL_SET_AUTO_ANSWER_RESP_V01 :: u32 where
  "URIL_VOICE_CALL_SET_AUTO_ANSWER_RESP_V01 = 0x0404"

definition URIL_VOICE_CALL_LIST_CHANGED_EVENT_IND_V01 :: u32 where
  "URIL_VOICE_CALL_LIST_CHANGED_EVENT_IND_V01 = 0x0420"

definition URIL_VOICE_CALL_INCOMING_EVENT_IND_V01 :: u32 where
  "URIL_VOICE_CALL_INCOMING_EVENT_IND_V01 = 0x0421"

lemmas [code_simps] =
  URIL_NW_SET_PREF_REQ_V01_def
  URIL_NW_SET_PREF_RESP_V01_def
  URIL_NW_GET_PREF_REQ_V01_def
  URIL_NW_GET_PREF_RESP_V01_def
  URIL_NW_GET_REGISTRATION_STATUS_REQ_V01_def
  URIL_NW_GET_REGISTRATION_STATUS_RESP_V01_def
  URIL_NW_SCAN_REQ_V01_def
  URIL_NW_SCAN_RESP_V01_def
  URIL_NW_SET_SCREEN_REQ_V01_def
  URIL_NW_SET_SCREEN_RESP_V01_def
  URIL_NW_SELECTION_REQ_V01_def
  URIL_NW_SELECTION_RESP_V01_def
  URIL_NW_GET_SIGNAL_STRENGTH_REQ_V01_def
  URIL_NW_GET_SIGNAL_STRENGTH_RESP_V01_def
  URIL_NW_GET_CELL_ACCESS_STATE_REQ_V01_def
  URIL_NW_GET_CELL_ACCESS_STATE_RESP_V01_def
  URIL_NW_REGISTRATION_EVENT_IND_V01_def
  URIL_NW_SIGNAL_STRENGTH_EVENT_IND_V01_def
  URIL_NW_CELL_ACCESS_STATE_CHANGE_EVENT_IND_V01_def
  URIL_RADIO_GET_RADIO_MODE_REQ_V01_def
  URIL_RADIO_GET_RADIO_MODE_RESP_V01_def
  URIL_RADIO_SET_RADIO_MODE_REQ_V01_def
  URIL_RADIO_SET_RADIO_MODE_RESP_V01_def
  URIL_RADIO_MODE_CHANGED_EVENT_IND_V01_def
  URIL_DATA_SET_DATA_PROFILES_REQ_V01_def
  URIL_DATA_SET_DATA_PROFILES_RESP_V01_def
  URIL_DATA_SETUP_DATA_CALL_REQ_V01_def
  URIL_DATA_SETUP_DATA_CALL_RESP_V01_def
  URIL_DATA_DEACTIVATE_DATA_CALL_REQ_V01_def
  URIL_DATA_DEACTIVATE_DATA_CALL_RESP_V01_def
  URIL_DATA_GET_DATA_CALL_LIST_REQ_V01_def
  URIL_DATA_GET_DATA_CALL_LIST_RESP_V01_def
  URIL_DATA_SET_INITIAL_ATTACH_PARAMS_REQ_V01_def
  URIL_DATA_SET_INITIAL_ATTACH_PARAMS_RESP_V01_def
  URIL_DATA_CALL_LIST_CHANGED_EVENT_IND_V01_def
  URIL_VOICE_CALL_START_REQ_V01_def
  URIL_VOICE_CALL_START_RESP_V01_def
  URIL_VOICE_GET_CALL_LIST_REQ_V01_def
  URIL_VOICE_GET_CALL_LIST_RESP_V01_def
  URIL_VOICE_CALL_STOP_REQ_V01_def
  URIL_VOICE_CALL_STOP_RESP_V01_def
  URIL_VOICE_CALL_ANSWER_REQ_V01_def
  URIL_VOICE_CALL_ANSWER_RESP_V01_def
  URIL_VOICE_CALL_SET_AUTO_ANSWER_REQ_V01_def
  URIL_VOICE_CALL_SET_AUTO_ANSWER_RESP_V01_def
  URIL_VOICE_CALL_LIST_CHANGED_EVENT_IND_V01_def
  URIL_VOICE_CALL_INCOMING_EVENT_IND_V01_def

end
