(* ===== verification/Uril_Messages.thy ===== *)
theory Uril_Messages
  imports Uril_Protocol Uril_Enums
begin

text \<open>
  The bodies of the messages as values.  Responses are records with the fields of the packed
  structures of \<open>inc/*.h\<close>: an enumeration field holds its four byte value, a \<open>char\<close> array the
  string in it.  \<open>enc_...\<close> writes such a record in the order of the structure; the lemmas
  \<open>length_enc_...\<close> tie the records to the layouts of \<open>Uril_Layout\<close>.

  Requests are read in place: the service casts the payload of a received message to the
  request structure, so the readers below take the payload bytes and a path into the layout.
\<close>

section \<open>Responses\<close>

record uril_response =
  rsp_result :: u32
  rsp_error :: u32

record uril_nw_operator_name =
  op_long_eons :: string
  op_short_eons :: string
  op_mcc :: string
  op_mnc :: string

record uril_nw_scan_entry =
  se_operator_name :: uril_nw_operator_name
  se_network_status :: u32
  se_rat :: u32

record uril_nw_registration_info =
  ri_tech_domain :: u32
  ri_rat :: u32
  ri_roaming :: u32
  ri_denied :: u8
  ri_deny_reason :: u32
  ri_registration_state :: u32

record uril_cell_identity_gsm =
  gsm_mcc :: string
  gsm_mnc :: string
  gsm_lac :: u16
  gsm_cid :: u32

record uril_cell_identity_lte =
  lte_mcc :: string
  lte_mnc :: string
  lte_ci :: u32
  lte_pci :: u16
  lte_tac :: u16

record uril_cell_identity_wcdma =
  wcdma_mcc :: string
  wcdma_mnc :: string
  wcdma_lac :: u16
  wcdma_cid :: u32
  wcdma_psc :: u16

record uril_cell_identity_tdscdma =
  tds_mcc :: string
  tds_mnc :: string
  tds_lac :: u16
  tds_cid :: u32
  tds_cpid :: u8

record uril_nw_get_pref_resp =
  gp_response :: uril_response
  gp_preferred_nw_mode_follows :: u8
  gp_preferred_nw_mode :: u32

record uril_nw_registration_status_resp =
  rs_response :: uril_response
  rs_gsm_follows :: u8
  rs_gsm :: uril_cell_identity_gsm
  rs_lte_follows :: u8
  rs_lte :: uril_cell_identity_lte
  rs_wcdma_follows :: u8
  rs_wcdma :: uril_cell_identity_wcdma
  rs_tdscdma_follows :: u8
  rs_tdscdma :: uril_cell_identity_tdscdma
  rs_voice_follows :: u8
  rs_voice :: uril_nw_registration_info
  rs_data_follows :: u8
  rs_data :: uril_nw_registration_info

record uril_nw_scan_resp =
  sc_response :: uril_response
  sc_entries_follows :: u8
  sc_entries_len :: u32
  sc_entries :: "uril_nw_scan_entry list"

record uril_nw_signal_strength_resp =
  sg_response :: uril_response
  sg_gsm_follows :: u8
  sg_gsm_rssi :: u8
  sg_wcdma_follows :: u8
  sg_wcdma_rssi :: u8
  sg_wcdma_ecio :: u16
  sg_tdscdma_follows :: u8
  sg_tdscdma_rssi :: u8
  sg_tdscdma_rscp :: u8
  sg_tdscdma_ecio :: u16
  sg_tdscdma_sinr :: u8
  sg_lte_follows :: u8
  sg_lte_rssi :: u8
  sg_lte_rsrq :: u8
  sg_lte_rsrp :: u8
  sg_lte_snr :: u8

record uril_radio_mode_resp =
  rm_response :: uril_response
  rm_radio_mode_follows :: u8
  rm_radio_mode :: u32

record uril_data_addr =
  da_addr :: string
  da_prefix_len :: u32

record uril_data_call_info =
  ci_failure_cause :: u32
  ci_suggested_retry_time :: u16
  ci_cid :: u8
  ci_phy_link_state :: u32
  ci_pdp_type :: u32
  ci_interface_name :: string
  ci_pdp_addrs_len :: u32
  ci_pdp_addrs :: "uril_data_addr list"
  ci_gtwy_addr :: uril_data_addr
  ci_dnsp_addr :: uril_data_addr
  ci_dnss_addr :: uril_data_addr
  ci_pcscf_addr :: uril_data_addr
  ci_mtu :: u16

record uril_data_setup_call_resp =
  sd_response :: uril_response
  sd_data_call :: uril_data_call_info

record uril_data_call_list_resp =
  cl_response :: uril_response
  cl_data_calls_len :: u8
  cl_data_calls :: "uril_data_call_info list"

subsection \<open>The zeroed structures\<close>

definition zero_response :: uril_response where
  "zero_response = \<lparr>rsp_result = 0, rsp_error = 0\<rparr>"

definition zero_registration :: uril_nw_registration_info where
  "zero_registration =
     \<lparr>ri_tech_domain = 0, ri_rat = 0, ri_roaming = 0, ri_denied = 0, ri_deny_reason = 0,
      ri_registration_state = 0\<rparr>"

definition zero_reg_status :: uril_nw_registration_status_resp where
  "zero_reg_status =
     \<lparr>rs_response = zero_response,
      rs_gsm_follows = 0,
      rs_gsm = \<lparr>gsm_mcc = '''', gsm_mnc = '''', gsm_lac = 0, gsm_cid = 0\<rparr>,
      rs_lte_follows = 0,
      rs_lte = \<lparr>lte_mcc = '''', lte_mnc = '''', lte_ci = 0, lte_pci = 0, lte_tac = 0\<rparr>,
      rs_wcdma_follows = 0,
      rs_wcdma = \<lparr>wcdma_mcc = '''', wcdma_mnc = '''', wcdma_lac = 0, wcdma_cid = 0, wcdma_psc = 0\<rparr>,
      rs_tdscdma_follows = 0,
      rs_tdscdma = \<lparr>tds_mcc = '''', tds_mnc = '''', tds_lac = 0, tds_cid = 0, tds_cpid = 0\<rparr>,
      rs_voice_follows = 0,
      rs_voice = zero_registration,
      rs_data_follows = 0,
      rs_data = zero_registration\<rparr>"

definition zero_operator_name :: uril_nw_operator_name where
  "zero_operator_name = \<lparr>op_long_eons = '''', op_short_eons = '''', op_mcc = '''', op_mnc = ''''\<rparr>"

definition zero_scan_entry :: uril_nw_scan_entry where
  "zero_scan_entry = \<lparr>se_operator_name = zero_operator_name, se_network_status = 0, se_rat = 0\<rparr>"

definition zero_signal_resp :: uril_nw_signal_strength_resp where
  "zero_signal_resp =
     \<lparr>sg_response = zero_response, sg_gsm_follows = 0, sg_gsm_rssi = 0,
      sg_wcdma_follows = 0, sg_wcdma_rssi = 0, sg_wcdma_ecio = 0,
      sg_tdscdma_follows = 0, sg_tdscdma_rssi = 0, sg_tdscdma_rscp = 0, sg_tdscdma_ecio = 0,
      sg_tdscdma_sinr = 0,
      sg_lte_follows = 0, sg_lte_rssi = 0, sg_lte_rsrq = 0, sg_lte_rsrp = 0, sg_lte_snr = 0\<rparr>"

definition zero_data_addr :: uril_data_addr where
  "zero_data_addr = \<lparr>da_addr = '''', da_prefix_len = 0\<rparr>"

definition zero_scan_resp :: uril_nw_scan_resp where
  "zero_scan_resp =
     \<lparr>sc_response = zero_response, sc_entries_follows = 0, sc_entries_len = 0,
      sc_entries = replicate URIL_NW_SCAN_MAX_ENTRY_COUNT_V01 zero_scan_entry\<rparr>"

definition zero_data_call :: uril_data_call_info where
  "zero_data_call =
     \<lparr>ci_failure_cause = 0, ci_suggested_retry_time = 0, ci_cid = 0, ci_phy_link_state = 0,
      ci_pdp_type = 0, ci_interface_name = '''', ci_pdp_addrs_len = 0,
      ci_pdp_addrs = replicate URIL_DATA_MAX_ADDR_COUNT_V01 zero_data_addr,
      ci_gtwy_addr = zero_data_addr, ci_dnsp_addr = zero_data_addr,
      ci_dnss_addr = zero_data_addr, ci_pcscf_addr = zero_data_addr, ci_mtu = 0\<rparr>"

definition zero_call_list :: uril_data_call_list_resp where
  "zero_call_list =
     \<lparr>cl_response = zero_response, cl_data_calls_len = 0,
      cl_data_calls = replicate URIL_DATA_MAX_CALLS_COUNT_V01 zero_data_call\<rparr>"

section \<open>Response bytes\<close>

text \<open>A string in a \<open>char\<close> array of \<open>n\<close> bytes, the rest of the array zero.\<close>

definition enc_str :: "nat \<Rightarrow> string \<Rightarrow> u8 list" where
  "enc_str n s = take n (map of_char s @ replicate n 0)"

definition enc_response :: "uril_response \<Rightarrow> u8 list" where
  "enc_response r = le32 (rsp_result r) @ le32 (rsp_error r)"

definition enc_get_pref :: "uril_nw_get_pref_resp \<Rightarrow> u8 list" where
  "enc_get_pref r =
     enc_response (gp_response r) @ [gp_preferred_nw_mode_follows r] @ le32 (gp_preferred_nw_mode r)"

definition enc_registration :: "uril_nw_registration_info \<Rightarrow> u8 list" where
  "enc_registration r =
     le32 (ri_tech_domain r) @ le32 (ri_rat r) @ le32 (ri_roaming r) @ [ri_denied r]
     @ le32 (ri_deny_reason r) @ le32 (ri_registration_state r)"

definition enc_gsm :: "uril_cell_identity_gsm \<Rightarrow> u8 list" where
  "enc_gsm c = enc_str 4 (gsm_mcc c) @ enc_str 4 (gsm_mnc c) @ le16 (gsm_lac c) @ le32 (gsm_cid c)"

definition enc_lte :: "uril_cell_identity_lte \<Rightarrow> u8 list" where
  "enc_lte c =
     enc_str 4 (lte_mcc c) @ enc_str 4 (lte_mnc c) @ le32 (lte_ci c) @ le16 (lte_pci c)
     @ le16 (lte_tac c)"

definition enc_wcdma :: "uril_cell_identity_wcdma \<Rightarrow> u8 list" where
  "enc_wcdma c =
     enc_str 4 (wcdma_mcc c) @ enc_str 4 (wcdma_mnc c) @ le16 (wcdma_lac c) @ le32 (wcdma_cid c)
     @ le16 (wcdma_psc c)"

definition enc_tdscdma :: "uril_cell_identity_tdscdma \<Rightarrow> u8 list" where
  "enc_tdscdma c =
     enc_str 4 (tds_mcc c) @ enc_str 4 (tds_mnc c) @ le16 (tds_lac c) @ le32 (tds_cid c)
     @ [tds_cpid c]"

definition enc_reg_status :: "uril_nw_registration_status_resp \<Rightarrow> u8 list" where
  "enc_reg_status r =
     enc_response (rs_response r)
     @ [rs_gsm_follows r] @ enc_gsm (rs_gsm r)
     @ [rs_lte_follows r] @ enc_lte (rs_lte r)
     @ [rs_wcdma_follows r] @ enc_wcdma (rs_wcdma r)
     @ [rs_tdscdma_follows r] @ enc_tdscdma (rs_tdscdma r)
     @ [rs_voice_follows r] @ enc_registration (rs_voice r)
     @ [rs_data_follows r] @ enc_registration (rs_data r)"

definition enc_signal :: "uril_nw_signal_strength_resp \<Rightarrow> u8 list" where
  "enc_signal r =
     enc_response (sg_response r)
     @ [sg_gsm_follows r, sg_gsm_rssi r]
     @ [sg_wcdma_follows r, sg_wcdma_rssi r] @ le16 (sg_wcdma_ecio r)
     @ [sg_tdscdma_follows r, sg_tdscdma_rssi r, sg_tdscdma_rscp r] @ le16 (sg_tdscdma_ecio r)
     @ [sg_tdscdma_sinr r]
     @ [sg_lte_follows r, sg_lte_rssi r, sg_lte_rsrq r, sg_lte_rsrp r, sg_lte_snr r]"

definition enc_radio_mode :: "uril_radio_mode_resp \<Rightarrow> u8 list" where
  "enc_radio_mode r =
     enc_response (rm_response r) @ [rm_radio_mode_follows r] @ le32 (rm_radio_mode r)"

definition enc_operator_name :: "uril_nw_operator_name \<Rightarrow> u8 list" where
  "enc_operator_name n =
     enc_str (512 + 1) (op_long_eons n) @ enc_str (512 + 1) (op_short_eons n)
     @ enc_str 4 (op_mcc n) @ enc_str 4 (op_mnc n)"

definition enc_scan_entry :: "uril_nw_scan_entry \<Rightarrow> u8 list" where
  "enc_scan_entry e =
     enc_operator_name (se_operator_name e) @ le32 (se_network_status e) @ le32 (se_rat e)"

definition enc_scan :: "uril_nw_scan_resp \<Rightarrow> u8 list" where
  "enc_scan r =
     enc_response (sc_response r) @ [sc_entries_follows r] @ le32 (sc_entries_len r)
     @ concat (map enc_scan_entry (sc_entries r))"

definition enc_data_addr :: "uril_data_addr \<Rightarrow> u8 list" where
  "enc_data_addr a = enc_str URIL_DATA_MAX_ADDR_LEN_V01 (da_addr a) @ le32 (da_prefix_len a)"

definition enc_data_call :: "uril_data_call_info \<Rightarrow> u8 list" where
  "enc_data_call c =
     le32 (ci_failure_cause c) @ le16 (ci_suggested_retry_time c) @ [ci_cid c]
     @ le32 (ci_phy_link_state c) @ le32 (ci_pdp_type c)
     @ enc_str URIL_DATA_MAX_DEVICE_NAME_LEN_V01 (ci_interface_name c)
     @ le32 (ci_pdp_addrs_len c) @ concat (map enc_data_addr (ci_pdp_addrs c))
     @ enc_data_addr (ci_gtwy_addr c) @ enc_data_addr (ci_dnsp_addr c)
     @ enc_data_addr (ci_dnss_addr c) @ enc_data_addr (ci_pcscf_addr c) @ le16 (ci_mtu c)"

definition enc_setup_call :: "uril_data_setup_call_resp \<Rightarrow> u8 list" where
  "enc_setup_call r = enc_response (sd_response r) @ enc_data_call (sd_data_call r)"

definition enc_call_list :: "uril_data_call_list_resp \<Rightarrow> u8 list" where
  "enc_call_list r =
     enc_response (cl_response r) @ [cl_data_calls_len r]
     @ concat (map enc_data_call (cl_data_calls r))"

named_theorems enc_lengths \<open>sizes of the encoded structures\<close>

lemma length_enc_str [enc_lengths]: "length (enc_str n s) = n"
  by (simp add: enc_str_def)

lemma length_enc_response [enc_lengths]: "length (enc_response r) = sizeof uril_response_t_v01"
  by (simp add: enc_response_def layout_simps)

lemma length_enc_get_pref:
  "length (enc_get_pref r) = sizeof uril_nw_get_pref_resp_msg_v01"
  by (simp add: enc_get_pref_def enc_lengths layout_simps)

lemma length_enc_registration [enc_lengths]:
  "length (enc_registration r) = sizeof uril_nw_registration_info_t_v01"
  by (simp add: enc_registration_def layout_simps)

lemma length_enc_gsm [enc_lengths]: "length (enc_gsm c) = sizeof uril_cell_identity_gsm_t_v01"
  by (simp add: enc_gsm_def enc_lengths layout_simps)

lemma length_enc_lte [enc_lengths]: "length (enc_lte c) = sizeof uril_cell_identity_lte_t_v01"
  by (simp add: enc_lte_def enc_lengths layout_simps)

lemma length_enc_wcdma [enc_lengths]:
  "length (enc_wcdma c) = sizeof uril_cell_identity_wcdma_t_v01"
  by (simp add: enc_wcdma_def enc_lengths layout_simps)

lemma length_enc_tdscdma [enc_lengths]:
  "length (enc_tdscdma c) = sizeof uril_cell_identity_tdscdma_t_v01"
  by (simp add: enc_tdscdma_def enc_lengths layout_simps)

lemma length_enc_reg_status:
  "length (enc_reg_status r) = sizeof uril_nw_get_registration_status_resp_msg_v01"
  by (simp add: enc_reg_status_def enc_lengths layout_simps)

lemma length_enc_signal:
  "length (enc_signal r) = sizeof uril_nw_get_signal_strength_resp_msg_v01"
  by (simp add: enc_signal_def enc_lengths layout_simps)

lemma length_enc_radio_mode:
  "length (enc_radio_mode r) = sizeof uril_radio_get_radio_mode_resp_msg_v01"
  by (simp add: enc_radio_mode_def enc_lengths layout_simps)

lemma length_enc_operator_name [enc_lengths]:
  "length (enc_operator_name n) = sizeof uril_nw_operator_name_t_v01"
  by (simp add: enc_operator_name_def enc_lengths layout_simps)

lemma length_enc_scan_entry [enc_lengths]:
  "length (enc_scan_entry e) = sizeof uril_nw_scan_entry_t_v01"
  by (simp add: enc_scan_entry_def enc_lengths layout_simps)

lemma length_enc_data_addr [enc_lengths]:
  "length (enc_data_addr a) = sizeof uril_data_addr_t_v01"
  by (simp add: enc_data_addr_def enc_lengths layout_simps)

lemma length_concat_map_const:
  "(\<And>x. x \<in> set xs \<Longrightarrow> length (f x) = n) \<Longrightarrow> length (concat (map f xs)) = length xs * n"
  by (induction xs) auto

lemma length_enc_scan:
  "length (sc_entries r) = URIL_NW_SCAN_MAX_ENTRY_COUNT_V01
   \<Longrightarrow> length (enc_scan r) = sizeof uril_nw_scan_resp_msg_v01"
  by (simp add: enc_scan_def length_concat_map_const [where n = "sizeof uril_nw_scan_entry_t_v01"]
      enc_lengths) (simp add: layout_simps)

lemma length_enc_data_call:
  "length (ci_pdp_addrs c) = URIL_DATA_MAX_ADDR_COUNT_V01
   \<Longrightarrow> length (enc_data_call c) = sizeof uril_data_call_info_t_v01"
  by (simp add: enc_data_call_def length_concat_map_const [where n = "sizeof uril_data_addr_t_v01"]
      enc_lengths) (simp add: layout_simps)

section \<open>Reading a request in place\<close>

text \<open>
  \<open>rd8\<close> and \<open>rd32\<close> read a field of the request at its offset in the payload.  \<open>rd_str\<close>
  reads a C string from there: it runs to the first NUL byte wherever that is, and off the
  payload when the sender left none.
\<close>

definition field_at :: "ctype \<Rightarrow> step list \<Rightarrow> nat" where
  "field_at t p = (case locate t p of None \<Rightarrow> 0 | Some (k, u) \<Rightarrow> k)"

definition rd8 :: "ctype \<Rightarrow> step list \<Rightarrow> u8 list \<Rightarrow> u8" where
  "rd8 t p bs = bs ! field_at t p"

definition rd32 :: "ctype \<Rightarrow> step list \<Rightarrow> u8 list \<Rightarrow> u32" where
  "rd32 t p bs = from_le32 (bytes_at (field_at t p) 4 bs)"

definition c_string :: "u8 list \<Rightarrow> string outcome" where
  "c_string bs =
     (if 0 \<in> set bs then Ok (map (\<lambda>b. char_of (unat b)) (takeWhile (\<lambda>b. b \<noteq> 0) bs)) else Fault Out_of_bounds_read)"

definition rd_str :: "ctype \<Rightarrow> step list \<Rightarrow> u8 list \<Rightarrow> string outcome" where
  "rd_str t p bs = c_string (drop (field_at t p) bs)"

lemma unat_of_char: "unat (of_char c :: u8) = of_char c"
proof -
  have "unat (of_nat (of_char c) :: u8) = (of_char c :: nat)"
    by (simp only: unat_of_nat) (simp add: take_bit_eq_mod)
  then show ?thesis by (simp only: of_nat_of_char)
qed

lemma c_string_enc_str:
  assumes "length s < n" and "\<forall>c \<in> set s. c \<noteq> CHR 0x00"
  shows "c_string (enc_str n s @ rest) = Ok s"
proof -
  have nz: "\<forall>b \<in> set (map of_char s). b \<noteq> (0 :: u8)"
  proof
    fix b :: u8 assume "b \<in> set (map of_char s)"
    then obtain c where c: "c \<in> set s" and b: "b = of_char c" by auto
    have "(of_char c :: nat) \<noteq> 0"
      using assms(2) c of_char_eq_iff [where 'a = nat, of c "CHR 0x00"] by auto
    then show "b \<noteq> 0" using unat_of_char [of c] b by auto
  qed
  have enc: "enc_str n s = map of_char s @ 0 # replicate (n - length s - 1) 0"
  proof -
    have "enc_str n s = map of_char s @ replicate (n - length s) 0"
      using assms(1) by (simp add: enc_str_def)
    moreover have "n - length s = Suc (n - length s - 1)" using assms(1) by simp
    ultimately show ?thesis by (metis replicate_Suc)
  qed
  have tw: "takeWhile (\<lambda>b. b \<noteq> 0) (enc_str n s @ rest) = map of_char s"
    using nz unfolding enc by (subst append_assoc, subst takeWhile_append2) auto
  have "0 \<in> set (enc_str n s @ rest)" unfolding enc by simp
  with tw show ?thesis by (simp add: c_string_def comp_def unat_of_char)
qed

end
