(* ===== verification/Ril_Interface.thy ===== *)
theory Ril_Interface
  imports Uril_Prelude
begin

text \<open>
  The interface of the vendor RIL.  The header \<open>telephony/ril.h\<close> is not part of this
  repository, so nothing here gives a definition to it: the datatypes list the enumerators the
  adapter names, the records list the fields it reads, and everything numeric about the header
  (the values of the enumerators, the sizes of its structures, the view of a block of memory as
  a data call structure) is the record \<open>ril_h\<close>, an argument of every definition that uses
  it.

  \<open>ril_h_ok\<close> is what the sources themselves show of the header: the enumerators that label
  one \<open>switch\<close> have distinct values, or the adapter would not compile.

  Enumerations the adapter only switches on (\<open>RIL_Errno\<close>, the request and indication numbers,
  the radio state) have one more constructor for the values it does not name, the ones that
  take the \<open>default\<close> label.
\<close>

section \<open>Enumerations with a numeric representation\<close>

datatype RIL_PreferredNetworkType =
    PREF_NET_TYPE_GSM_WCDMA
  | PREF_NET_TYPE_GSM_ONLY
  | PREF_NET_TYPE_WCDMA
  | PREF_NET_TYPE_GSM_WCDMA_AUTO
  | PREF_NET_TYPE_CDMA_EVDO_AUTO
  | PREF_NET_TYPE_CDMA_ONLY
  | PREF_NET_TYPE_EVDO_ONLY
  | PREF_NET_TYPE_GSM_WCDMA_CDMA_EVDO_AUTO
  | PREF_NET_TYPE_LTE_CDMA_EVDO
  | PREF_NET_TYPE_LTE_GSM_WCDMA
  | PREF_NET_TYPE_LTE_CMDA_EVDO_GSM_WCDMA
  | PREF_NET_TYPE_LTE_ONLY
  | PREF_NET_TYPE_LTE_WCDMA

definition RIL_PreferredNetworkType_all :: "RIL_PreferredNetworkType list" where
  "RIL_PreferredNetworkType_all =
     [PREF_NET_TYPE_GSM_WCDMA,
      PREF_NET_TYPE_GSM_ONLY,
      PREF_NET_TYPE_WCDMA,
      PREF_NET_TYPE_GSM_WCDMA_AUTO,
      PREF_NET_TYPE_CDMA_EVDO_AUTO,
      PREF_NET_TYPE_CDMA_ONLY,
      PREF_NET_TYPE_EVDO_ONLY,
      PREF_NET_TYPE_GSM_WCDMA_CDMA_EVDO_AUTO,
      PREF_NET_TYPE_LTE_CDMA_EVDO,
      PREF_NET_TYPE_LTE_GSM_WCDMA,
      PREF_NET_TYPE_LTE_CMDA_EVDO_GSM_WCDMA,
      PREF_NET_TYPE_LTE_ONLY,
      PREF_NET_TYPE_LTE_WCDMA]"

datatype RIL_RadioTechnology =
    RADIO_TECH_UNKNOWN
  | RADIO_TECH_GPRS
  | RADIO_TECH_EDGE
  | RADIO_TECH_UMTS
  | RADIO_TECH_IS95A
  | RADIO_TECH_IS95B
  | RADIO_TECH_1xRTT
  | RADIO_TECH_EVDO_0
  | RADIO_TECH_EVDO_A
  | RADIO_TECH_HSDPA
  | RADIO_TECH_HSUPA
  | RADIO_TECH_HSPA
  | RADIO_TECH_EVDO_B
  | RADIO_TECH_EHRPD
  | RADIO_TECH_LTE
  | RADIO_TECH_HSPAP
  | RADIO_TECH_GSM
  | RADIO_TECH_TD_SCDMA
  | RADIO_TECH_IWLAN

definition RIL_RadioTechnology_all :: "RIL_RadioTechnology list" where
  "RIL_RadioTechnology_all =
     [RADIO_TECH_UNKNOWN,
      RADIO_TECH_GPRS,
      RADIO_TECH_EDGE,
      RADIO_TECH_UMTS,
      RADIO_TECH_IS95A,
      RADIO_TECH_IS95B,
      RADIO_TECH_1xRTT,
      RADIO_TECH_EVDO_0,
      RADIO_TECH_EVDO_A,
      RADIO_TECH_HSDPA,
      RADIO_TECH_HSUPA,
      RADIO_TECH_HSPA,
      RADIO_TECH_EVDO_B,
      RADIO_TECH_EHRPD,
      RADIO_TECH_LTE,
      RADIO_TECH_HSPAP,
      RADIO_TECH_GSM,
      RADIO_TECH_TD_SCDMA,
      RADIO_TECH_IWLAN]"

datatype RIL_DataCallFailCause =
    PDP_FAIL_NONE
  | PDP_FAIL_OPERATOR_BARRED
  | PDP_FAIL_INSUFFICIENT_RESOURCES
  | PDP_FAIL_MISSING_UKNOWN_APN
  | PDP_FAIL_UNKNOWN_PDP_ADDRESS_TYPE
  | PDP_FAIL_USER_AUTHENTICATION
  | PDP_FAIL_ACTIVATION_REJECT_GGSN
  | PDP_FAIL_ACTIVATION_REJECT_UNSPECIFIED
  | PDP_FAIL_SERVICE_OPTION_NOT_SUPPORTED
  | PDP_FAIL_SERVICE_OPTION_NOT_SUBSCRIBED
  | PDP_FAIL_SERVICE_OPTION_OUT_OF_ORDER
  | PDP_FAIL_NSAPI_IN_USE
  | PDP_FAIL_REGULAR_DEACTIVATION
  | PDP_FAIL_ONLY_IPV4_ALLOWED
  | PDP_FAIL_ONLY_IPV6_ALLOWED
  | PDP_FAIL_ONLY_SINGLE_BEARER_ALLOWED
  | PDP_FAIL_PROTOCOL_ERRORS
  | PDP_FAIL_VOICE_REGISTRATION_FAIL
  | PDP_FAIL_DATA_REGISTRATION_FAIL
  | PDP_FAIL_SIGNAL_LOST
  | PDP_FAIL_PREF_RADIO_TECH_CHANGED
  | PDP_FAIL_RADIO_POWER_OFF
  | PDP_FAIL_TETHERED_CALL_ACTIVE
  | PDP_FAIL_ERROR_UNSPECIFIED

definition RIL_DataCallFailCause_all :: "RIL_DataCallFailCause list" where
  "RIL_DataCallFailCause_all =
     [PDP_FAIL_NONE,
      PDP_FAIL_OPERATOR_BARRED,
      PDP_FAIL_INSUFFICIENT_RESOURCES,
      PDP_FAIL_MISSING_UKNOWN_APN,
      PDP_FAIL_UNKNOWN_PDP_ADDRESS_TYPE,
      PDP_FAIL_USER_AUTHENTICATION,
      PDP_FAIL_ACTIVATION_REJECT_GGSN,
      PDP_FAIL_ACTIVATION_REJECT_UNSPECIFIED,
      PDP_FAIL_SERVICE_OPTION_NOT_SUPPORTED,
      PDP_FAIL_SERVICE_OPTION_NOT_SUBSCRIBED,
      PDP_FAIL_SERVICE_OPTION_OUT_OF_ORDER,
      PDP_FAIL_NSAPI_IN_USE,
      PDP_FAIL_REGULAR_DEACTIVATION,
      PDP_FAIL_ONLY_IPV4_ALLOWED,
      PDP_FAIL_ONLY_IPV6_ALLOWED,
      PDP_FAIL_ONLY_SINGLE_BEARER_ALLOWED,
      PDP_FAIL_PROTOCOL_ERRORS,
      PDP_FAIL_VOICE_REGISTRATION_FAIL,
      PDP_FAIL_DATA_REGISTRATION_FAIL,
      PDP_FAIL_SIGNAL_LOST,
      PDP_FAIL_PREF_RADIO_TECH_CHANGED,
      PDP_FAIL_RADIO_POWER_OFF,
      PDP_FAIL_TETHERED_CALL_ACTIVE,
      PDP_FAIL_ERROR_UNSPECIFIED]"

section \<open>Enumerations that are only compared\<close>

datatype RIL_Errno =
    RIL_E_SUCCESS
  | RIL_E_RADIO_NOT_AVAILABLE
  | RIL_E_PASSWORD_INCORRECT
  | RIL_E_SIM_PIN2
  | RIL_E_SIM_PUK2
  | RIL_E_REQUEST_NOT_SUPPORTED
  | RIL_E_CANCELLED
  | RIL_E_OP_NOT_ALLOWED_DURING_VOICE_CALL
  | RIL_E_OP_NOT_ALLOWED_BEFORE_REG_TO_NW
  | RIL_E_SMS_SEND_FAIL_RETRY
  | RIL_E_SIM_ABSENT
  | RIL_E_SUBSCRIPTION_NOT_AVAILABLE
  | RIL_E_MODE_NOT_SUPPORTED
  | RIL_E_FDN_CHECK_FAILURE
  | RIL_E_ILLEGAL_SIM_OR_ME
  | RIL_E_MISSING_RESOURCE
  | RIL_E_NO_SUCH_ELEMENT
  | RIL_E_DIAL_MODIFIED_TO_USSD
  | RIL_E_DIAL_MODIFIED_TO_SS
  | RIL_E_DIAL_MODIFIED_TO_DIAL
  | RIL_E_USSD_MODIFIED_TO_DIAL
  | RIL_E_USSD_MODIFIED_TO_SS
  | RIL_E_USSD_MODIFIED_TO_USSD
  | RIL_E_SS_MODIFIED_TO_DIAL
  | RIL_E_SS_MODIFIED_TO_USSD
  | RIL_E_SUBSCRIPTION_NOT_SUPPORTED
  | RIL_E_SS_MODIFIED_TO_SS
  | RIL_E_other

datatype ril_request =
    RIL_REQUEST_SET_PREFERRED_NETWORK_TYPE
  | RIL_REQUEST_GET_PREFERRED_NETWORK_TYPE
  | RIL_REQUEST_VOICE_REGISTRATION_STATE
  | RIL_REQUEST_DATA_REGISTRATION_STATE
  | RIL_REQUEST_OPERATOR
  | RIL_REQUEST_QUERY_AVAILABLE_NETWORKS
  | RIL_REQUEST_SCREEN_STATE
  | RIL_REQUEST_SET_NETWORK_SELECTION_AUTOMATIC
  | RIL_REQUEST_SET_NETWORK_SELECTION_MANUAL
  | RIL_REQUEST_SIGNAL_STRENGTH
  | RIL_REQUEST_RADIO_POWER
  | RIL_REQUEST_SETUP_DATA_CALL
  | RIL_REQUEST_DEACTIVATE_DATA_CALL
  | RIL_REQUEST_DATA_CALL_LIST
  | RIL_REQUEST_SET_INITIAL_ATTACH_APN
  | RIL_REQUEST_other int

datatype ril_unsol =
    RIL_UNSOL_RESPONSE_RADIO_STATE_CHANGED
  | RIL_UNSOL_DATA_CALL_LIST_CHANGED
  | RIL_UNSOL_RESPONSE_VOICE_NETWORK_STATE_CHANGED
  | RIL_UNSOL_SIGNAL_STRENGTH
  | RIL_UNSOL_other int

datatype RIL_RadioState =
    RADIO_STATE_OFF
  | RADIO_STATE_UNAVAILABLE
  | RADIO_STATE_ON
  | RADIO_STATE_other int

section \<open>Structures\<close>

text \<open>The fields of \<open>RIL_Data_Call_Response_v11\<close> the adapter reads.\<close>

record RIL_Data_Call_Response =
  dc_status :: u32
  dc_suggestedRetryTime :: u32
  dc_cid :: u32
  dc_active :: u32
  dc_type :: "string option"
  dc_ifname :: "string option"
  dc_addresses :: "string option"
  dc_dnses :: "string option"
  dc_gateways :: "string option"
  dc_pcscf :: "string option"
  dc_mtu :: u32

text \<open>The fields of \<open>RIL_SignalStrength_v10\<close> the adapter reads.\<close>

record RIL_SignalStrength =
  gw_signalStrength :: u32
  gw_bitErrorRate :: u32
  lte_signalStrength :: u32
  lte_rsrp :: u32
  lte_rsrq :: u32
  lte_rssnr :: u32
  td_rscp :: u32

text \<open>
  The \<open>void* data\<close>, \<open>size_t data_len\<close> of a response: nothing, one \<open>int\<close>, an array of
  nullable strings (whose length is \<open>data_len / sizeof(char*)\<close>), a signal strength structure
  of \<open>data_len\<close> bytes, or raw bytes.
\<close>

datatype ril_data =
    Data_null
  | Data_int u32
  | Data_strings "string option list"
  | Data_signal RIL_SignalStrength nat
  | Data_bytes "u8 list"

section \<open>What the header defines\<close>

record ril_h =
  pref_code :: "RIL_PreferredNetworkType \<Rightarrow> u32"
  rat_code :: "RIL_RadioTechnology \<Rightarrow> u32"
  fail_code :: "RIL_DataCallFailCause \<Rightarrow> u32"
  sizeof_call_v6 :: nat
  sizeof_call_v9 :: nat
  sizeof_call_v11 :: nat
  sizeof_signal_v5 :: nat
  sizeof_signal_v6 :: nat
  sizeof_signal_v10 :: nat
  view_call :: "u8 list \<Rightarrow> RIL_Data_Call_Response"

definition ril_h_ok :: "ril_h \<Rightarrow> bool" where
  "ril_h_ok H \<longleftrightarrow>
     distinct (map (pref_code H) RIL_PreferredNetworkType_all)
   \<and> distinct (map (rat_code H) RIL_RadioTechnology_all)
   \<and> distinct (map (fail_code H) RIL_DataCallFailCause_all)"

lemma RIL_PreferredNetworkType_complete: "e \<in> set RIL_PreferredNetworkType_all"
  by (cases e) (simp_all add: RIL_PreferredNetworkType_all_def)

lemma RIL_RadioTechnology_complete: "e \<in> set RIL_RadioTechnology_all"
  by (cases e) (simp_all add: RIL_RadioTechnology_all_def)

lemma RIL_DataCallFailCause_complete: "e \<in> set RIL_DataCallFailCause_all"
  by (cases e) (simp_all add: RIL_DataCallFailCause_all_def)

lemma pref_enum: "ril_h_ok H \<Longrightarrow> c_enum (pref_code H) RIL_PreferredNetworkType_all"
  by unfold_locales (simp_all add: ril_h_ok_def RIL_PreferredNetworkType_complete)

lemma rat_enum: "ril_h_ok H \<Longrightarrow> c_enum (rat_code H) RIL_RadioTechnology_all"
  by unfold_locales (simp_all add: ril_h_ok_def RIL_RadioTechnology_complete)

lemma fail_enum: "ril_h_ok H \<Longrightarrow> c_enum (fail_code H) RIL_DataCallFailCause_all"
  by unfold_locales (simp_all add: ril_h_ok_def RIL_DataCallFailCause_complete)

text \<open>
  A header to evaluate examples with: every enumerator gets its position in its list.  It
  stands for no particular version of \<open>ril.h\<close>.
\<close>

fun position :: "'a list \<Rightarrow> 'a \<Rightarrow> nat" where
  "position [] x = 0"
| "position (y # ys) x = (if x = y then 0 else Suc (position ys x))"

definition sample_call :: RIL_Data_Call_Response where
  "sample_call =
     \<lparr>dc_status = 0, dc_suggestedRetryTime = - 1, dc_cid = 3, dc_active = 2,
      dc_type = Some ''IP'', dc_ifname = Some ''rmnet0'',
      dc_addresses = Some ''10.0.0.2/24'', dc_dnses = Some ''8.8.8.8 8.8.4.4'',
      dc_gateways = Some ''10.0.0.1'', dc_pcscf = None, dc_mtu = 1500\<rparr>"

definition sample_h :: ril_h where
  "sample_h =
     \<lparr>pref_code = (\<lambda>e. of_nat (position RIL_PreferredNetworkType_all e)),
      rat_code = (\<lambda>e. of_nat (position RIL_RadioTechnology_all e)),
      fail_code = (\<lambda>e. of_nat (position RIL_DataCallFailCause_all e)),
      sizeof_call_v6 = 36, sizeof_call_v9 = 40, sizeof_call_v11 = 44,
      sizeof_signal_v5 = 20, sizeof_signal_v6 = 40, sizeof_signal_v10 = 44,
      view_call = (\<lambda>bs. sample_call)\<rparr>"

lemma sample_h_ok: "ril_h_ok sample_h"
  by code_simp

end
