(* ===== verification/Ril_Convert.thy ===== *)
theory Ril_Convert
  imports Uril_Messages Ril_Interface
begin

text \<open>
  The conversions between the vendor RIL's values and the message bodies: the free functions at
  the head of \<open>service/src/modem_adapters/ril/AndroidRilAdapter.cpp\<close>, in its order.  A
  \<open>switch\<close> over an enumeration is a \<open>fun\<close> over the enumerators, applied to the enumerator
  the raw value stands for; a \<open>default: assert(0)\<close> is the \<open>Fault\<close> of a value that stands
  for none.  An output parameter is an argument (its old value) and part of the result.
\<close>

section \<open>Numbers\<close>

text \<open>
  \<open>rilStrToInt\<close> returns \<open>true\<close> and stores the number (\<open>Some\<close>), or returns \<open>false\<close> and
  leaves \<open>*value\<close> alone (\<open>None\<close>).  The \<open>unsigned long\<close> is narrowed to \<open>int\<close>.
\<close>

definition rilStrToInt :: "string option \<Rightarrow> u32 option" where
  "rilStrToInt rilStr =
     (case rilStr of
        None \<Rightarrow> None
      | Some s \<Rightarrow>
          if s = [] then None
          else let r = strtoul s
               in if ul_erange r \<or> ul_end r \<noteq> [] then None else Some (ucast (ul_value r)))"

lemma rilStrToInt_None [simp]: "rilStrToInt None = None"
  by (simp add: rilStrToInt_def)

lemma rilStrToInt_decimal:
  assumes "n < 2 ^ 32"
  shows "rilStrToInt (Some (decimal n)) = Some (of_nat n)"
proof -
  have "strtoul (decimal n) = \<lparr>ul_value = of_nat n, ul_end = [], ul_erange = False\<rparr>"
    using assms by (intro strtoul_decimal) simp
  then show ?thesis
    using assms
    by (simp add: rilStrToInt_def decimal_nonempty unsigned_of_nat take_bit_nat_eq_self)
qed

text \<open>The value an \<open>int\<close> initialised to -1 has after \<open>rilStrToInt\<close>.\<close>

definition int_or_minus_one :: "string option \<Rightarrow> u32" where
  "int_or_minus_one s = (case rilStrToInt s of None \<Rightarrow> - 1 | Some v \<Rightarrow> v)"

section \<open>Enumerations\<close>

fun nw_pref_to_ril :: "uril_nw_pref_type_t_v01 \<Rightarrow> RIL_PreferredNetworkType" where
  "nw_pref_to_ril URIL_NW_PREF_TYPE_GSM_WCDMA = PREF_NET_TYPE_GSM_WCDMA"
| "nw_pref_to_ril URIL_NW_PREF_TYPE_GSM_ONLY = PREF_NET_TYPE_GSM_ONLY"
| "nw_pref_to_ril URIL_NW_PREF_TYPE_WCDMA = PREF_NET_TYPE_WCDMA"
| "nw_pref_to_ril URIL_NW_PREF_TYPE_GSM_WCDMA_AUTO = PREF_NET_TYPE_GSM_WCDMA_AUTO"
| "nw_pref_to_ril URIL_NW_PREF_TYPE_CDMA_EVDO_AUTO = PREF_NET_TYPE_CDMA_EVDO_AUTO"
| "nw_pref_to_ril URIL_NW_PREF_TYPE_CDMA_ONLY = PREF_NET_TYPE_CDMA_ONLY"
| "nw_pref_to_ril URIL_NW_PREF_TYPE_EVDO_ONLY = PREF_NET_TYPE_EVDO_ONLY"
| "nw_pref_to_ril URIL_NW_PREF_TYPE_GSM_WCDMA_CDMA_EVDO_AUTO = PREF_NET_TYPE_GSM_WCDMA_CDMA_EVDO_AUTO"
| "nw_pref_to_ril URIL_NW_PREF_TYPE_LTE_CDMA_EVDO = PREF_NET_TYPE_LTE_CDMA_EVDO"
| "nw_pref_to_ril URIL_NW_PREF_TYPE_LTE_GSM_WCDMA = PREF_NET_TYPE_LTE_GSM_WCDMA"
| "nw_pref_to_ril URIL_NW_PREF_TYPE_LTE_CMDA_EVDO_GSM_WCDMA = PREF_NET_TYPE_LTE_CMDA_EVDO_GSM_WCDMA"
| "nw_pref_to_ril URIL_NW_PREF_TYPE_LTE_ONLY = PREF_NET_TYPE_LTE_ONLY"
| "nw_pref_to_ril URIL_NW_PREF_TYPE_LTE_WCDMA = PREF_NET_TYPE_LTE_WCDMA"

definition urilNwPrefToRilNwPref :: "u32 \<Rightarrow> RIL_PreferredNetworkType outcome" where
  "urilNwPrefToRilNwPref preferred_nw_mode =
     (case enum_of uril_nw_pref_type_t_v01_code uril_nw_pref_type_t_v01_all preferred_nw_mode of
        Some e \<Rightarrow> Ok (nw_pref_to_ril e)
      | None \<Rightarrow> Fault Assert_failed)"

fun nw_pref_of_ril :: "RIL_PreferredNetworkType \<Rightarrow> uril_nw_pref_type_t_v01" where
  "nw_pref_of_ril PREF_NET_TYPE_GSM_WCDMA = URIL_NW_PREF_TYPE_GSM_WCDMA"
| "nw_pref_of_ril PREF_NET_TYPE_GSM_ONLY = URIL_NW_PREF_TYPE_GSM_ONLY"
| "nw_pref_of_ril PREF_NET_TYPE_WCDMA = URIL_NW_PREF_TYPE_WCDMA"
| "nw_pref_of_ril PREF_NET_TYPE_GSM_WCDMA_AUTO = URIL_NW_PREF_TYPE_GSM_WCDMA_AUTO"
| "nw_pref_of_ril PREF_NET_TYPE_CDMA_EVDO_AUTO = URIL_NW_PREF_TYPE_CDMA_EVDO_AUTO"
| "nw_pref_of_ril PREF_NET_TYPE_CDMA_ONLY = URIL_NW_PREF_TYPE_CDMA_ONLY"
| "nw_pref_of_ril PREF_NET_TYPE_EVDO_ONLY = URIL_NW_PREF_TYPE_EVDO_ONLY"
| "nw_pref_of_ril PREF_NET_TYPE_GSM_WCDMA_CDMA_EVDO_AUTO = URIL_NW_PREF_TYPE_GSM_WCDMA_CDMA_EVDO_AUTO"
| "nw_pref_of_ril PREF_NET_TYPE_LTE_CDMA_EVDO = URIL_NW_PREF_TYPE_LTE_CDMA_EVDO"
| "nw_pref_of_ril PREF_NET_TYPE_LTE_GSM_WCDMA = URIL_NW_PREF_TYPE_LTE_GSM_WCDMA"
| "nw_pref_of_ril PREF_NET_TYPE_LTE_CMDA_EVDO_GSM_WCDMA = URIL_NW_PREF_TYPE_LTE_CMDA_EVDO_GSM_WCDMA"
| "nw_pref_of_ril PREF_NET_TYPE_LTE_ONLY = URIL_NW_PREF_TYPE_LTE_ONLY"
| "nw_pref_of_ril PREF_NET_TYPE_LTE_WCDMA = URIL_NW_PREF_TYPE_LTE_WCDMA"

definition RilNwPrefToUrilNwPref :: "ril_h \<Rightarrow> u32 \<Rightarrow> uril_nw_pref_type_t_v01 outcome" where
  "RilNwPrefToUrilNwPref H preferred_nw_type =
     (case enum_of (pref_code H) RIL_PreferredNetworkType_all preferred_nw_type of
        Some e \<Rightarrow> Ok (nw_pref_of_ril e)
      | None \<Rightarrow> Fault Assert_failed)"

fun rat_of_ril :: "RIL_RadioTechnology \<Rightarrow> uril_nw_rat_t_v01" where
  "rat_of_ril RADIO_TECH_UNKNOWN = URIL_NW_RAT_NONE_V01"
| "rat_of_ril RADIO_TECH_GPRS = URIL_NW_RAT_GPRS_V01"
| "rat_of_ril RADIO_TECH_EDGE = URIL_NW_RAT_EDGE_V01"
| "rat_of_ril RADIO_TECH_UMTS = URIL_NW_RAT_UMTS_V01"
| "rat_of_ril RADIO_TECH_IS95A = URIL_NW_RAT_IS95A_V01"
| "rat_of_ril RADIO_TECH_IS95B = URIL_NW_RAT_IS95B_V01"
| "rat_of_ril RADIO_TECH_1xRTT = URIL_NW_RAT_1xRTT_V01"
| "rat_of_ril RADIO_TECH_EVDO_0 = URIL_NW_RAT_EVDO_0_V01"
| "rat_of_ril RADIO_TECH_EVDO_A = URIL_NW_RAT_EVDO_A_V01"
| "rat_of_ril RADIO_TECH_HSDPA = URIL_NW_RAT_HSDPA_V01"
| "rat_of_ril RADIO_TECH_HSUPA = URIL_NW_RAT_HSUPA_V01"
| "rat_of_ril RADIO_TECH_HSPA = URIL_NW_RAT_HSPA_V01"
| "rat_of_ril RADIO_TECH_EVDO_B = URIL_NW_RAT_EVDO_B_V01"
| "rat_of_ril RADIO_TECH_EHRPD = URIL_NW_RAT_EHRPD_V01"
| "rat_of_ril RADIO_TECH_LTE = URIL_NW_RAT_LTE_V01"
| "rat_of_ril RADIO_TECH_HSPAP = URIL_NW_RAT_HSPAP_V01"
| "rat_of_ril RADIO_TECH_GSM = URIL_NW_RAT_GSM_V01"
| "rat_of_ril RADIO_TECH_TD_SCDMA = URIL_NW_RAT_TD_SCDMA_V01"
| "rat_of_ril RADIO_TECH_IWLAN = URIL_NW_RAT_IWLAN_V01"

definition rilRatToUrilRat :: "ril_h \<Rightarrow> u32 \<Rightarrow> uril_nw_rat_t_v01 outcome" where
  "rilRatToUrilRat H radio_tech =
     (case enum_of (rat_code H) RIL_RadioTechnology_all radio_tech of
        Some e \<Rightarrow> Ok (rat_of_ril e)
      | None \<Rightarrow> Fault Assert_failed)"

fun bearer_to_rat :: "uril_data_bearer_tech_info_t_v01 \<Rightarrow> RIL_RadioTechnology" where
  "bearer_to_rat URIL_DATA_BEARER_TECH_TYPE_UNKNOWN_V01 = RADIO_TECH_UNKNOWN"
| "bearer_to_rat URIL_DATA_BEARER_TECH_TYPE_CDMA_1X_V01 = RADIO_TECH_1xRTT"
| "bearer_to_rat URIL_DATA_BEARER_TECH_TYPE_EVDO_REV0_V01 = RADIO_TECH_EVDO_0"
| "bearer_to_rat URIL_DATA_BEARER_TECH_TYPE_EVDO_REVA_V01 = RADIO_TECH_EVDO_A"
| "bearer_to_rat URIL_DATA_BEARER_TECH_TYPE_EVDO_REVB_V01 = RADIO_TECH_EVDO_B"
| "bearer_to_rat URIL_DATA_BEARER_TECH_TYPE_EHRPD_V01 = RADIO_TECH_EHRPD"
| "bearer_to_rat URIL_DATA_BEARER_TECH_TYPE_FMC_V01 = RADIO_TECH_UNKNOWN"
| "bearer_to_rat URIL_DATA_BEARER_TECH_TYPE_HRPD_V01 = RADIO_TECH_UNKNOWN"
| "bearer_to_rat URIL_DATA_BEARER_TECH_TYPE_3GPP2_WLAN_V01 = RADIO_TECH_UNKNOWN"
| "bearer_to_rat URIL_DATA_BEARER_TECH_TYPE_WCDMA_V01 = RADIO_TECH_UMTS"
| "bearer_to_rat URIL_DATA_BEARER_TECH_TYPE_GPRS_V01 = RADIO_TECH_GPRS"
| "bearer_to_rat URIL_DATA_BEARER_TECH_TYPE_HSDPA_V01 = RADIO_TECH_HSDPA"
| "bearer_to_rat URIL_DATA_BEARER_TECH_TYPE_HSUPA_V01 = RADIO_TECH_HSUPA"
| "bearer_to_rat URIL_DATA_BEARER_TECH_TYPE_EDGE_V01 = RADIO_TECH_EDGE"
| "bearer_to_rat URIL_DATA_BEARER_TECH_TYPE_LTE_V01 = RADIO_TECH_LTE"
| "bearer_to_rat URIL_DATA_BEARER_TECH_TYPE_HSDPA_PLUS_V01 = RADIO_TECH_HSPAP"
| "bearer_to_rat URIL_DATA_BEARER_TECH_TYPE_DC_HSDPA_PLUS_V01 = RADIO_TECH_HSPAP"
| "bearer_to_rat URIL_DATA_BEARER_TECH_TYPE_HSPA_V01 = RADIO_TECH_HSPA"
| "bearer_to_rat URIL_DATA_BEARER_TECH_TYPE_64_QAM_V01 = RADIO_TECH_HSPAP"
| "bearer_to_rat URIL_DATA_BEARER_TECH_TYPE_TDSCDMA_V01 = RADIO_TECH_TD_SCDMA"
| "bearer_to_rat URIL_DATA_BEARER_TECH_TYPE_GSM_V01 = RADIO_TECH_GSM"
| "bearer_to_rat URIL_DATA_BEARER_TECH_TYPE_3GPP_WLAN_V01 = RADIO_TECH_IWLAN"

definition urilDataBearerTechTypeToRilRadioTech :: "u32 \<Rightarrow> RIL_RadioTechnology outcome" where
  "urilDataBearerTechTypeToRilRadioTech data_bearer_tech =
     (case enum_of uril_data_bearer_tech_info_t_v01_code uril_data_bearer_tech_info_t_v01_all
             data_bearer_tech of
        Some e \<Rightarrow> Ok (bearer_to_rat e)
      | None \<Rightarrow> Fault Assert_failed)"

fun fail_cause_of_ril :: "RIL_DataCallFailCause \<Rightarrow> uril_data_call_failure_cause_t_v01" where
  "fail_cause_of_ril PDP_FAIL_NONE = URIL_DATA_FAIL_CAUSE_NONE"
| "fail_cause_of_ril PDP_FAIL_OPERATOR_BARRED = URIL_DATA_FAIL_CAUSE_OPERATOR_BARRED"
| "fail_cause_of_ril PDP_FAIL_INSUFFICIENT_RESOURCES = URIL_DATA_FAIL_CAUSE_INSUFFICIENT_RESOURCES"
| "fail_cause_of_ril PDP_FAIL_MISSING_UKNOWN_APN = URIL_DATA_FAIL_CAUSE_MISSING_UKNOWN_APN"
| "fail_cause_of_ril PDP_FAIL_UNKNOWN_PDP_ADDRESS_TYPE = URIL_DATA_FAIL_CAUSE_UNKNOWN_PDP_ADDRESS_TYPE"
| "fail_cause_of_ril PDP_FAIL_USER_AUTHENTICATION = URIL_DATA_FAIL_CAUSE_USER_AUTHENTICATION"
| "fail_cause_of_ril PDP_FAIL_ACTIVATION_REJECT_GGSN = URIL_DATA_FAIL_CAUSE_ACTIVATION_REJECT_GGSN"
| "fail_cause_of_ril PDP_FAIL_ACTIVATION_REJECT_UNSPECIFIED = URIL_DATA_FAIL_CAUSE_ACTIVATION_REJECT_UNSPECIFIED"
| "fail_cause_of_ril PDP_FAIL_SERVICE_OPTION_NOT_SUPPORTED = URIL_DATA_FAIL_CAUSE_SERVICE_OPTION_NOT_SUPPORTED"
| "fail_cause_of_ril PDP_FAIL_SERVICE_OPTION_NOT_SUBSCRIBED = URIL_DATA_FAIL_CAUSE_SERVICE_OPTION_NOT_SUBSCRIBED"
| "fail_cause_of_ril PDP_FAIL_SERVICE_OPTION_OUT_OF_ORDER = URIL_DATA_FAIL_CAUSE_SERVICE_OPTION_OUT_OF_ORDER"
| "fail_cause_of_ril PDP_FAIL_NSAPI_IN_USE = URIL_DATA_FAIL_CAUSE_NSAPI_IN_USE"
| "fail_cause_of_ril PDP_FAIL_REGULAR_DEACTIVATION = URIL_DATA_FAIL_CAUSE_REGULAR_DEACTIVATION"
| "fail_cause_of_ril PDP_FAIL_ONLY_IPV4_ALLOWED = URIL_DATA_FAIL_CAUSE_ONLY_IPV4_ALLOWED"
| "fail_cause_of_ril PDP_FAIL_ONLY_IPV6_ALLOWED = URIL_DATA_FAIL_CAUSE_ONLY_IPV6_ALLOWED"
| "fail_cause_of_ril PDP_FAIL_ONLY_SINGLE_BEARER_ALLOWED = URIL_DATA_FAIL_CAUSE_ONLY_SINGLE_BEARER_ALLOWED"
| "fail_cause_of_ril PDP_FAIL_PROTOCOL_ERRORS = URIL_DATA_FAIL_CAUSE_PROTOCOL_ERRORS"
| "fail_cause_of_ril PDP_FAIL_VOICE_REGISTRATION_FAIL = URIL_DATA_FAIL_CAUSE_VOICE_REGISTRATION_FAIL"
| "fail_cause_of_ril PDP_FAIL_DATA_REGISTRATION_FAIL = URIL_DATA_FAIL_CAUSE_DATA_REGISTRATION_FAIL"
| "fail_cause_of_ril PDP_FAIL_SIGNAL_LOST = URIL_DATA_FAIL_CAUSE_SIGNAL_LOST"
| "fail_cause_of_ril PDP_FAIL_PREF_RADIO_TECH_CHANGED = URIL_DATA_FAIL_CAUSE_PREF_RADIO_TECH_CHANGED"
| "fail_cause_of_ril PDP_FAIL_RADIO_POWER_OFF = URIL_DATA_FAIL_CAUSE_RADIO_POWER_OFF"
| "fail_cause_of_ril PDP_FAIL_TETHERED_CALL_ACTIVE = URIL_DATA_FAIL_CAUSE_TETHERED_CALL_ACTIVE"
| "fail_cause_of_ril PDP_FAIL_ERROR_UNSPECIFIED = URIL_DATA_FAIL_CAUSE_ERROR_UNSPECIFIED"

text \<open>A cause the switch does not name is passed on as it is.\<close>

definition rilDataCallFailCauseToUrilDataFailCause :: "ril_h \<Rightarrow> u32 \<Rightarrow> u32" where
  "rilDataCallFailCauseToUrilDataFailCause H data_fail_cause =
     (case enum_of (fail_code H) RIL_DataCallFailCause_all data_fail_cause of
        Some e \<Rightarrow> uril_data_call_failure_cause_t_v01_code (fail_cause_of_ril e)
      | None \<Rightarrow> data_fail_cause)"

fun auth_to_ril :: "uril_data_auth_type_t_v01 \<Rightarrow> u32" where
  "auth_to_ril URIL_DATA_AUTH_TYPE_NONE = 0"
| "auth_to_ril URIL_DATA_AUTH_TYPE_PAP = 1"
| "auth_to_ril URIL_DATA_AUTH_TYPE_CHAP = 2"
| "auth_to_ril URIL_DATA_AUTH_TYPE_PAPCHAP = 3"

definition urilAuthTypeToRilAuthType :: "u32 \<Rightarrow> u32 outcome" where
  "urilAuthTypeToRilAuthType auth_type =
     (case enum_of uril_data_auth_type_t_v01_code uril_data_auth_type_t_v01_all auth_type of
        Some e \<Rightarrow> Ok (auth_to_ril e)
      | None \<Rightarrow> Fault Assert_failed)"

fun pdp_type_to_ril :: "uril_data_pdp_type_t_v01 \<Rightarrow> string" where
  "pdp_type_to_ril URIL_DATA_PDP_TYPE_NONE = ''''"
| "pdp_type_to_ril URIL_DATA_PDP_TYPE_IP = ''IP''"
| "pdp_type_to_ril URIL_DATA_PDP_TYPE_IPV6 = ''IPV6''"
| "pdp_type_to_ril URIL_DATA_PDP_TYPE_IPV4V6 = ''IPV4V6''"
| "pdp_type_to_ril URIL_DATA_PDP_TYPE_PPP = ''PPP''"

definition urilPdpTypeToRilPdpType :: "u32 \<Rightarrow> string outcome" where
  "urilPdpTypeToRilPdpType pdp_type =
     (case enum_of uril_data_pdp_type_t_v01_code uril_data_pdp_type_t_v01_all pdp_type of
        Some e \<Rightarrow> Ok (pdp_type_to_ril e)
      | None \<Rightarrow> Fault Assert_failed)"

text \<open>The error of a response: one enumerator per named \<open>RIL_Errno\<close>, else a generic failure.\<close>

fun errno_error :: "RIL_Errno \<Rightarrow> uril_error_t_v01" where
  "errno_error RIL_E_SUCCESS = URIL_ERROR_SUCCESS_V01"
| "errno_error RIL_E_RADIO_NOT_AVAILABLE = URIL_ERROR_RADIO_NOT_AVAILABLE_V01"
| "errno_error RIL_E_PASSWORD_INCORRECT = URIL_ERROR_PASSWORD_INCORRECT_V01"
| "errno_error RIL_E_SIM_PIN2 = URIL_ERROR_SIM_PIN2_V01"
| "errno_error RIL_E_SIM_PUK2 = URIL_ERROR_SIM_PUK2_V01"
| "errno_error RIL_E_REQUEST_NOT_SUPPORTED = URIL_ERROR_REQUEST_NOT_SUPPORTED_V01"
| "errno_error RIL_E_CANCELLED = URIL_ERROR_CANCELLED_V01"
| "errno_error RIL_E_OP_NOT_ALLOWED_DURING_VOICE_CALL = URIL_ERROR_OP_NOT_ALLOWED_DURING_VOICE_CALL_V01"
| "errno_error RIL_E_OP_NOT_ALLOWED_BEFORE_REG_TO_NW = URIL_ERROR_OP_NOT_ALLOWED_BEFORE_REG_TO_NW_V01"
| "errno_error RIL_E_SMS_SEND_FAIL_RETRY = URIL_ERROR_SMS_SEND_FAIL_RETRY_V01"
| "errno_error RIL_E_SIM_ABSENT = URIL_ERROR_SIM_ABSENT_V01"
| "errno_error RIL_E_SUBSCRIPTION_NOT_AVAILABLE = URIL_ERROR_SUBSCRIPTION_NOT_AVAILABLE_V01"
| "errno_error RIL_E_MODE_NOT_SUPPORTED = URIL_ERROR_MODE_NOT_SUPPORTED_V01"
| "errno_error RIL_E_FDN_CHECK_FAILURE = URIL_ERROR_FDN_CHECK_FAILURE_V01"
| "errno_error RIL_E_ILLEGAL_SIM_OR_ME = URIL_ERROR_ILLEGAL_SIM_OR_ME_V01"
| "errno_error RIL_E_MISSING_RESOURCE = URIL_ERROR_MISSING_RESOURCE_V01"
| "errno_error RIL_E_NO_SUCH_ELEMENT = URIL_ERROR_NO_SUCH_ELEMENT_V01"
| "errno_error RIL_E_DIAL_MODIFIED_TO_USSD = URIL_ERROR_DIAL_MODIFIED_TO_USSD_V01"
| "errno_error RIL_E_DIAL_MODIFIED_TO_SS = URIL_ERROR_DIAL_MODIFIED_TO_SS_V01"
| "errno_error RIL_E_DIAL_MODIFIED_TO_DIAL = URIL_ERROR_DIAL_MODIFIED_TO_DIAL_V01"
| "errno_error RIL_E_USSD_MODIFIED_TO_DIAL = URIL_ERROR_USSD_MODIFIED_TO_DIAL_V01"
| "errno_error RIL_E_USSD_MODIFIED_TO_SS = URIL_ERROR_USSD_MODIFIED_TO_SS_V01"
| "errno_error RIL_E_USSD_MODIFIED_TO_USSD = URIL_ERROR_USSD_MODIFIED_TO_USSD_V01"
| "errno_error RIL_E_SS_MODIFIED_TO_DIAL = URIL_ERROR_SS_MODIFIED_TO_DIAL_V01"
| "errno_error RIL_E_SS_MODIFIED_TO_USSD = URIL_ERROR_SS_MODIFIED_TO_USSD_V01"
| "errno_error RIL_E_SUBSCRIPTION_NOT_SUPPORTED = URIL_ERROR_SUBSCRIPTION_NOT_SUPPORTED_V01"
| "errno_error RIL_E_SS_MODIFIED_TO_SS = URIL_ERROR_SS_MODIFIED_TO_SS_V01"
| "errno_error RIL_E_other = URIL_ERROR_GENERIC_FAILURE_V01"

definition rilErrnoToUrilResponse :: "RIL_Errno \<Rightarrow> uril_response" where
  "rilErrnoToUrilResponse e =
     (if e = RIL_E_SUCCESS
      then \<lparr>rsp_result = uril_result_t_v01_code URIL_RESULT_SUCCESS_V01,
            rsp_error = uril_error_t_v01_code URIL_ERROR_SUCCESS_V01\<rparr>
      else \<lparr>rsp_result = uril_result_t_v01_code URIL_RESULT_FAILURE_V01,
            rsp_error = uril_error_t_v01_code (errno_error e)\<rparr>)"

section \<open>Addresses\<close>

text \<open>
  \<open>rilIpAddrToUrilDataAddr\<close> parses one address of a blank separated list.  The result is its
  return value, the new \<open>*iril_addr\<close>, and what it stores in \<open>*endAddr\<close> (\<open>None\<close> when it
  does not store).  The address buffer has 256 bytes.
\<close>

definition rilIpAddrToUrilDataAddr ::
    "string option \<Rightarrow> uril_data_addr \<Rightarrow> (bool \<times> uril_data_addr \<times> string option) outcome" where
  "rilIpAddrToUrilDataAddr addr iril_addr =
     (case addr of
        None \<Rightarrow> Ok (False, \<lparr>da_addr = '''', da_prefix_len = 0\<rparr>, None)
      | Some s \<Rightarrow>
          let t = dropWhile (\<lambda>c. c = CHR '' '') s;
              w = takeWhile (\<lambda>c. c \<noteq> CHR '' '' \<and> c \<noteq> CHR ''/'') t;
              e = dropWhile (\<lambda>c. c \<noteq> CHR '' '' \<and> c \<noteq> CHR ''/'') t
          in if w = [] then Ok (False, iril_addr, None)
             else if length w \<ge> URIL_DATA_MAX_ADDR_LEN_V01 then Fault Assert_failed
             else (case e of
                     [] \<Rightarrow> Ok (True, \<lparr>da_addr = w,
                              da_prefix_len = (if CHR '':'' \<in> set w then 128 else 32)\<rparr>, Some [])
                   | c # cs \<Rightarrow>
                       if c \<noteq> CHR ''/''
                       then Ok (True, \<lparr>da_addr = w,
                              da_prefix_len = (if CHR '':'' \<in> set w then 128 else 32)\<rparr>, Some cs)
                       else Ok (True, \<lparr>da_addr = w,
                              da_prefix_len = ucast (ul_value (strtoul cs))\<rparr>,
                              Some (ul_end (strtoul cs)))))"

text \<open>
  The loop that fills \<open>pdp_addrs\<close>.  The address is converted into
  \<open>pdp_addrs[pdp_addrs_len]\<close> before \<open>pdp_addrs_len\<close> is compared with the size of the array,
  so a further address after the last element is stored past its end.
\<close>

function fill_pdp_addrs ::
    "string \<Rightarrow> uril_data_addr list \<Rightarrow> nat \<Rightarrow> (uril_data_addr list \<times> nat) outcome" where
  "fill_pdp_addrs addr pdp_addrs n =
     bind_outcome
       (rilIpAddrToUrilDataAddr (Some addr)
          (if n < length pdp_addrs then pdp_addrs ! n else zero_data_addr))
       (\<lambda>(ok, a, e).
          if \<not> ok then Ok (pdp_addrs, n)
          else if n \<ge> length pdp_addrs then Fault Out_of_bounds_write
          else if n < URIL_DATA_MAX_ADDR_COUNT_V01
          then fill_pdp_addrs (case e of None \<Rightarrow> addr | Some r \<Rightarrow> r) (pdp_addrs[n := a]) (Suc n)
          else Ok (pdp_addrs[n := a], n))"
  by pat_completeness auto
termination
  by (relation "measure (\<lambda>(addr, pdp_addrs, n). URIL_DATA_MAX_ADDR_COUNT_V01 - n)") auto

declare fill_pdp_addrs.simps [simp del]

section \<open>Data calls\<close>

definition phy_link_state_of :: "u32 \<Rightarrow> u32 outcome" where
  "phy_link_state_of active =
     (if active = 0
      then Ok (uril_physical_link_state_t_v01_code URIL_DATA_PHYSLINK_STATE_INACTIVE_V01)
      else if active = 1
      then Ok (uril_physical_link_state_t_v01_code URIL_DATA_PHYSLINK_STATE_ACTIVE_DOWN_V01)
      else if active = 2
      then Ok (uril_physical_link_state_t_v01_code URIL_DATA_PHYSLINK_STATE_ACTIVE_UP_V01)
      else Fault Assert_failed)"

definition pdp_type_of_ril :: "string option \<Rightarrow> uril_data_pdp_type_t_v01" where
  "pdp_type_of_ril t =
     (case t of
        None \<Rightarrow> URIL_DATA_PDP_TYPE_NONE
      | Some s \<Rightarrow>
          if s = ''IP'' then URIL_DATA_PDP_TYPE_IP
          else if s = ''IPV6'' then URIL_DATA_PDP_TYPE_IPV6
          else if s = ''IPV4V6'' then URIL_DATA_PDP_TYPE_IPV4V6
          else if s = ''PPP'' then URIL_DATA_PDP_TYPE_PPP
          else URIL_DATA_PDP_TYPE_NONE)"

definition rilDataCallResponseToIRilDataCallInfo ::
    "ril_h \<Rightarrow> uril_data_call_info \<Rightarrow> RIL_Data_Call_Response \<Rightarrow> uril_data_call_info outcome" where
  "rilDataCallResponseToIRilDataCallInfo H iril_call ril_call =
     bind_outcome (phy_link_state_of (dc_active ril_call)) (\<lambda>link.
     bind_outcome
       (case dc_addresses ril_call of
          None \<Rightarrow> Ok (ci_pdp_addrs iril_call, 0)
        | Some addrs \<Rightarrow> fill_pdp_addrs addrs (ci_pdp_addrs iril_call) 0) (\<lambda>(pdp_addrs, n).
     bind_outcome (rilIpAddrToUrilDataAddr (dc_gateways ril_call) (ci_gtwy_addr iril_call))
       (\<lambda>(_, gtwy, _).
     bind_outcome (rilIpAddrToUrilDataAddr (dc_dnses ril_call) (ci_dnsp_addr iril_call))
       (\<lambda>(dns_ok, dnsp, dns_end).
     bind_outcome
       (if dns_ok then rilIpAddrToUrilDataAddr dns_end (ci_dnss_addr iril_call)
        else Ok (False, ci_dnss_addr iril_call, None)) (\<lambda>(_, dnss, _).
     bind_outcome (rilIpAddrToUrilDataAddr (dc_pcscf ril_call) (ci_pcscf_addr iril_call))
       (\<lambda>(_, pcscf, _).
     Ok \<lparr>ci_failure_cause =
           rilDataCallFailCauseToUrilDataFailCause H (dc_status ril_call),
         ci_suggested_retry_time = ucast (dc_suggestedRetryTime ril_call),
         ci_cid = ucast (dc_cid ril_call),
         ci_phy_link_state = link,
         ci_pdp_type = uril_data_pdp_type_t_v01_code (pdp_type_of_ril (dc_type ril_call)),
         ci_interface_name =
           (case dc_ifname ril_call of
              None \<Rightarrow> ''''
            | Some ifname \<Rightarrow> snprintf_s URIL_DATA_MAX_DEVICE_NAME_LEN_V01 ifname),
         ci_pdp_addrs_len = of_nat n,
         ci_pdp_addrs = pdp_addrs,
         ci_gtwy_addr = gtwy,
         ci_dnsp_addr = dnsp,
         ci_dnss_addr = dnss,
         ci_pcscf_addr = pcscf,
         ci_mtu = ucast (dc_mtu ril_call)\<rparr>))))))"

section \<open>Network registration\<close>

text \<open>A conversion that nobody calls: every reason is the general one.\<close>

definition rilDenyReasonToUrilDenyReason :: "int \<Rightarrow> uril_nw_deny_reason_t_v01" where
  "rilDenyReasonToUrilDenyReason denyReason = URIL_NW_GENERAL"

text \<open>
  The denial reason of a registration: the variable \<open>deny_reason\<close> is set to
  \<open>URIL_NW_GENERAL\<close> when the string does parse, and stays uninitialised when it does not.
\<close>

definition deny_reason_value :: "string option \<Rightarrow> u32 outcome" where
  "deny_reason_value denyreason =
     (if rilStrToInt denyreason \<noteq> None
      then Ok (uril_nw_deny_reason_t_v01_code URIL_NW_GENERAL)
      else Fault Uninitialised_read)"

definition service_below_ten :: "u32 \<Rightarrow> u32" where
  "service_below_ten reg_state =
     uril_nw_service_t_v01_code
       (if reg_state < 10 then URIL_NW_SERVICE_NONE_V01 else URIL_NW_SERVICE_LIMITED_V01)"

definition rilNwRegToUrilNwReg ::
    "ril_h \<Rightarrow> uril_nw_registration_info \<Rightarrow> string option \<Rightarrow> string option \<Rightarrow> string option
     \<Rightarrow> (bool \<times> uril_nw_registration_info) outcome" where
  "rilNwRegToUrilNwReg H regInfo regstate radiotech denyreason =
     (case (rilStrToInt regstate, rilStrToInt radiotech) of
        (Some reg_state, Some radio_tech) \<Rightarrow>
          let r = regInfo\<lparr>ri_tech_domain := uril_nw_tech_t_v01_code URIL_NW_TECH_NONE_V01\<rparr>
          in bind_outcome
               (if reg_state \<in> {0, 10, 2, 12, 4, 14}
                then Ok (r\<lparr>ri_roaming := uril_nw_roaming_state_t_v01_code URIL_NW_ROAMING_STATE_OFF_V01,
                           ri_registration_state := service_below_ten reg_state,
                           ri_denied := 0\<rparr>)
                else if reg_state \<in> {3, 13}
                then map_ok (\<lambda>reason.
                       r\<lparr>ri_roaming := uril_nw_roaming_state_t_v01_code URIL_NW_ROAMING_STATE_OFF_V01,
                         ri_registration_state := service_below_ten reg_state,
                         ri_denied := 1,
                         ri_deny_reason := reason\<rparr>) (deny_reason_value denyreason)
                else if reg_state \<in> {1, 5}
                then Ok (r\<lparr>ri_roaming :=
                             uril_nw_roaming_state_t_v01_code
                               (if reg_state = 1 then URIL_NW_ROAMING_STATE_OFF_V01
                                else URIL_NW_ROAMING_STATE_ON_V01),
                           ri_registration_state :=
                             uril_nw_service_t_v01_code URIL_NW_SERVICE_FULL_V01,
                           ri_denied := 0\<rparr>)
                else Fault Assert_failed)
               (\<lambda>r'. map_ok (\<lambda>rat. (True, r'\<lparr>ri_rat := uril_nw_rat_t_v01_code rat\<rparr>))
                        (rilRatToUrilRat H radio_tech))
      | _ \<Rightarrow> Ok (False, regInfo))"

text \<open>The cell identity of the circuit switched registration.\<close>

definition rilCellToUrilCellVoice ::
    "ril_h \<Rightarrow> uril_nw_registration_status_resp \<Rightarrow> string option \<Rightarrow> string option \<Rightarrow> string option
     \<Rightarrow> string option \<Rightarrow> bool \<times> uril_nw_registration_status_resp" where
  "rilCellToUrilCellVoice H reg_status ril_radiotech ril_lac ril_cid ril_psc =
     (case rilStrToInt ril_radiotech of
        None \<Rightarrow> (False, reg_status)
      | Some rat \<Rightarrow>
          let lac = int_or_minus_one ril_lac;
              cid = int_or_minus_one ril_cid;
              psc = int_or_minus_one ril_psc;
              tech = enum_of (rat_code H) RIL_RadioTechnology_all rat
          in (True,
              if tech \<in> {Some RADIO_TECH_GPRS, Some RADIO_TECH_EDGE, Some RADIO_TECH_GSM}
              then reg_status
                \<lparr>rs_gsm_follows := 1,
                 rs_gsm := (rs_gsm reg_status)\<lparr>gsm_lac := ucast lac, gsm_cid := cid\<rparr>\<rparr>
              else if tech \<in> {Some RADIO_TECH_UMTS, Some RADIO_TECH_HSDPA, Some RADIO_TECH_HSUPA,
                              Some RADIO_TECH_HSPA, Some RADIO_TECH_HSPAP}
              then reg_status
                \<lparr>rs_wcdma_follows := 1,
                 rs_wcdma := (rs_wcdma reg_status)
                   \<lparr>wcdma_lac := ucast lac, wcdma_cid := cid, wcdma_psc := ucast psc\<rparr>\<rparr>
              else if tech = Some RADIO_TECH_TD_SCDMA
              then reg_status
                \<lparr>rs_tdscdma_follows := 1,
                 rs_tdscdma := (rs_tdscdma reg_status)\<lparr>tds_lac := ucast lac, tds_cid := cid\<rparr>\<rparr>
              else reg_status))"

text \<open>The cell identity of the packet switched registration.\<close>

definition rilCellToUrilCellData ::
    "ril_h \<Rightarrow> uril_nw_registration_status_resp \<Rightarrow> string option \<Rightarrow> string option \<Rightarrow> string option
     \<Rightarrow> string option \<Rightarrow> bool \<times> uril_nw_registration_status_resp" where
  "rilCellToUrilCellData H reg_status ril_radiotech ril_ltetac ril_ltecid ril_lteeci =
     (case rilStrToInt ril_radiotech of
        None \<Rightarrow> (False, reg_status)
      | Some rat \<Rightarrow>
          let tac = int_or_minus_one ril_ltetac;
              cid = int_or_minus_one ril_ltecid;
              eci = int_or_minus_one ril_lteeci
          in (True,
              if enum_of (rat_code H) RIL_RadioTechnology_all rat = Some RADIO_TECH_LTE
              then reg_status
                \<lparr>rs_lte_follows := 1,
                 rs_lte := (rs_lte reg_status)
                   \<lparr>lte_tac := ucast tac, lte_ci := eci, lte_pci := ucast cid\<rparr>\<rparr>
              else reg_status))"

text \<open>
  The name of an operator, from its long name, its short name and its MCC and MNC in one
  string.  \<open>ril_mncmcc + 3\<close> lies behind the end of a string of fewer than three characters.
\<close>

definition rilOperatorNameToUrilOperatorName ::
    "uril_nw_operator_name \<Rightarrow> string option \<Rightarrow> string option \<Rightarrow> string option
     \<Rightarrow> (bool \<times> uril_nw_operator_name) outcome" where
  "rilOperatorNameToUrilOperatorName operator_name ril_long_name ril_short_name ril_mncmcc =
     (case (ril_long_name, ril_short_name, ril_mncmcc) of
        (Some long_name, Some short_name, Some mncmcc) \<Rightarrow>
          if length mncmcc < 3 then Fault Out_of_bounds_read
          else Ok (True,
                 \<lparr>op_long_eons = snprintf_s (512 + 1) long_name,
                  op_short_eons = snprintf_s (512 + 1) short_name,
                  op_mcc = strncpy mncmcc (4 - 1),
                  op_mnc = strncpy (drop 3 mncmcc) (4 - 1)\<rparr>)
      | _ \<Rightarrow> Ok (False, operator_name))"

end
