(* ===== verification/Ril_Responses.thy ===== *)
theory Ril_Responses
  imports Ril_Convert
begin

text \<open>
  The handlers \<open>handleRil...V1\<close> of \<open>AndroidRilAdapter.cpp\<close>: what the adapter does with a
  response of the vendor RIL.  A handler reads and writes the request context and the response
  message under construction, and may start a thread that sends one more vendor request for the
  same context; it returns the boolean of the code, the new context and the requests for which
  it started a thread.

  The payload of the message under construction is kept as the structure the handlers cast it
  to (\<open>rsp_body\<close>; a fresh payload is zero).  The structures that are larger than the payload
  array are written under a bounds check against \<open>cap\<close>, the number of bytes behind the cast
  pointer: the code has \<open>cap = MAX_URIL_PAYLOAD_SIZE\<close>, and a write past it is out of bounds.
\<close>

section \<open>Contexts\<close>

datatype rsp_body =
    Body_zero
  | Body_response uril_response
  | Body_get_pref uril_nw_get_pref_resp
  | Body_reg uril_nw_registration_status_resp
  | Body_scan uril_nw_scan_resp
  | Body_signal uril_nw_signal_strength_resp
  | Body_setup_call uril_data_setup_call_resp
  | Body_call_list uril_data_call_list_resp

record ril_rsp =
  r_is_indication :: u8
  r_unique_id :: u32
  r_sim_id :: u8
  r_msg_id :: u32
  r_len :: u16
  r_body :: rsp_body

record RilRequestContext =
  rilReqId :: ril_request
  uniqueId :: u32
  simId :: u8
  msgId :: u32
  rsp :: "ril_rsp option"
  isCompleted :: bool

fun body_bytes :: "rsp_body \<Rightarrow> u8 list" where
  "body_bytes Body_zero = []"
| "body_bytes (Body_response r) = enc_response r"
| "body_bytes (Body_get_pref r) = enc_get_pref r"
| "body_bytes (Body_reg r) = enc_reg_status r"
| "body_bytes (Body_scan r) = enc_scan r"
| "body_bytes (Body_signal r) = enc_signal r"
| "body_bytes (Body_setup_call r) = enc_setup_call r"
| "body_bytes (Body_call_list r) = enc_call_list r"

definition msg_of_rsp :: "ril_rsp \<Rightarrow> uril_protocol_msg_t" where
  "msg_of_rsp r =
     \<lparr>is_indication = r_is_indication r, unique_id = r_unique_id r, sim_id = r_sim_id r,
      msg_id = r_msg_id r, plen = r_len r,
      payload = take MAX_URIL_PAYLOAD_SIZE (body_bytes (r_body r) @ zero_payload)\<rparr>"

lemma msg_of_rsp_wf: "msg_wf (msg_of_rsp r)"
  by (simp add: msg_of_rsp_def msg_wf_def)

type_synonym handler_result = "(bool \<times> RilRequestContext \<times> ril_request list) outcome"

section \<open>Helpers\<close>

text \<open>
  Setting the message id and length and completing: the frame most handlers share.  The length
  is the 16 bit value of the structure's size.
\<close>

definition put_rsp :: "u32 \<Rightarrow> nat \<Rightarrow> rsp_body \<Rightarrow> ril_rsp \<Rightarrow> ril_rsp" where
  "put_rsp mid n b r = r\<lparr>r_msg_id := mid, r_len := of_nat n, r_body := b\<rparr>"

definition complete_with :: "u32 \<Rightarrow> nat \<Rightarrow> rsp_body \<Rightarrow> RilRequestContext \<Rightarrow> handler_result" where
  "complete_with mid n b ctx =
     (case rsp ctx of
        None \<Rightarrow> Fault Null_deref
      | Some r \<Rightarrow> Ok (True, ctx\<lparr>rsp := Some (put_rsp mid n b r), isCompleted := True\<rparr>, []))"

text \<open>The \<open>char**\<close> of a response: \<open>num_entries\<close> is the length of the list.\<close>

definition strings_of :: "ril_data \<Rightarrow> string option list outcome" where
  "strings_of data =
     (case data of Data_strings xs \<Rightarrow> Ok xs | Data_null \<Rightarrow> Ok [] | _ \<Rightarrow> Fault Type_confusion)"

definition entry :: "string option list \<Rightarrow> nat \<Rightarrow> string option" where
  "entry rsp_str k = (if k < length rsp_str then rsp_str ! k else None)"

text \<open>The registration status under construction; a fresh payload is all zero.\<close>

definition reg_of_body :: "rsp_body \<Rightarrow> uril_nw_registration_status_resp outcome" where
  "reg_of_body b =
     (case b of Body_zero \<Rightarrow> Ok zero_reg_status | Body_reg r \<Rightarrow> Ok r | _ \<Rightarrow> Fault Type_confusion)"

section \<open>Network handlers\<close>

definition handleRilSetNetworkPrefResponseV1 :: "RilRequestContext \<Rightarrow> RIL_Errno \<Rightarrow> handler_result" where
  "handleRilSetNetworkPrefResponseV1 ctx e =
     complete_with URIL_NW_SET_PREF_RESP_V01 (sizeof uril_nw_set_pref_resp_msg_v01)
       (Body_response (rilErrnoToUrilResponse e)) ctx"

definition handleRilGetNetworkPrefResponseV1 ::
    "ril_h \<Rightarrow> RilRequestContext \<Rightarrow> RIL_Errno \<Rightarrow> ril_data \<Rightarrow> handler_result" where
  "handleRilGetNetworkPrefResponseV1 H ctx e data =
     (let rs = rilErrnoToUrilResponse e;
          done = (\<lambda>b. complete_with URIL_NW_GET_PREF_RESP_V01 (sizeof uril_nw_get_pref_resp_msg_v01)
                        (Body_get_pref b) ctx)
      in if e = RIL_E_SUCCESS
         then (case data of
                 Data_int v \<Rightarrow>
                   bind_outcome (RilNwPrefToUrilNwPref H v) (\<lambda>pref.
                     done \<lparr>gp_response = rs, gp_preferred_nw_mode_follows = 1,
                           gp_preferred_nw_mode = uril_nw_pref_type_t_v01_code pref\<rparr>)
               | Data_null \<Rightarrow> Fault Null_deref
               | _ \<Rightarrow> Fault Type_confusion)
         else done \<lparr>gp_response = rs, gp_preferred_nw_mode_follows = 0, gp_preferred_nw_mode = 0\<rparr>)"

text \<open>The three requests that make up one registration status.\<close>

definition put_reg :: "uril_nw_registration_status_resp \<Rightarrow> ril_rsp \<Rightarrow> ril_rsp" where
  "put_reg s r =
     put_rsp URIL_NW_GET_REGISTRATION_STATUS_RESP_V01
       (sizeof uril_nw_get_registration_status_resp_msg_v01) (Body_reg s) r"

definition handleRilVoiceRegStateResponseV1 ::
    "ril_h \<Rightarrow> RilRequestContext \<Rightarrow> RIL_Errno \<Rightarrow> ril_data \<Rightarrow> handler_result" where
  "handleRilVoiceRegStateResponseV1 H ctx e data =
     (case rsp ctx of
        None \<Rightarrow> Fault Null_deref
      | Some r \<Rightarrow>
          bind_outcome (reg_of_body (r_body r)) (\<lambda>s0.
            let s1 = s0\<lparr>rs_response := rilErrnoToUrilResponse e\<rparr>
            in if e = RIL_E_SUCCESS
               then bind_outcome (strings_of data) (\<lambda>rsp_str.
                 bind_outcome
                   (rilNwRegToUrilNwReg H (rs_voice s1) (entry rsp_str 0) (entry rsp_str 3)
                      (entry rsp_str 13)) (\<lambda>(ok, reg).
                   let s2 = s1\<lparr>rs_voice := reg, rs_voice_follows := (if ok then 1 else 0)\<rparr>;
                       s3 = snd (rilCellToUrilCellVoice H s2 (entry rsp_str 3) (entry rsp_str 1)
                                   (entry rsp_str 2) (entry rsp_str 14))
                   in Ok (True,
                          ctx\<lparr>rsp := Some (put_reg s3 r), isCompleted := False,
                              rilReqId := RIL_REQUEST_DATA_REGISTRATION_STATE\<rparr>,
                          [RIL_REQUEST_DATA_REGISTRATION_STATE])))
               else Ok (True, ctx\<lparr>rsp := Some (put_reg s1 r), isCompleted := True\<rparr>, [])))"

definition handleRilDataRegStateResponseV1 ::
    "ril_h \<Rightarrow> RilRequestContext \<Rightarrow> RIL_Errno \<Rightarrow> ril_data \<Rightarrow> handler_result" where
  "handleRilDataRegStateResponseV1 H ctx e data =
     (case rsp ctx of
        None \<Rightarrow> Fault Null_deref
      | Some r \<Rightarrow>
          bind_outcome (reg_of_body (r_body r)) (\<lambda>s0.
            let s1 = s0\<lparr>rs_response := rilErrnoToUrilResponse e\<rparr>
            in if e = RIL_E_SUCCESS
               then bind_outcome (strings_of data) (\<lambda>rsp_str.
                 bind_outcome
                   (rilNwRegToUrilNwReg H (rs_data s1) (entry rsp_str 0) (entry rsp_str 3)
                      (entry rsp_str 13)) (\<lambda>(ok, reg).
                   let s2 = s1\<lparr>rs_data := reg, rs_data_follows := (if ok then 1 else 0)\<rparr>;
                       s3 = snd (rilCellToUrilCellData H s2 (entry rsp_str 3) (entry rsp_str 1)
                                   (entry rsp_str 2) (entry rsp_str 14))
                   in Ok (True,
                          ctx\<lparr>rsp := Some (put_reg s3 r), isCompleted := False,
                              rilReqId := RIL_REQUEST_OPERATOR\<rparr>,
                          [RIL_REQUEST_OPERATOR])))
               else Ok (True, ctx\<lparr>rsp := Some (put_reg s1 r), isCompleted := True\<rparr>, [])))"

text \<open>
  The operator's numeric name goes into the first cell identity that follows; a name of fewer
  than three characters has no byte behind its third.
\<close>

definition put_mcc_mnc ::
    "string \<Rightarrow> uril_nw_registration_status_resp \<Rightarrow> uril_nw_registration_status_resp outcome" where
  "put_mcc_mnc numeric s =
     (if length numeric < 3 then Fault Out_of_bounds_read
      else let mcc = strncpy numeric 3; mnc = strncpy (drop 3 numeric) 3
           in Ok (if rs_gsm_follows s \<noteq> 0
                  then s\<lparr>rs_gsm := (rs_gsm s)\<lparr>gsm_mcc := mcc, gsm_mnc := mnc\<rparr>\<rparr>
                  else if rs_wcdma_follows s \<noteq> 0
                  then s\<lparr>rs_wcdma := (rs_wcdma s)\<lparr>wcdma_mcc := mcc, wcdma_mnc := mnc\<rparr>\<rparr>
                  else if rs_lte_follows s \<noteq> 0
                  then s\<lparr>rs_lte := (rs_lte s)\<lparr>lte_mcc := mcc, lte_mnc := mnc\<rparr>\<rparr>
                  else s\<lparr>rs_tdscdma := (rs_tdscdma s)\<lparr>tds_mcc := mcc, tds_mnc := mnc\<rparr>\<rparr>))"

definition any_cell_follows :: "uril_nw_registration_status_resp \<Rightarrow> bool" where
  "any_cell_follows s \<longleftrightarrow>
     rs_gsm_follows s \<noteq> 0 \<or> rs_wcdma_follows s \<noteq> 0 \<or> rs_lte_follows s \<noteq> 0
     \<or> rs_tdscdma_follows s \<noteq> 0"

definition handleRilGetOperatorResponseV1 ::
    "RilRequestContext \<Rightarrow> RIL_Errno \<Rightarrow> ril_data \<Rightarrow> handler_result" where
  "handleRilGetOperatorResponseV1 ctx e data =
     (case rsp ctx of
        None \<Rightarrow> Fault Null_deref
      | Some r \<Rightarrow>
          bind_outcome (reg_of_body (r_body r)) (\<lambda>s0.
            let s1 = s0\<lparr>rs_response := rilErrnoToUrilResponse e\<rparr>;
                done = (\<lambda>s. Ok (True, ctx\<lparr>rsp := Some (put_reg s r), isCompleted := True\<rparr>, []))
            in if e = RIL_E_SUCCESS
               then bind_outcome (strings_of data) (\<lambda>rsp_str.
                 case entry rsp_str 2 of
                   Some numeric \<Rightarrow>
                     if any_cell_follows s1 then bind_outcome (put_mcc_mnc numeric s1) done
                     else done s1
                 | None \<Rightarrow> done s1)
               else done s1))"

text \<open>
  The network scan.  Four strings describe a network; an entry whose names or status are
  missing, or whose status is not one of the four words, is not counted and its slot is used
  again.
\<close>

definition scan_status :: "string \<Rightarrow> uril_nw_network_status_t_v01 option" where
  "scan_status s =
     (if s = ''unknown'' then Some URIL_NW_NETWORK_STATUS_NONE_V01
      else if s = ''available'' then Some URIL_NW_NETWORK_STATUS_AVAILABLE_V01
      else if s = ''current'' then Some URIL_NW_NETWORK_STATUS_CURRENT_SERVING_V01
      else if s = ''forbidden'' then Some URIL_NW_NETWORK_STATUS_FORBIDDEN_V01
      else None)"

text \<open>The ends of the two parts of slot \<open>i\<close> the loop writes: the name, then the status.\<close>

definition scan_name_end :: "nat \<Rightarrow> nat" where
  "scan_name_end i =
     end_of uril_nw_scan_resp_msg_v01 [Dot ''entries'', At i, Dot ''operator_name'']"

definition scan_status_end :: "nat \<Rightarrow> nat" where
  "scan_status_end i =
     end_of uril_nw_scan_resp_msg_v01 [Dot ''entries'', At i, Dot ''network_status'']"

fun scan_loop ::
    "nat \<Rightarrow> string option list \<Rightarrow> uril_nw_scan_entry list \<Rightarrow> nat
     \<Rightarrow> (uril_nw_scan_entry list \<times> nat) outcome" where
  "scan_loop cap (ln # sn # numeric # st # rest) entries num_filled =
     (if num_filled < URIL_NW_SCAN_MAX_ENTRY_COUNT_V01
      then if ln \<noteq> None \<and> sn \<noteq> None \<and> numeric \<noteq> None \<and> scan_name_end num_filled > cap
           then Fault Out_of_bounds_write
           else
             bind_outcome
               (rilOperatorNameToUrilOperatorName
                  (se_operator_name (entries ! num_filled)) ln sn numeric)
               (\<lambda>(ok, name).
                  let entries' = entries[num_filled :=
                                   (entries ! num_filled)\<lparr>se_operator_name := name\<rparr>]
                  in case (if ok then Option.bind st scan_status else None) of
                       None \<Rightarrow> scan_loop cap rest entries' num_filled
                     | Some v \<Rightarrow>
                         if scan_status_end num_filled > cap then Fault Out_of_bounds_write
                         else scan_loop cap rest
                           (entries'[num_filled := (entries' ! num_filled)
                              \<lparr>se_network_status := uril_nw_network_status_t_v01_code v\<rparr>])
                           (Suc num_filled))
      else Ok (entries, num_filled))"
| "scan_loop cap rsp_str entries num_filled = Ok (entries, num_filled)"

definition handleRilAvailableNetworksResponseV1 ::
    "nat \<Rightarrow> RilRequestContext \<Rightarrow> RIL_Errno \<Rightarrow> ril_data \<Rightarrow> handler_result" where
  "handleRilAvailableNetworksResponseV1 cap ctx e data =
     (let rs = rilErrnoToUrilResponse e;
          done = (\<lambda>b. complete_with URIL_NW_SCAN_RESP_V01 (sizeof uril_nw_scan_resp_msg_v01) b ctx)
      in if e = RIL_E_SUCCESS
         then bind_outcome (strings_of data) (\<lambda>rsp_str.
                bind_outcome (scan_loop cap rsp_str (sc_entries zero_scan_resp) 0)
                  (\<lambda>(entries, num_filled).
                    done (Body_scan \<lparr>sc_response = rs, sc_entries_follows = 1,
                            sc_entries_len = of_nat num_filled, sc_entries = entries\<rparr>)))
         else done (Body_response rs))"

definition handleRilSetScreenStateResponseV1 :: "RilRequestContext \<Rightarrow> RIL_Errno \<Rightarrow> handler_result" where
  "handleRilSetScreenStateResponseV1 ctx e =
     complete_with URIL_NW_SET_SCREEN_RESP_V01 (sizeof uril_nw_set_screen_state_resp_msg_v01)
       (Body_response (rilErrnoToUrilResponse e)) ctx"

definition handleRilSetNetworkSelectionResponseV1 ::
    "RilRequestContext \<Rightarrow> RIL_Errno \<Rightarrow> handler_result" where
  "handleRilSetNetworkSelectionResponseV1 ctx e =
     complete_with URIL_NW_SELECTION_RESP_V01 (sizeof uril_nw_selection_resp_msg_v01)
       (Body_response (rilErrnoToUrilResponse e)) ctx"

text \<open>
  Signal strength: the structure grew with the RIL versions, so only the part covered by
  \<open>data_len\<close> is read.  One of GSM, LTE and TD-SCDMA follows; the \<open>int\<close> values are narrowed
  to bytes.
\<close>

definition signal_of ::
    "ril_h \<Rightarrow> RIL_SignalStrength \<Rightarrow> nat \<Rightarrow> uril_nw_signal_strength_resp
     \<Rightarrow> uril_nw_signal_strength_resp" where
  "signal_of H s data_len r =
     (if gw_signalStrength s \<noteq> 99 \<or> gw_bitErrorRate s \<noteq> 99
      then r\<lparr>sg_gsm_follows := 1, sg_gsm_rssi := ucast (gw_signalStrength s)\<rparr>
      else if data_len \<ge> sizeof_signal_v6 H
              \<and> (lte_signalStrength s \<noteq> 99 \<or> lte_rsrp s \<noteq> INT_MAX \<or> lte_rsrq s \<noteq> INT_MAX
                 \<or> lte_rssnr s \<noteq> INT_MAX)
      then r\<lparr>sg_lte_follows := 1,
             sg_lte_rssi := ucast (lte_signalStrength s),
             sg_lte_rsrq := ucast (lte_rsrq s),
             sg_lte_rsrp := ucast (lte_rsrp s),
             sg_lte_snr := ucast (lte_rssnr s)\<rparr>
      else if data_len \<ge> sizeof_signal_v10 H \<and> td_rscp s \<noteq> INT_MAX
      then r\<lparr>sg_tdscdma_follows := 1, sg_tdscdma_rscp := ucast (td_rscp s)\<rparr>
      else r)"

definition handleRilGetSignalStrengthResponseV1 ::
    "ril_h \<Rightarrow> RilRequestContext \<Rightarrow> RIL_Errno \<Rightarrow> ril_data \<Rightarrow> handler_result" where
  "handleRilGetSignalStrengthResponseV1 H ctx e data =
     (let r = zero_signal_resp\<lparr>sg_response := rilErrnoToUrilResponse e\<rparr>;
          done = (\<lambda>b. complete_with URIL_NW_GET_SIGNAL_STRENGTH_RESP_V01
                        (sizeof uril_nw_get_signal_strength_resp_msg_v01) (Body_signal b) ctx)
      in if e = RIL_E_SUCCESS
         then (case data of
                 Data_signal s data_len \<Rightarrow>
                   if data_len < sizeof_signal_v5 H then Fault Assert_failed
                   else done (signal_of H s data_len r)
               | Data_null \<Rightarrow>
                   if 0 < sizeof_signal_v5 H then Fault Assert_failed else Fault Null_deref
               | _ \<Rightarrow> Fault Type_confusion)
         else done r)"

section \<open>Radio and data handlers\<close>

definition handleRilSetRadioModeV1 :: "RilRequestContext \<Rightarrow> RIL_Errno \<Rightarrow> handler_result" where
  "handleRilSetRadioModeV1 ctx e =
     complete_with URIL_RADIO_SET_RADIO_MODE_RESP_V01 (sizeof uril_radio_set_radio_mode_resp_msg_v01)
       (Body_response (rilErrnoToUrilResponse e)) ctx"

text \<open>\<open>memset(&rsp, 0, sizeof(rsp)); memcpy(&rsp, data, n)\<close>, read as a data call structure.\<close>

definition load_call :: "ril_h \<Rightarrow> u8 list \<Rightarrow> RIL_Data_Call_Response" where
  "load_call H bs = view_call H (overlay bs (replicate (sizeof_call_v11 H) 0))"

definition raw_bytes :: "ril_data \<Rightarrow> u8 list outcome" where
  "raw_bytes data =
     (case data of Data_bytes bs \<Rightarrow> Ok bs | Data_null \<Rightarrow> Ok [] | _ \<Rightarrow> Fault Type_confusion)"

definition setup_call_end :: nat where
  "setup_call_end = end_of uril_data_setup_data_call_resp_msg_v01 [Dot ''data_call'', Dot ''mtu'']"

definition handleRilSetupDataCallV1 ::
    "nat \<Rightarrow> ril_h \<Rightarrow> RilRequestContext \<Rightarrow> RIL_Errno \<Rightarrow> ril_data \<Rightarrow> handler_result" where
  "handleRilSetupDataCallV1 cap H ctx e data =
     (let rs = rilErrnoToUrilResponse e;
          done = (\<lambda>b. complete_with URIL_DATA_SETUP_DATA_CALL_RESP_V01
                        (sizeof uril_data_setup_data_call_resp_msg_v01) b ctx)
      in if e = RIL_E_SUCCESS
         then bind_outcome (raw_bytes data) (\<lambda>bs.
                if length bs < sizeof_call_v6 H \<or> length bs > sizeof_call_v11 H
                then Fault Assert_failed
                else bind_outcome
                  (rilDataCallResponseToIRilDataCallInfo H zero_data_call (load_call H bs))
                  (\<lambda>call. if setup_call_end > cap then Fault Out_of_bounds_write
                          else done (Body_setup_call \<lparr>sd_response = rs, sd_data_call = call\<rparr>)))
         else done (Body_response rs))"

definition handleRilDeactivateDataCallV1 :: "RilRequestContext \<Rightarrow> RIL_Errno \<Rightarrow> handler_result" where
  "handleRilDeactivateDataCallV1 ctx e =
     complete_with URIL_DATA_DEACTIVATE_DATA_CALL_RESP_V01
       (sizeof uril_data_deactivate_data_call_resp_msg_v01)
       (Body_response (rilErrnoToUrilResponse e)) ctx"

text \<open>
  The size of one element of a data call list is not transmitted: the first version whose size
  divides the length is taken.
\<close>

definition call_version :: "ril_h \<Rightarrow> nat \<Rightarrow> nat option" where
  "call_version H data_len =
     (if data_len mod sizeof_call_v6 H = 0 then Some (sizeof_call_v6 H)
      else if data_len mod sizeof_call_v9 H = 0 then Some (sizeof_call_v9 H)
      else if data_len mod sizeof_call_v11 H = 0 then Some (sizeof_call_v11 H)
      else None)"

definition call_slot_end :: "nat \<Rightarrow> nat" where
  "call_slot_end i =
     end_of uril_data_get_data_call_list_resp_msg_v01 [Dot ''data_calls'', At i, Dot ''mtu'']"

fun call_loop ::
    "nat \<Rightarrow> ril_h \<Rightarrow> nat \<Rightarrow> u8 list \<Rightarrow> nat \<Rightarrow> uril_data_call_info list \<Rightarrow> nat
     \<Rightarrow> (uril_data_call_info list \<times> nat) outcome" where
  "call_loop cap H sz bs 0 calls i = Ok (calls, i)"
| "call_loop cap H sz bs (Suc k) calls i =
     (if i < URIL_DATA_MAX_CALLS_COUNT_V01
      then bind_outcome
             (rilDataCallResponseToIRilDataCallInfo H (calls ! i)
                (load_call H (bytes_at (i * sz) sz bs)))
             (\<lambda>call. if call_slot_end i > cap then Fault Out_of_bounds_write
                     else call_loop cap H sz bs k (calls[i := call]) (Suc i))
      else Ok (calls, i))"

definition handleRilGetDataCallListV1 ::
    "nat \<Rightarrow> ril_h \<Rightarrow> RilRequestContext \<Rightarrow> RIL_Errno \<Rightarrow> ril_data \<Rightarrow> handler_result" where
  "handleRilGetDataCallListV1 cap H ctx e data =
     (let rs = rilErrnoToUrilResponse e;
          done = (\<lambda>b. complete_with URIL_DATA_GET_DATA_CALL_LIST_RESP_V01
                        (sizeof uril_data_get_data_call_list_resp_msg_v01) b ctx)
      in if e = RIL_E_SUCCESS
         then bind_outcome (raw_bytes data) (\<lambda>bs.
                case call_version H (length bs) of
                  None \<Rightarrow> Fault Assert_failed
                | Some sz \<Rightarrow>
                    bind_outcome
                      (call_loop cap H sz bs (length bs div sz) (cl_data_calls zero_call_list) 0)
                      (\<lambda>(calls, i). done (Body_call_list
                         \<lparr>cl_response = rs, cl_data_calls_len = of_nat i, cl_data_calls = calls\<rparr>)))
         else done (Body_response rs))"

definition handleRilSetInitialAttachParamsV1 ::
    "RilRequestContext \<Rightarrow> RIL_Errno \<Rightarrow> handler_result" where
  "handleRilSetInitialAttachParamsV1 ctx e =
     complete_with URIL_DATA_SET_INITIAL_ATTACH_PARAMS_RESP_V01
       (sizeof uril_data_set_initial_params_resp_msg_v01)
       (Body_response (rilErrnoToUrilResponse e)) ctx"

section \<open>Choosing the handler\<close>

text \<open>The \<open>switch\<close> of \<open>handleRilResponse\<close>.\<close>

fun dispatch_response ::
    "ril_h \<Rightarrow> RilRequestContext \<Rightarrow> RIL_Errno \<Rightarrow> ril_data \<Rightarrow> ril_request \<Rightarrow> handler_result" where
  "dispatch_response H ctx e data RIL_REQUEST_SET_PREFERRED_NETWORK_TYPE =
     handleRilSetNetworkPrefResponseV1 ctx e"
| "dispatch_response H ctx e data RIL_REQUEST_GET_PREFERRED_NETWORK_TYPE =
     handleRilGetNetworkPrefResponseV1 H ctx e data"
| "dispatch_response H ctx e data RIL_REQUEST_VOICE_REGISTRATION_STATE =
     handleRilVoiceRegStateResponseV1 H ctx e data"
| "dispatch_response H ctx e data RIL_REQUEST_DATA_REGISTRATION_STATE =
     handleRilDataRegStateResponseV1 H ctx e data"
| "dispatch_response H ctx e data RIL_REQUEST_OPERATOR =
     handleRilGetOperatorResponseV1 ctx e data"
| "dispatch_response H ctx e data RIL_REQUEST_QUERY_AVAILABLE_NETWORKS =
     handleRilAvailableNetworksResponseV1 MAX_URIL_PAYLOAD_SIZE ctx e data"
| "dispatch_response H ctx e data RIL_REQUEST_SCREEN_STATE =
     handleRilSetScreenStateResponseV1 ctx e"
| "dispatch_response H ctx e data RIL_REQUEST_SET_NETWORK_SELECTION_AUTOMATIC =
     handleRilSetNetworkSelectionResponseV1 ctx e"
| "dispatch_response H ctx e data RIL_REQUEST_SET_NETWORK_SELECTION_MANUAL =
     handleRilSetNetworkSelectionResponseV1 ctx e"
| "dispatch_response H ctx e data RIL_REQUEST_SIGNAL_STRENGTH =
     handleRilGetSignalStrengthResponseV1 H ctx e data"
| "dispatch_response H ctx e data RIL_REQUEST_RADIO_POWER =
     handleRilSetRadioModeV1 ctx e"
| "dispatch_response H ctx e data RIL_REQUEST_SETUP_DATA_CALL =
     handleRilSetupDataCallV1 MAX_URIL_PAYLOAD_SIZE H ctx e data"
| "dispatch_response H ctx e data RIL_REQUEST_DEACTIVATE_DATA_CALL =
     handleRilDeactivateDataCallV1 ctx e"
| "dispatch_response H ctx e data RIL_REQUEST_DATA_CALL_LIST =
     handleRilGetDataCallListV1 MAX_URIL_PAYLOAD_SIZE H ctx e data"
| "dispatch_response H ctx e data RIL_REQUEST_SET_INITIAL_ATTACH_APN =
     handleRilSetInitialAttachParamsV1 ctx e"
| "dispatch_response H ctx e data (RIL_REQUEST_other n) = Ok (False, ctx, [])"

end
