(* ===== verification/Modem_Interface.thy ===== *)
theory Modem_Interface
  imports Uril_Messages
begin

text \<open>
  The two interfaces of the service through which requests go down and responses come up.

  The interface \<open>IModemAdapter\<close> (\<open>service/inc/IModemAdapter.h\<close>) as its clients see it.  Its
  fifteen request methods have one shape (the payload of the request, the unique id, the SIM id,
  giving a boolean and a new state of the adapter), so an adapter is one function \<open>call\<close> of the
  method's name.

  The locale \<open>modem_adapter\<close> is what the processors rely on: a method that returns keeps the
  adapter's own invariant, and one that refuses a request leaves the adapter as it was.
\<close>

datatype modem_op =
    Op_setNetworkPreferenceV1
  | Op_getNetworkPreferenceV1
  | Op_getNetworkRegistrationStatusV1
  | Op_scanNetworkV1
  | Op_setScreenStateV1
  | Op_selectNetworkV1
  | Op_getSignalStrengthV1
  | Op_getCellAccessV1
  | Op_getRadioModeV1
  | Op_setRadioModeV1
  | Op_setDataProfilesV1
  | Op_setupDataCallV1
  | Op_deactivateDataCallV1
  | Op_getDataCallListV1
  | Op_setInitialAttachParamsV1

type_synonym 'a modem_call = "modem_op \<Rightarrow> u8 list \<Rightarrow> u32 \<Rightarrow> u8 \<Rightarrow> 'a \<Rightarrow> (bool \<times> 'a) outcome"

locale modem_adapter =
  fixes call :: "'a modem_call"
    and inv :: "'a \<Rightarrow> bool"
  assumes call_inv: "inv a \<Longrightarrow> call op req uid sid a = Ok (b, a') \<Longrightarrow> inv a'"
    and call_refused: "inv a \<Longrightarrow> call op req uid sid a = Ok (False, a') \<Longrightarrow> a' = a"

text \<open>
  The interface \<open>IResponseProcessor\<close> (\<open>service/inc/IResponseProcessor.h\<close>): what an adapter
  relies on when it passes a response up is that the call returns, with the processor's
  invariant kept.
\<close>

type_synonym 'u response_processor = "'u \<Rightarrow> uril_protocol_msg_t \<Rightarrow> ('u \<times> bool) outcome"

locale response_handler =
  fixes respond :: "'u response_processor"
    and rinv :: "'u \<Rightarrow> bool"
  assumes respond_returns: "rinv u \<Longrightarrow> \<exists>u' b. respond u m = Ok (u', b) \<and> rinv u'"

end
