(* ===== verification/Ril_Adapter.thy ===== *)
theory Ril_Adapter
  imports Ril_Responses Modem_Interface
begin

text \<open>
  The class \<open>AndroidRilAdapter\<close>: its request contexts, the requests it sends to the vendor RIL,
  the callbacks of the vendor RIL, and the threads it detaches.

  The state has the contexts on the heap (\<open>heap\<close>, addressed by the tokens the vendor RIL hands
  back), the threads that are still to send a follow-up request, the calls of
  \<open>funcs->onRequest\<close> made so far, and the state \<open>upper\<close> of the response processor.  The
  response processor is the argument \<open>pr\<close> of the callbacks: a message to its new state and
  the boolean of \<open>processResponse\<close>.

  A request method gets the payload bytes of the request, as the processors cast them.
\<close>

section \<open>State\<close>

text \<open>The \<open>data\<close>, \<open>datalen\<close> of a call of \<open>onRequest\<close>.\<close>

datatype ril_req_data =
    Req_null
  | Req_int u32 nat
  | Req_string string nat
  | Req_strings "string option list" nat
  | Req_attach_apn string string u32 string string

record vendor_call =
  vc_request :: ril_request
  vc_data :: ril_req_data
  vc_token :: nat

record 'u ril_adapter =
  funcs :: bool
  heap :: "nat \<rightharpoonup> RilRequestContext"
  next_token :: nat
  threads :: "(ril_request \<times> nat) list"
  on_requests :: "vendor_call list"
  upper :: 'u

section \<open>Start up\<close>

text \<open>
  \<open>init\<close>: \<open>dlopen\<close>, then \<open>dlsym\<close>, then the call of \<open>RIL_Init\<close>, whose result may be null.
\<close>

definition init_adapter :: "bool \<Rightarrow> bool \<Rightarrow> bool \<Rightarrow> 'u ril_adapter \<Rightarrow> bool \<times> 'u ril_adapter" where
  "init_adapter dlopen_ok dlsym_ok ril_init a =
     (if \<not> dlopen_ok then (False, a)
      else if \<not> dlsym_ok then (False, a)
      else (True, a\<lparr>funcs := ril_init\<rparr>))"

definition new_adapter :: "'u \<Rightarrow> 'u ril_adapter" where
  "new_adapter u =
     \<lparr>funcs = False, heap = Map.empty, next_token = 0, threads = [], on_requests = [], upper = u\<rparr>"

section \<open>Tokens and vendor requests\<close>

definition new_context :: "ril_request \<Rightarrow> u32 \<Rightarrow> u8 \<Rightarrow> RilRequestContext" where
  "new_context r uid sid =
     \<lparr>rilReqId = r, uniqueId = uid, simId = sid, msgId = 0, rsp = None, isCompleted = False\<rparr>"

definition makeTokenForMessage ::
    "ril_request \<Rightarrow> u32 \<Rightarrow> u8 \<Rightarrow> 'u ril_adapter \<Rightarrow> nat \<times> 'u ril_adapter" where
  "makeTokenForMessage r uid sid a =
     (next_token a,
      a\<lparr>heap := (heap a)(next_token a \<mapsto> new_context r uid sid), next_token := Suc (next_token a)\<rparr>)"

definition sendToVendorRil ::
    "ril_request \<Rightarrow> ril_req_data \<Rightarrow> nat \<Rightarrow> 'u ril_adapter \<Rightarrow> (bool \<times> 'u ril_adapter) outcome" where
  "sendToVendorRil request data token a =
     (if funcs a
      then Ok (True, a\<lparr>on_requests := on_requests a @
                  [\<lparr>vc_request = request, vc_data = data, vc_token = token\<rparr>]\<rparr>)
      else Fault Null_deref)"

text \<open>The pattern of the request methods: a token for the message, then the vendor request.\<close>

definition send_request ::
    "ril_request \<Rightarrow> ril_req_data \<Rightarrow> u32 \<Rightarrow> u8 \<Rightarrow> 'u ril_adapter \<Rightarrow> (bool \<times> 'u ril_adapter) outcome"
  where
  "send_request r data uid sid a =
     (let (token, a') = makeTokenForMessage r uid sid a in sendToVendorRil r data token a')"

section \<open>Network requests\<close>

definition setNetworkPreferenceV1 ::
    "ril_h \<Rightarrow> u8 list \<Rightarrow> u32 \<Rightarrow> u8 \<Rightarrow> 'u ril_adapter \<Rightarrow> (bool \<times> 'u ril_adapter) outcome" where
  "setNetworkPreferenceV1 H req uid sid a =
     bind_outcome
       (urilNwPrefToRilNwPref (rd32 uril_nw_set_pref_req_msg_v01 [Dot ''preferred_nw_mode''] req))
       (\<lambda>pref. send_request RIL_REQUEST_SET_PREFERRED_NETWORK_TYPE
                 (Req_int (pref_code H pref) 4) uid sid a)"

definition getNetworkPreferenceV1 ::
    "u8 list \<Rightarrow> u32 \<Rightarrow> u8 \<Rightarrow> 'u ril_adapter \<Rightarrow> (bool \<times> 'u ril_adapter) outcome" where
  "getNetworkPreferenceV1 req uid sid a =
     send_request RIL_REQUEST_GET_PREFERRED_NETWORK_TYPE Req_null uid sid a"

definition getNetworkRegistrationStatusV1 ::
    "u8 list \<Rightarrow> u32 \<Rightarrow> u8 \<Rightarrow> 'u ril_adapter \<Rightarrow> (bool \<times> 'u ril_adapter) outcome" where
  "getNetworkRegistrationStatusV1 req uid sid a =
     send_request RIL_REQUEST_VOICE_REGISTRATION_STATE Req_null uid sid a"

definition scanNetworkV1 ::
    "u8 list \<Rightarrow> u32 \<Rightarrow> u8 \<Rightarrow> 'u ril_adapter \<Rightarrow> (bool \<times> 'u ril_adapter) outcome" where
  "scanNetworkV1 req uid sid a =
     send_request RIL_REQUEST_QUERY_AVAILABLE_NETWORKS Req_null uid sid a"

definition setScreenStateV1 ::
    "u8 list \<Rightarrow> u32 \<Rightarrow> u8 \<Rightarrow> 'u ril_adapter \<Rightarrow> (bool \<times> 'u ril_adapter) outcome" where
  "setScreenStateV1 req uid sid a =
     send_request RIL_REQUEST_SCREEN_STATE
       (Req_int (if rd8 uril_nw_set_screen_state_req_msg_v01 [Dot ''screen_state''] req \<noteq> 0
                 then 1 else 0) 4) uid sid a"

text \<open>
  \<open>selectNetworkV1\<close> passes \<open>sizeof(ril_data_ptr)\<close>, the size of a pointer, as the length of the
  operator's numeric name.
\<close>

definition selection_field :: "string \<Rightarrow> step list" where
  "selection_field f = [Dot ''nw_selection_info'', Dot f]"

definition selectNetworkV1 ::
    "u8 list \<Rightarrow> u32 \<Rightarrow> u8 \<Rightarrow> 'u ril_adapter \<Rightarrow> (bool \<times> 'u ril_adapter) outcome" where
  "selectNetworkV1 req uid sid a =
     (let ty = rd32 uril_nw_selection_req_msg_v01 (selection_field ''nw_selection_type'') req
      in if ty = uril_nw_selection_type_t_v01_code URIL_NW_SELECTION_AUTOMATIC_V01
         then send_request RIL_REQUEST_SET_NETWORK_SELECTION_AUTOMATIC Req_null uid sid a
         else if ty = uril_nw_selection_type_t_v01_code URIL_NW_SELECTION_MANUAL_V01
         then bind_outcome (rd_str uril_nw_selection_req_msg_v01 (selection_field ''mcc'') req) (\<lambda>mcc.
              bind_outcome (rd_str uril_nw_selection_req_msg_v01 (selection_field ''mnc'') req) (\<lambda>mnc.
                send_request RIL_REQUEST_SET_NETWORK_SELECTION_MANUAL
                  (Req_string (snprintf_s (3 + 3 + 1) (mcc @ mnc)) 8) uid sid a))
         else Ok (False, a))"

definition getSignalStrengthV1 ::
    "u8 list \<Rightarrow> u32 \<Rightarrow> u8 \<Rightarrow> 'u ril_adapter \<Rightarrow> (bool \<times> 'u ril_adapter) outcome" where
  "getSignalStrengthV1 req uid sid a =
     send_request RIL_REQUEST_SIGNAL_STRENGTH Req_null uid sid a"

definition getCellAccessV1 ::
    "u8 list \<Rightarrow> u32 \<Rightarrow> u8 \<Rightarrow> 'u ril_adapter \<Rightarrow> (bool \<times> 'u ril_adapter) outcome" where
  "getCellAccessV1 req uid sid a = Ok (False, a)"

section \<open>Radio requests\<close>

text \<open>
  The radio mode is read by a call of \<open>funcs->onStateRequest\<close> in a detached thread, which holds
  the parameters of \<open>getRadioModeV1\<close> by reference.  \<open>frame\<close> is what those references yield:
  \<open>None\<close> when the method has returned and its parameters are gone.
\<close>

definition getRadioModeV1 ::
    "u8 list \<Rightarrow> u32 \<Rightarrow> u8 \<Rightarrow> 'u ril_adapter \<Rightarrow> (bool \<times> 'u ril_adapter) outcome" where
  "getRadioModeV1 req uid sid a = Ok (True, a)"

definition radio_mode_of :: "RIL_RadioState \<Rightarrow> uril_radio_mode_t_v01 outcome" where
  "radio_mode_of st =
     (case st of
        RADIO_STATE_OFF \<Rightarrow> Ok URIL_RADIO_MODE_OFFLINE_V01
      | RADIO_STATE_UNAVAILABLE \<Rightarrow> Ok URIL_RADIO_MODE_UNAVAILABLE_V01
      | RADIO_STATE_ON \<Rightarrow> Ok URIL_RADIO_MODE_ONLINE_V01
      | RADIO_STATE_other n \<Rightarrow> Fault Assert_failed)"

definition radio_mode_msg :: "u32 \<Rightarrow> u8 \<Rightarrow> uril_radio_mode_t_v01 \<Rightarrow> uril_protocol_msg_t" where
  "radio_mode_msg uid sid mode =
     \<lparr>is_indication = 0, unique_id = uid, sim_id = sid,
      msg_id = URIL_RADIO_GET_RADIO_MODE_RESP_V01,
      plen = of_nat (sizeof uril_radio_get_radio_mode_resp_msg_v01),
      payload = take MAX_URIL_PAYLOAD_SIZE
        (enc_radio_mode
           \<lparr>rm_response = \<lparr>rsp_result = uril_result_t_v01_code URIL_RESULT_SUCCESS_V01,
                            rsp_error = uril_error_t_v01_code URIL_ERROR_SUCCESS_V01\<rparr>,
            rm_radio_mode_follows = 1,
            rm_radio_mode = uril_radio_mode_t_v01_code mode\<rparr> @ zero_payload)\<rparr>"

definition radio_mode_thread ::
    "'u response_processor \<Rightarrow> RIL_RadioState \<Rightarrow> (u32 \<times> u8) option \<Rightarrow> 'u ril_adapter
     \<Rightarrow> 'u ril_adapter outcome" where
  "radio_mode_thread pr st frame a =
     (case frame of
        None \<Rightarrow> Fault Use_after_free
      | Some (uid, sid) \<Rightarrow>
          if \<not> funcs a then Fault Null_deref
          else bind_outcome (radio_mode_of st) (\<lambda>mode.
                 map_ok (\<lambda>(u, b). a\<lparr>upper := u\<rparr>) (pr (upper a) (radio_mode_msg uid sid mode))))"

definition setRadioModeV1 ::
    "u8 list \<Rightarrow> u32 \<Rightarrow> u8 \<Rightarrow> 'u ril_adapter \<Rightarrow> (bool \<times> 'u ril_adapter) outcome" where
  "setRadioModeV1 req uid sid a =
     (let mode = rd32 uril_radio_set_radio_mode_req_msg_v01 [Dot ''radio_mode''] req
      in bind_outcome
           (if mode = uril_radio_mode_t_v01_code URIL_RADIO_MODE_OFFLINE_V01 then Ok 0
            else if mode = uril_radio_mode_t_v01_code URIL_RADIO_MODE_ONLINE_V01 then Ok 1
            else Fault Assert_failed)
           (\<lambda>ril_data. send_request RIL_REQUEST_RADIO_POWER (Req_int ril_data 8) uid sid a))"

section \<open>Data requests\<close>

definition setDataProfilesV1 ::
    "u8 list \<Rightarrow> u32 \<Rightarrow> u8 \<Rightarrow> 'u ril_adapter \<Rightarrow> (bool \<times> 'u ril_adapter) outcome" where
  "setDataProfilesV1 req uid sid a = Ok (False, a)"

definition setupDataCallV1 ::
    "ril_h \<Rightarrow> u8 list \<Rightarrow> u32 \<Rightarrow> u8 \<Rightarrow> 'u ril_adapter \<Rightarrow> (bool \<times> 'u ril_adapter) outcome" where
  "setupDataCallV1 H req uid sid a =
     (let t = uril_data_setup_data_call_req_msg_v01
      in bind_outcome (urilDataBearerTechTypeToRilRadioTech (rd32 t [Dot ''rat''] req)) (\<lambda>tech.
         bind_outcome (urilAuthTypeToRilAuthType (rd32 t [Dot ''auth_type''] req)) (\<lambda>auth.
         bind_outcome (urilPdpTypeToRilPdpType (rd32 t [Dot ''pdp_type''] req)) (\<lambda>pdp.
         bind_outcome (rd_str t [Dot ''apn''] req) (\<lambda>apn.
         bind_outcome (rd_str t [Dot ''user''] req) (\<lambda>user.
         bind_outcome (rd_str t [Dot ''password''] req) (\<lambda>password.
           send_request RIL_REQUEST_SETUP_DATA_CALL
             (Req_strings
                [Some (snprintf_s 16 (print_d (rat_code H tech))),
                 Some (snprintf_s 16 (print_d (ucast (rd8 t [Dot ''profile_id''] req)))),
                 Some apn, Some user, Some password,
                 Some (snprintf_s 16 (print_d auth)),
                 Some pdp, None] 64) uid sid a)))))))"

definition deactivateDataCallV1 ::
    "u8 list \<Rightarrow> u32 \<Rightarrow> u8 \<Rightarrow> 'u ril_adapter \<Rightarrow> (bool \<times> 'u ril_adapter) outcome" where
  "deactivateDataCallV1 req uid sid a =
     (let t = uril_data_deactivate_data_call_req_msg_v01
      in send_request RIL_REQUEST_DEACTIVATE_DATA_CALL
           (Req_strings
              [Some (snprintf_s 8 (print_d (ucast (rd8 t [Dot ''cid''] req)))),
               Some (if rd32 t [Dot ''reason''] req
                        = uril_data_call_end_reason_type_t_v01_code URIL_DATA_END_REASON_RADIO_OFF
                     then ''1'' else ''0'')] 16) uid sid a)"

definition getDataCallListV1 ::
    "u8 list \<Rightarrow> u32 \<Rightarrow> u8 \<Rightarrow> 'u ril_adapter \<Rightarrow> (bool \<times> 'u ril_adapter) outcome" where
  "getDataCallListV1 req uid sid a = send_request RIL_REQUEST_DATA_CALL_LIST Req_null uid sid a"

definition setInitialAttachParamsV1 ::
    "u8 list \<Rightarrow> u32 \<Rightarrow> u8 \<Rightarrow> 'u ril_adapter \<Rightarrow> (bool \<times> 'u ril_adapter) outcome" where
  "setInitialAttachParamsV1 req uid sid a =
     (let t = uril_data_set_initial_params_req_msg_v01
      in bind_outcome (rd_str t [Dot ''apn''] req) (\<lambda>apn.
         bind_outcome (urilPdpTypeToRilPdpType (rd32 t [Dot ''pdp_type''] req)) (\<lambda>pdp.
         bind_outcome (urilAuthTypeToRilAuthType (rd32 t [Dot ''auth_type''] req)) (\<lambda>auth.
         bind_outcome (rd_str t [Dot ''user''] req) (\<lambda>user.
         bind_outcome (rd_str t [Dot ''password''] req) (\<lambda>password.
           send_request RIL_REQUEST_SET_INITIAL_ATTACH_APN
             (Req_attach_apn apn pdp auth user password) uid sid a))))))"

section \<open>Callbacks of the vendor RIL\<close>

text \<open>
  \<open>handleRilResponse\<close>: find or allocate the message under construction, run the handler of the
  context's request, and when the response is complete pass it up and free message and context.
  The follow-up request of a handler is sent by a thread, so it is only recorded in \<open>threads\<close>.
  Here a callback is one step; \<open>Ril_Threads\<close> has it in sections, for callbacks that run at the same time.
\<close>

definition fresh_rsp :: "RilRequestContext \<Rightarrow> ril_rsp" where
  "fresh_rsp ctx =
     \<lparr>r_is_indication = 0, r_unique_id = uniqueId ctx, r_sim_id = simId ctx, r_msg_id = 0,
      r_len = 0, r_body = Body_zero\<rparr>"

definition with_rsp :: "RilRequestContext \<Rightarrow> RilRequestContext" where
  "with_rsp ctx = (if rsp ctx = None then ctx\<lparr>rsp := Some (fresh_rsp ctx)\<rparr> else ctx)"

definition handleRilResponse ::
    "ril_h \<Rightarrow> 'u response_processor \<Rightarrow> nat option \<Rightarrow> RIL_Errno \<Rightarrow> ril_data \<Rightarrow> 'u ril_adapter
     \<Rightarrow> (bool \<times> 'u ril_adapter) outcome" where
  "handleRilResponse H pr t e data a =
     (case t of
        None \<Rightarrow> Ok (False, a)
      | Some p \<Rightarrow>
          (case heap a p of
             None \<Rightarrow> Fault Use_after_free
           | Some ctx0 \<Rightarrow>
               let ctx1 = with_rsp ctx0
               in bind_outcome (dispatch_response H ctx1 e data (rilReqId ctx1))
                    (\<lambda>(ret, ctx2, spawned).
                       let a1 = a\<lparr>heap := (heap a)(p \<mapsto> ctx2),
                                  threads := threads a @ map (\<lambda>r. (r, p)) spawned\<rparr>
                       in if ret \<and> isCompleted ctx2
                          then (case rsp ctx2 of
                                  Some m \<Rightarrow>
                                    map_ok (\<lambda>(u, b). (b, a1\<lparr>upper := u,
                                                             heap := (heap a1)(p := None)\<rparr>))
                                      (pr (upper a1) (msg_of_rsp m))
                                | None \<Rightarrow> Ok (ret, a1\<lparr>heap := (heap a1)(p := None)\<rparr>))
                          else Ok (ret, a1))))"

text \<open>A detached thread sends the follow-up request of its context.\<close>

definition follow_up_thread ::
    "ril_request \<Rightarrow> nat \<Rightarrow> 'u ril_adapter \<Rightarrow> (bool \<times> 'u ril_adapter) outcome" where
  "follow_up_thread r p a = sendToVendorRil r Req_null p (a\<lparr>threads := remove1 (r, p) (threads a)\<rparr>)"

text \<open>An indication of the vendor RIL; its number selects the message id, 0 when it is unknown.\<close>

fun unsol_msg_id :: "ril_unsol \<Rightarrow> u32" where
  "unsol_msg_id RIL_UNSOL_RESPONSE_RADIO_STATE_CHANGED = URIL_RADIO_MODE_CHANGED_EVENT_IND_V01"
| "unsol_msg_id RIL_UNSOL_DATA_CALL_LIST_CHANGED = URIL_DATA_CALL_LIST_CHANGED_EVENT_IND_V01"
| "unsol_msg_id RIL_UNSOL_RESPONSE_VOICE_NETWORK_STATE_CHANGED = URIL_NW_REGISTRATION_EVENT_IND_V01"
| "unsol_msg_id RIL_UNSOL_SIGNAL_STRENGTH = URIL_NW_SIGNAL_STRENGTH_EVENT_IND_V01"
| "unsol_msg_id (RIL_UNSOL_other n) = 0"

definition unsol_msg :: "ril_unsol \<Rightarrow> uril_protocol_msg_t" where
  "unsol_msg i =
     \<lparr>is_indication = 1, unique_id = 0, sim_id = 0, msg_id = unsol_msg_id i, plen = 0,
      payload = zero_payload\<rparr>"

definition handleRilUnsolicitedResponse ::
    "'u response_processor \<Rightarrow> ril_unsol \<Rightarrow> 'u ril_adapter \<Rightarrow> (bool \<times> 'u ril_adapter) outcome" where
  "handleRilUnsolicitedResponse pr i a =
     map_ok (\<lambda>(u, b). (b, a\<lparr>upper := u\<rparr>)) (pr (upper a) (unsol_msg i))"

end
