(* ===== verification/Request_Processors.thy ===== *)
theory Request_Processors
  imports Modem_Interface Uril_Enums
begin

text \<open>
  The request processors of the service: the three switches over the message id
  (\<open>service/src/processor/v1\<close>) and the composite that tries its children in turn
  (\<open>CompositeRequestProcessor.cpp\<close>), composed the way
  \<open>UrilConfigBasedFactory::createRequestProcessor\<close> composes them.

  The locale \<open>request_processor\<close> is the contract of \<open>IRequestProcessor\<close>; a composite of
  processors that keep it keeps it.
\<close>

section \<open>The interface\<close>

type_synonym 'a request_processor =
  "uril_protocol_msg_t option \<Rightarrow> 'a \<Rightarrow> (bool \<times> 'a) outcome"

locale request_processor =
  fixes process :: "'a request_processor"
    and inv :: "'a \<Rightarrow> bool"
  assumes process_inv: "inv a \<Longrightarrow> process msg a = Ok (b, a') \<Longrightarrow> inv a'"
    and process_refused: "inv a \<Longrightarrow> process msg a = Ok (False, a') \<Longrightarrow> a' = a"

section \<open>The processors\<close>

text \<open>A call of an adapter's method with the fields of the message.\<close>

definition call_op ::
    "'a modem_call \<Rightarrow> uril_protocol_msg_t \<Rightarrow> 'a \<Rightarrow> modem_op \<Rightarrow> (bool \<times> 'a) outcome" where
  "call_op call m a op = call op (payload m) (unique_id m) (sim_id m) a"

definition network_processRequest :: "'a modem_call \<Rightarrow> 'a request_processor" where
  "network_processRequest call msg a =
     (case msg of
        None \<Rightarrow> Fault Assert_failed
      | Some m \<Rightarrow>
          if msg_id m = URIL_NW_SET_PREF_REQ_V01
          then call_op call m a Op_setNetworkPreferenceV1
          else if msg_id m = URIL_NW_GET_PREF_REQ_V01
          then call_op call m a Op_getNetworkPreferenceV1
          else if msg_id m = URIL_NW_GET_REGISTRATION_STATUS_REQ_V01
          then call_op call m a Op_getNetworkRegistrationStatusV1
          else if msg_id m = URIL_NW_SCAN_REQ_V01
          then call_op call m a Op_scanNetworkV1
          else if msg_id m = URIL_NW_SET_SCREEN_REQ_V01
          then call_op call m a Op_setScreenStateV1
          else if msg_id m = URIL_NW_SELECTION_REQ_V01
          then call_op call m a Op_selectNetworkV1
          else if msg_id m = URIL_NW_GET_SIGNAL_STRENGTH_REQ_V01
          then call_op call m a Op_getSignalStrengthV1
          else if msg_id m = URIL_NW_GET_CELL_ACCESS_STATE_REQ_V01
          then call_op call m a Op_getCellAccessV1
          else Ok (False, a))"

definition radio_processRequest :: "'a modem_call \<Rightarrow> 'a request_processor" where
  "radio_processRequest call msg a =
     (case msg of
        None \<Rightarrow> Fault Assert_failed
      | Some m \<Rightarrow>
          if msg_id m = URIL_RADIO_SET_RADIO_MODE_REQ_V01
          then call_op call m a Op_setRadioModeV1
          else if msg_id m = URIL_RADIO_GET_RADIO_MODE_REQ_V01
          then call_op call m a Op_getRadioModeV1
          else Ok (False, a))"

definition data_processRequest :: "'a modem_call \<Rightarrow> 'a request_processor" where
  "data_processRequest call msg a =
     (case msg of
        None \<Rightarrow> Fault Assert_failed
      | Some m \<Rightarrow>
          if msg_id m = URIL_DATA_SET_DATA_PROFILES_REQ_V01
          then call_op call m a Op_setDataProfilesV1
          else if msg_id m = URIL_DATA_SETUP_DATA_CALL_REQ_V01
          then call_op call m a Op_setupDataCallV1
          else if msg_id m = URIL_DATA_DEACTIVATE_DATA_CALL_REQ_V01
          then call_op call m a Op_deactivateDataCallV1
          else if msg_id m = URIL_DATA_GET_DATA_CALL_LIST_REQ_V01
          then call_op call m a Op_getDataCallListV1
          else if msg_id m = URIL_DATA_SET_INITIAL_ATTACH_PARAMS_REQ_V01
          then call_op call m a Op_setInitialAttachParamsV1
          else Ok (False, a))"

text \<open>\<open>CompositeRequestProcessor\<close>: the first child that answers true ends the loop.\<close>

fun composite_processRequest :: "'a request_processor list \<Rightarrow> 'a request_processor" where
  "composite_processRequest [] msg a = Ok (False, a)"
| "composite_processRequest (child # mChildren) msg a =
     bind_outcome (child msg a) (\<lambda>(ret, a').
       if ret then Ok (True, a') else composite_processRequest mChildren msg a')"

definition addChildRequestProcessor ::
    "'a request_processor list \<Rightarrow> 'a request_processor \<Rightarrow> 'a request_processor list" where
  "addChildRequestProcessor mChildren processor = mChildren @ [processor]"

definition createRequestProcessor :: "'a modem_call \<Rightarrow> 'a request_processor list" where
  "createRequestProcessor call =
     addChildRequestProcessor
       (addChildRequestProcessor
          (addChildRequestProcessor [] (network_processRequest call))
          (radio_processRequest call))
       (data_processRequest call)"

definition uril_processRequest :: "'a modem_call \<Rightarrow> 'a request_processor" where
  "uril_processRequest call = composite_processRequest (createRequestProcessor call)"

section \<open>Contracts\<close>

lemma composite_request_processor:
  assumes "\<forall>p \<in> set ps. request_processor p I"
  shows "request_processor (composite_processRequest ps) I"
proof
  fix a a' msg b
  assume "I a" and "composite_processRequest ps msg a = Ok (b, a')"
  with assms show "I a'"
    by (induction ps arbitrary: a)
      (auto simp: outcome_simps split: if_splits dest: request_processor.process_inv)
next
  fix a a' msg
  assume "I a" and "composite_processRequest ps msg a = Ok (False, a')"
  with assms show "a' = a"
    by (induction ps arbitrary: a)
      (auto simp: outcome_simps split: if_splits dest: request_processor.process_refused
        request_processor.process_inv)
qed

lemmas processor_defs = network_processRequest_def radio_processRequest_def data_processRequest_def

context modem_adapter
begin

lemma call_op_inv: "inv a \<Longrightarrow> call_op call m a op = Ok (b, a') \<Longrightarrow> inv a'"
  by (auto simp: call_op_def intro: call_inv)

lemma call_op_refused: "inv a \<Longrightarrow> call_op call m a op = Ok (False, a') \<Longrightarrow> a' = a"
  by (auto simp: call_op_def intro: call_refused)

end

sublocale modem_adapter \<subseteq> network: request_processor "network_processRequest call" inv
  by unfold_locales
    (auto simp: network_processRequest_def dest: call_op_inv call_op_refused
      split: option.splits if_splits)

sublocale modem_adapter \<subseteq> radio: request_processor "radio_processRequest call" inv
  by unfold_locales
    (auto simp: radio_processRequest_def dest: call_op_inv call_op_refused
      split: option.splits if_splits)

sublocale modem_adapter \<subseteq> data: request_processor "data_processRequest call" inv
  by unfold_locales
    (auto simp: data_processRequest_def dest: call_op_inv call_op_refused
      split: option.splits if_splits)

sublocale modem_adapter \<subseteq> uril: request_processor "uril_processRequest call" inv
  unfolding uril_processRequest_def createRequestProcessor_def addChildRequestProcessor_def
  by (rule composite_request_processor)
    (simp add: network.request_processor_axioms radio.request_processor_axioms
      data.request_processor_axioms)

section \<open>The table of the requests\<close>

text \<open>Which method a message id stands for: the three switches as one table.\<close>

definition op_table :: "(u32 \<times> modem_op) list" where
  "op_table =
     [(URIL_NW_SET_PREF_REQ_V01, Op_setNetworkPreferenceV1),
      (URIL_NW_GET_PREF_REQ_V01, Op_getNetworkPreferenceV1),
      (URIL_NW_GET_REGISTRATION_STATUS_REQ_V01, Op_getNetworkRegistrationStatusV1),
      (URIL_NW_SCAN_REQ_V01, Op_scanNetworkV1),
      (URIL_NW_SET_SCREEN_REQ_V01, Op_setScreenStateV1),
      (URIL_NW_SELECTION_REQ_V01, Op_selectNetworkV1),
      (URIL_NW_GET_SIGNAL_STRENGTH_REQ_V01, Op_getSignalStrengthV1),
      (URIL_NW_GET_CELL_ACCESS_STATE_REQ_V01, Op_getCellAccessV1),
      (URIL_RADIO_SET_RADIO_MODE_REQ_V01, Op_setRadioModeV1),
      (URIL_RADIO_GET_RADIO_MODE_REQ_V01, Op_getRadioModeV1),
      (URIL_DATA_SET_DATA_PROFILES_REQ_V01, Op_setDataProfilesV1),
      (URIL_DATA_SETUP_DATA_CALL_REQ_V01, Op_setupDataCallV1),
      (URIL_DATA_DEACTIVATE_DATA_CALL_REQ_V01, Op_deactivateDataCallV1),
      (URIL_DATA_GET_DATA_CALL_LIST_REQ_V01, Op_getDataCallListV1),
      (URIL_DATA_SET_INITIAL_ATTACH_PARAMS_REQ_V01, Op_setInitialAttachParamsV1)]"

lemma op_table_distinct: "distinct (map fst op_table) \<and> distinct (map snd op_table)"
  unfolding op_table_def by (simp add: code_simps)

text \<open>
  The composite's behaviour as one lookup: the method the table gives is called once, and a
  refusal passes through every other child without a further call.
\<close>

lemma bind_return_pair:
  "bind_outcome m (\<lambda>(ret, a'). if ret then Ok (True, a') else Ok (False, a')) = m"
  by (cases m) auto

lemma uril_processRequest_table_aux:
  "uril_processRequest call (Some m) a =
     (case map_of op_table (msg_id m) of
        None \<Rightarrow> Ok (False, a)
      | Some op \<Rightarrow> call_op call m a op)"
proof -
  note unfold = uril_processRequest_def createRequestProcessor_def addChildRequestProcessor_def
    processor_defs op_table_def
  show ?thesis
  proof (cases "msg_id m \<in> fst ` set op_table")
    case True
    then show ?thesis
      unfolding op_table_def
      by (auto simp: unfold code_simps bind_return_pair cong: if_cong)
  next
    case False
    then show ?thesis
      by (simp add: unfold)
  qed
qed

end
