(* ===== verification/Ril_System.thy ===== *)
theory Ril_System
  imports Ril_Adapter Request_Processors
begin

text \<open>
  The adapter and its environment: clients call the request methods, the vendor RIL answers each
  request it was sent once and in any order, detached threads run when they like, indications
  arrive at any time.  \<open>ril_step\<close> is one such event; \<open>ril_inv\<close> ties the contexts on the heap
  to the answers the vendor RIL still owes and the threads that are still to run.
\<close>

section \<open>The methods by name\<close>

fun android_call :: "ril_h \<Rightarrow> 'u ril_adapter modem_call" where
  "android_call H Op_setNetworkPreferenceV1 = setNetworkPreferenceV1 H"
| "android_call H Op_getNetworkPreferenceV1 = getNetworkPreferenceV1"
| "android_call H Op_getNetworkRegistrationStatusV1 = getNetworkRegistrationStatusV1"
| "android_call H Op_scanNetworkV1 = scanNetworkV1"
| "android_call H Op_setScreenStateV1 = setScreenStateV1"
| "android_call H Op_selectNetworkV1 = selectNetworkV1"
| "android_call H Op_getSignalStrengthV1 = getSignalStrengthV1"
| "android_call H Op_getCellAccessV1 = getCellAccessV1"
| "android_call H Op_getRadioModeV1 = getRadioModeV1"
| "android_call H Op_setRadioModeV1 = setRadioModeV1"
| "android_call H Op_setDataProfilesV1 = setDataProfilesV1"
| "android_call H Op_setupDataCallV1 = setupDataCallV1 H"
| "android_call H Op_deactivateDataCallV1 = deactivateDataCallV1"
| "android_call H Op_getDataCallListV1 = getDataCallListV1"
| "android_call H Op_setInitialAttachParamsV1 = setInitialAttachParamsV1"

text \<open>The vendor request a method sends when it sends one.\<close>

fun first_request :: "modem_op \<Rightarrow> ril_request set" where
  "first_request Op_setNetworkPreferenceV1 = {RIL_REQUEST_SET_PREFERRED_NETWORK_TYPE}"
| "first_request Op_getNetworkPreferenceV1 = {RIL_REQUEST_GET_PREFERRED_NETWORK_TYPE}"
| "first_request Op_getNetworkRegistrationStatusV1 = {RIL_REQUEST_VOICE_REGISTRATION_STATE}"
| "first_request Op_scanNetworkV1 = {RIL_REQUEST_QUERY_AVAILABLE_NETWORKS}"
| "first_request Op_setScreenStateV1 = {RIL_REQUEST_SCREEN_STATE}"
| "first_request Op_selectNetworkV1 =
     {RIL_REQUEST_SET_NETWORK_SELECTION_AUTOMATIC, RIL_REQUEST_SET_NETWORK_SELECTION_MANUAL}"
| "first_request Op_getSignalStrengthV1 = {RIL_REQUEST_SIGNAL_STRENGTH}"
| "first_request Op_getCellAccessV1 = {}"
| "first_request Op_getRadioModeV1 = {}"
| "first_request Op_setRadioModeV1 = {RIL_REQUEST_RADIO_POWER}"
| "first_request Op_setDataProfilesV1 = {}"
| "first_request Op_setupDataCallV1 = {RIL_REQUEST_SETUP_DATA_CALL}"
| "first_request Op_deactivateDataCallV1 = {RIL_REQUEST_DEACTIVATE_DATA_CALL}"
| "first_request Op_getDataCallListV1 = {RIL_REQUEST_DATA_CALL_LIST}"
| "first_request Op_setInitialAttachParamsV1 = {RIL_REQUEST_SET_INITIAL_ATTACH_APN}"

lemma send_request_Ok_iff:
  "send_request r data uid sid a = Ok (b, a') \<longleftrightarrow>
     funcs a \<and> b \<and>
     a' = a\<lparr>heap := (heap a)(next_token a \<mapsto> new_context r uid sid),
            next_token := Suc (next_token a),
            on_requests := on_requests a @
              [\<lparr>vc_request = r, vc_data = data, vc_token = next_token a\<rparr>]\<rparr>"
  by (auto simp: send_request_def makeTokenForMessage_def sendToVendorRil_def)

lemmas method_defs =
  setNetworkPreferenceV1_def getNetworkPreferenceV1_def getNetworkRegistrationStatusV1_def
  scanNetworkV1_def setScreenStateV1_def selectNetworkV1_def getSignalStrengthV1_def
  getCellAccessV1_def getRadioModeV1_def setRadioModeV1_def setDataProfilesV1_def
  setupDataCallV1_def deactivateDataCallV1_def getDataCallListV1_def setInitialAttachParamsV1_def

text \<open>A method that returns either changed nothing or sent exactly one request, with a new token.\<close>

lemma android_call_cases:
  assumes "android_call H op req uid sid a = Ok (b, a')"
  shows "a' = a \<or> (\<exists>r data. r \<in> first_request op \<and> b \<and> send_request r data uid sid a = Ok (True, a'))"
  using assms
  by (cases op)
    (auto simp: method_defs Let_def outcome_simps send_request_Ok_iff split: if_splits)

section \<open>Handlers\<close>

text \<open>The vendor answers a context still needs, counting the one for \<open>r\<close>.\<close>

fun answers_left :: "ril_request \<Rightarrow> nat" where
  "answers_left RIL_REQUEST_VOICE_REGISTRATION_STATE = 3"
| "answers_left RIL_REQUEST_DATA_REGISTRATION_STATE = 2"
| "answers_left r = 1"

definition same_owner :: "RilRequestContext \<Rightarrow> ril_rsp \<Rightarrow> bool" where
  "same_owner ctx m \<longleftrightarrow>
     r_is_indication m = 0 \<and> r_unique_id m = uniqueId ctx \<and> r_sim_id m = simId ctx"

text \<open>What a handler that returns has done to its context.\<close>

definition handled :: "RilRequestContext \<Rightarrow> bool \<times> RilRequestContext \<times> ril_request list \<Rightarrow> bool" where
  "handled ctx res \<longleftrightarrow>
     (case res of (ret, ctx', spawned) \<Rightarrow>
        ret \<and> uniqueId ctx' = uniqueId ctx \<and> simId ctx' = simId ctx
        \<and> (\<exists>m. rsp ctx' = Some m \<and> same_owner ctx' m
             \<and> (isCompleted ctx' \<and> spawned = []
                \<or> \<not> isCompleted ctx' \<and> spawned = [rilReqId ctx']
                  \<and> answers_left (rilReqId ctx') < answers_left (rilReqId ctx)
                  \<and> (\<forall>n. rilReqId ctx' \<noteq> RIL_REQUEST_other n)
                  \<and> (\<exists>s. r_body m = Body_reg s))))"

lemma handled_complete_with:
  assumes "rsp ctx = Some m" and "same_owner ctx m" and "complete_with mid n b ctx = Ok res"
  shows "handled ctx res"
  using assms by (auto simp: handled_def complete_with_def put_rsp_def same_owner_def)

lemmas handler_defs =
  handleRilSetNetworkPrefResponseV1_def handleRilGetNetworkPrefResponseV1_def
  handleRilAvailableNetworksResponseV1_def handleRilSetScreenStateResponseV1_def
  handleRilSetNetworkSelectionResponseV1_def handleRilGetSignalStrengthResponseV1_def
  handleRilSetRadioModeV1_def handleRilSetupDataCallV1_def handleRilDeactivateDataCallV1_def
  handleRilGetDataCallListV1_def handleRilSetInitialAttachParamsV1_def

lemma handled_voice:
  assumes "rsp ctx = Some m" and "same_owner ctx m"
    and "rilReqId ctx = RIL_REQUEST_VOICE_REGISTRATION_STATE"
    and "handleRilVoiceRegStateResponseV1 H ctx e data = Ok res"
  shows "handled ctx res"
  using assms
  by (auto simp: handleRilVoiceRegStateResponseV1_def outcome_simps Let_def handled_def
      same_owner_def put_reg_def put_rsp_def split: if_splits)

lemma handled_data:
  assumes "rsp ctx = Some m" and "same_owner ctx m"
    and "rilReqId ctx = RIL_REQUEST_DATA_REGISTRATION_STATE"
    and "handleRilDataRegStateResponseV1 H ctx e data = Ok res"
  shows "handled ctx res"
  using assms
  by (auto simp: handleRilDataRegStateResponseV1_def outcome_simps Let_def handled_def
      same_owner_def put_reg_def put_rsp_def split: if_splits)

lemma operator_result:
  assumes "rsp ctx = Some m" and "handleRilGetOperatorResponseV1 ctx e data = Ok res"
  shows "\<exists>s. res = (True, ctx\<lparr>rsp := Some (put_reg s m), isCompleted := True\<rparr>, [])"
  using assms
  by (simp add: handleRilGetOperatorResponseV1_def outcome_simps Let_def
      split: if_splits option.splits) auto

lemma handled_operator:
  assumes "rsp ctx = Some m" and "same_owner ctx m"
    and "handleRilGetOperatorResponseV1 ctx e data = Ok res"
  shows "handled ctx res"
  using operator_result [OF assms(1,3)] assms(2)
  by (auto simp: handled_def same_owner_def put_reg_def put_rsp_def)

lemma handled_dispatch:
  assumes "rsp ctx = Some m" and "same_owner ctx m" and "\<forall>n. rilReqId ctx \<noteq> RIL_REQUEST_other n"
    and "dispatch_response H ctx e data (rilReqId ctx) = Ok res"
  shows "handled ctx res"
proof -
  consider (reg) "rilReqId ctx \<in> {RIL_REQUEST_VOICE_REGISTRATION_STATE,
                    RIL_REQUEST_DATA_REGISTRATION_STATE, RIL_REQUEST_OPERATOR}"
    | (one) "\<exists>mid n b. complete_with mid n b ctx = Ok res"
    using assms(3,4)
    by (cases "rilReqId ctx")
      (auto simp: handler_defs Let_def outcome_simps
        split: if_splits ril_data.splits option.splits prod.splits, blast)
  then show ?thesis
  proof cases
    case one
    with assms(1,2) show ?thesis by (auto intro: handled_complete_with)
  next
    case reg
    with assms show ?thesis
      by (auto intro: handled_voice handled_data handled_operator)
  qed
qed

text \<open>A context that is still in flight.\<close>

definition ctx_ok :: "RilRequestContext \<Rightarrow> bool" where
  "ctx_ok ctx \<longleftrightarrow>
     \<not> isCompleted ctx \<and> (\<forall>n. rilReqId ctx \<noteq> RIL_REQUEST_other n)
     \<and> (rsp ctx = None \<or> (\<exists>m s. rsp ctx = Some m \<and> same_owner ctx m \<and> r_body m = Body_reg s))"

lemma ctx_ok_new: "r \<in> first_request op \<Longrightarrow> ctx_ok (new_context r uid sid)"
  by (cases op) (auto simp: ctx_ok_def new_context_def)

lemma with_rsp_same [simp]:
  "rilReqId (with_rsp ctx) = rilReqId ctx" "uniqueId (with_rsp ctx) = uniqueId ctx"
  "simId (with_rsp ctx) = simId ctx"
  by (simp_all add: with_rsp_def)

lemma with_rsp_some:
  assumes "ctx_ok ctx"
  obtains m where "rsp (with_rsp ctx) = Some m" and "same_owner (with_rsp ctx) m"
  using assms by (auto simp: ctx_ok_def with_rsp_def fresh_rsp_def same_owner_def)

text \<open>
  A callback that returns for a context in flight either passed one message up, with the ids
  of the request, and freed the context, or left the context in flight with fewer answers to go
  and one thread that will send the follow-up request.
\<close>

lemma answer_cases:
  assumes "heap a p = Some ctx" and "ctx_ok ctx"
    and "handleRilResponse H pr (Some p) e data a = Ok (b, a')"
  shows "(\<exists>m u. same_owner ctx m \<and> pr (upper a) (msg_of_rsp m) = Ok (u, b)
             \<and> a' = a\<lparr>heap := (heap a)(p := None), upper := u\<rparr>)
       \<or> (\<exists>ctx'. ctx_ok ctx' \<and> uniqueId ctx' = uniqueId ctx \<and> simId ctx' = simId ctx
             \<and> answers_left (rilReqId ctx') < answers_left (rilReqId ctx)
             \<and> a' = a\<lparr>heap := (heap a)(p \<mapsto> ctx'),
                       threads := threads a @ [(rilReqId ctx', p)]\<rparr>)"
proof -
  obtain m where m: "rsp (with_rsp ctx) = Some m" "same_owner (with_rsp ctx) m"
    using with_rsp_some [OF assms(2)] .
  obtain ret ctx2 spawned where d:
    "dispatch_response H (with_rsp ctx) e data (rilReqId ctx) = Ok (ret, ctx2, spawned)"
    using assms(1,3) by (auto simp: handleRilResponse_def outcome_simps Let_def split: prod.splits)
  have "handled (with_rsp ctx) (ret, ctx2, spawned)"
    using m d assms(2) by (auto intro: handled_dispatch simp: ctx_ok_def)
  then obtain m2 where h: "ret" "uniqueId ctx2 = uniqueId ctx" "simId ctx2 = simId ctx"
    "rsp ctx2 = Some m2" "same_owner ctx2 m2"
    "isCompleted ctx2 \<and> spawned = []
     \<or> \<not> isCompleted ctx2 \<and> spawned = [rilReqId ctx2]
       \<and> answers_left (rilReqId ctx2) < answers_left (rilReqId ctx)
       \<and> (\<forall>n. rilReqId ctx2 \<noteq> RIL_REQUEST_other n) \<and> (\<exists>s. r_body m2 = Body_reg s)"
    by (auto simp: handled_def)
  from h(6) show ?thesis
  proof
    assume c: "isCompleted ctx2 \<and> spawned = []"
    then obtain u where u: "pr (upper a) (msg_of_rsp m2) = Ok (u, b)"
      "a' = a\<lparr>heap := (heap a)(p := None), upper := u\<rparr>"
      using assms(1,3) d h(1,4)
      by (auto simp: handleRilResponse_def outcome_simps Let_def split: prod.splits)
    have "same_owner ctx m2" using h(2,3,5) by (simp add: same_owner_def)
    with u show ?thesis by blast
  next
    assume c: "\<not> isCompleted ctx2 \<and> spawned = [rilReqId ctx2]
       \<and> answers_left (rilReqId ctx2) < answers_left (rilReqId ctx)
       \<and> (\<forall>n. rilReqId ctx2 \<noteq> RIL_REQUEST_other n) \<and> (\<exists>s. r_body m2 = Body_reg s)"
    then have a': "a' = a\<lparr>heap := (heap a)(p \<mapsto> ctx2),
                         threads := threads a @ [(rilReqId ctx2, p)]\<rparr>"
      using assms(1,3) d h(1,4)
      by (auto simp: handleRilResponse_def outcome_simps Let_def)
    have "ctx_ok ctx2" using c h(4,5) by (auto simp: ctx_ok_def)
    with a' c h(2,3) show ?thesis by blast
  qed
qed

section \<open>The adapter provides the interface\<close>

definition contexts_ok :: "'u ril_adapter \<Rightarrow> bool" where
  "contexts_ok a \<longleftrightarrow>
     (\<forall>p ctx. heap a p = Some ctx \<longrightarrow> ctx_ok ctx \<and> p < next_token a)"

interpretation android: modem_adapter "android_call H" contexts_ok for H
proof unfold_locales
  fix a a' :: "'u ril_adapter" and op req uid sid b
  assume inv: "contexts_ok a" and call: "android_call H op req uid sid a = Ok (b, a')"
  from android_call_cases [OF call] show "contexts_ok a'"
  proof (elim disjE exE conjE)
    fix r data assume "r \<in> first_request op" and "send_request r data uid sid a = Ok (True, a')"
    with inv ctx_ok_new [of r op uid sid] show ?thesis
      by (auto simp: contexts_ok_def send_request_Ok_iff less_Suc_eq)
  qed (use inv in simp)
next
  fix a a' :: "'u ril_adapter" and op req uid sid
  assume "android_call H op req uid sid a = Ok (False, a')"
  then show "a' = a" by (auto dest: android_call_cases)
qed

end
