(* ===== verification/Ril_Steps.thy ===== *)
theory Ril_Steps
  imports Ril_System "HOL-Library.Multiset"
begin

text \<open>
  The adapter in its environment, as a step relation.  The world is the adapter, the tokens the
  vendor RIL still owes an answer, the radio state queries that are still to run, and, as a
  history, the ids of the requests that were accepted.  One event is one call of a request
  method, one answer of the vendor RIL to a token it owes, one indication, or one detached
  thread; the events run one at a time, in any order.
\<close>

section \<open>The step relation\<close>

record 'u ril_world =
  adapter :: "'u ril_adapter"
  owed :: "nat list"
  radio :: "(u32 \<times> u8) list"
  accepted :: "(u32 \<times> u8) list"

datatype ril_event =
    Ev_request modem_op u32 u8
  | Ev_answer nat
  | Ev_thread nat
  | Ev_radio u32 u8
  | Ev_unsol ril_unsol

definition new_world :: "'u \<Rightarrow> 'u ril_world" where
  "new_world u =
     \<lparr>adapter = (new_adapter u)\<lparr>funcs := True\<rparr>, owed = [], radio = [], accepted = []\<rparr>"

definition sent_tokens :: "'u ril_adapter \<Rightarrow> 'u ril_adapter \<Rightarrow> nat list" where
  "sent_tokens a a' = map vc_token (drop (length (on_requests a)) (on_requests a'))"

inductive ril_step ::
    "ril_h \<Rightarrow> 'u response_processor \<Rightarrow> ril_event \<Rightarrow> 'u ril_world \<Rightarrow> 'u ril_world \<Rightarrow> bool"
  for H pr where
  request: "android_call H op req uid sid (adapter w) = Ok (b, a') \<Longrightarrow>
     ril_step H pr (Ev_request op uid sid) w
       (w\<lparr>adapter := a', owed := owed w @ sent_tokens (adapter w) a',
          radio := radio w @ (if op = Op_getRadioModeV1 then [(uid, sid)] else []),
          accepted := accepted w @ (if b then [(uid, sid)] else [])\<rparr>)"
| answer: "p \<in> set (owed w) \<Longrightarrow> handleRilResponse H pr (Some p) e data (adapter w) = Ok (b, a') \<Longrightarrow>
     ril_step H pr (Ev_answer p) w (w\<lparr>adapter := a', owed := remove1 p (owed w)\<rparr>)"
| thread: "(r, p) \<in> set (threads (adapter w)) \<Longrightarrow>
     follow_up_thread r p (adapter w) = Ok (b, a') \<Longrightarrow>
     ril_step H pr (Ev_thread p) w
       (w\<lparr>adapter := a', owed := owed w @ sent_tokens (adapter w) a'\<rparr>)"
| radio: "(uid, sid) \<in> set (radio w) \<Longrightarrow>
     radio_mode_thread pr st (Some (uid, sid)) (adapter w) = Ok a' \<Longrightarrow>
     ril_step H pr (Ev_radio uid sid) w
       (w\<lparr>adapter := a', radio := remove1 (uid, sid) (radio w)\<rparr>)"
| unsol: "handleRilUnsolicitedResponse pr i (adapter w) = Ok (b, a') \<Longrightarrow>
     ril_step H pr (Ev_unsol i) w (w\<lparr>adapter := a'\<rparr>)"

inductive_cases ril_stepE: "ril_step H pr ev w w'"

inductive ril_run ::
    "ril_h \<Rightarrow> 'u response_processor \<Rightarrow> ril_event list \<Rightarrow> 'u ril_world \<Rightarrow> 'u ril_world \<Rightarrow> bool"
  for H pr where
  run_nil: "ril_run H pr [] w w"
| run_snoc: "ril_run H pr evs w w' \<Longrightarrow> ril_step H pr ev w' w'' \<Longrightarrow> ril_run H pr (evs @ [ev]) w w''"

section \<open>The invariant\<close>

text \<open>A token in flight is with the vendor RIL or with one thread, and it is a context's address.\<close>

definition tokens :: "'u ril_world \<Rightarrow> nat list" where
  "tokens w = owed w @ map snd (threads (adapter w))"

definition ril_inv :: "'u ril_world \<Rightarrow> bool" where
  "ril_inv w \<longleftrightarrow>
     funcs (adapter w)
     \<and> distinct (tokens w) \<and> set (tokens w) = dom (heap (adapter w))
     \<and> (\<forall>p ctx. heap (adapter w) p = Some ctx \<longrightarrow> ctx_ok ctx \<and> p < next_token (adapter w))
     \<and> (\<forall>r p. (r, p) \<in> set (threads (adapter w)) \<longrightarrow>
           map_option rilReqId (heap (adapter w) p) = Some r)"

lemma ril_inv_tokenD:
  assumes "ril_inv w" and "p \<in> set (tokens w)"
  obtains ctx where "heap (adapter w) p = Some ctx" and "ctx_ok ctx"
  using assms by (auto simp: ril_inv_def)

text \<open>What the steps do to the world, once the adapter's own branches are resolved.\<close>

lemma request_effect:
  assumes "android_call H op req uid sid a = Ok (b, a')"
  shows "(a' = a \<and> sent_tokens a a' = [] \<and> (b \<longleftrightarrow> op = Op_getRadioModeV1))
       \<or> (\<exists>r data. r \<in> first_request op \<and> b \<and> op \<noteq> Op_getRadioModeV1
             \<and> sent_tokens a a' = [next_token a]
             \<and> a' = a\<lparr>heap := (heap a)(next_token a \<mapsto> new_context r uid sid),
                      next_token := Suc (next_token a),
                      on_requests := on_requests a @
                        [\<lparr>vc_request = r, vc_data = data, vc_token = next_token a\<rparr>]\<rparr>)"
  using assms
  by (cases op)
    (auto simp: method_defs Let_def outcome_simps send_request_Ok_iff sent_tokens_def
      split: if_splits)

lemma thread_effect:
  assumes "follow_up_thread r p a = Ok (b, a')"
  shows "sent_tokens a a' = [p] \<and> heap a' = heap a \<and> next_token a' = next_token a
         \<and> funcs a' = funcs a \<and> upper a' = upper a \<and> threads a' = remove1 (r, p) (threads a)"
  using assms
  by (auto simp: follow_up_thread_def sendToVendorRil_def sent_tokens_def split: if_splits)

lemma mset_snd_remove1:
  "(r, p) \<in> set xs \<Longrightarrow> mset (map snd xs) = add_mset p (mset (map snd (remove1 (r, p) xs)))"
  by (induction xs) auto

lemma tokens_thread:
  assumes "(r, p) \<in> set (threads (adapter w))" and "follow_up_thread r p (adapter w) = Ok (b, a')"
  shows "mset (tokens (w\<lparr>adapter := a', owed := owed w @ sent_tokens (adapter w) a'\<rparr>))
         = mset (tokens w)"
  using thread_effect [OF assms(2)] mset_snd_remove1 [OF assms(1)]
  by (simp add: tokens_def)

lemma tokens_remove1:
  assumes "p \<in> set (owed w)"
  shows "mset (tokens w) = add_mset p (mset (remove1 p (owed w) @ map snd (threads (adapter w))))"
  using assms by (simp add: tokens_def)

lemma same_mset_tokens:
  "mset xs = mset ys \<Longrightarrow> distinct xs = distinct ys \<and> set xs = set ys"
  by (metis mset_eq_imp_distinct_iff set_mset_mset)

section \<open>Preservation\<close>

lemma ril_inv_history [simp]:
  "ril_inv (w\<lparr>radio := rd\<rparr>) = ril_inv w" "ril_inv (w\<lparr>accepted := acc\<rparr>) = ril_inv w"
  by (simp_all add: ril_inv_def tokens_def)

lemma inv_request:
  assumes "ril_inv w" and "android_call H op req uid sid (adapter w) = Ok (b, a')"
  shows "ril_inv (w\<lparr>adapter := a', owed := owed w @ sent_tokens (adapter w) a'\<rparr>)"
proof -
  have fresh: "next_token (adapter w) \<notin> set (tokens w)"
    using assms(1) by (auto simp: ril_inv_def)
  then have th: "\<And>r. (r, next_token (adapter w)) \<notin> set (threads (adapter w))"
    by (force simp: tokens_def)
  from request_effect [OF assms(2)] show ?thesis
  proof (elim disjE exE conjE)
    fix r data
    assume r: "r \<in> first_request op"
      and s: "sent_tokens (adapter w) a' = [next_token (adapter w)]"
      and a': "a' = adapter w\<lparr>heap := (heap (adapter w))(next_token (adapter w) \<mapsto> new_context r uid sid),
                      next_token := Suc (next_token (adapter w)),
                      on_requests := on_requests (adapter w) @
                        [\<lparr>vc_request = r, vc_data = data, vc_token = next_token (adapter w)\<rparr>]\<rparr>"
    have t: "tokens (w\<lparr>adapter := a', owed := owed w @ [next_token (adapter w)]\<rparr>)
             = owed w @ next_token (adapter w) # map snd (threads (adapter w))"
      by (simp add: tokens_def a')
    show ?thesis
      using assms(1) fresh th ctx_ok_new [OF r] unfolding s ril_inv_def t
      by (auto simp: a' tokens_def less_Suc_eq)
  qed (use assms(1) in \<open>simp add: ril_inv_def tokens_def\<close>)
qed

lemma inv_answer:
  assumes "ril_inv w" and "p \<in> set (owed w)"
    and "handleRilResponse H pr (Some p) e data (adapter w) = Ok (b, a')"
  shows "ril_inv (w\<lparr>adapter := a', owed := remove1 p (owed w)\<rparr>)"
proof -
  let ?a = "adapter w" and ?rest = "remove1 p (owed w) @ map snd (threads (adapter w))"
  obtain ctx where ctx: "heap ?a p = Some ctx" "ctx_ok ctx"
    using ril_inv_tokenD [OF assms(1), of p] assms(2) by (auto simp: tokens_def)
  have d: "distinct (p # ?rest)" "set (p # ?rest) = dom (heap ?a)"
    using same_mset_tokens [of "tokens w" "p # ?rest"] tokens_remove1 [OF assms(2)] assms(1)
    by (simp_all add: ril_inv_def)
  from answer_cases [OF ctx assms(3)] show ?thesis
  proof (elim disjE exE conjE)
    fix m u assume a': "a' = ?a\<lparr>heap := (heap ?a)(p := None), upper := u\<rparr>"
    have "set ?rest = dom (heap ?a) - {p}" using d by auto
    then show ?thesis
      using assms(1) d by (auto simp: ril_inv_def tokens_def a' image_iff)
  next
    fix ctx' assume c: "ctx_ok ctx'"
      and a': "a' = ?a\<lparr>heap := (heap ?a)(p \<mapsto> ctx'), threads := threads ?a @ [(rilReqId ctx', p)]\<rparr>"
    have "set ?rest \<union> {p} = dom (heap ?a)" using d by auto
    moreover have "p \<notin> snd ` set (threads ?a)" using d(1) by auto
    ultimately show ?thesis
      using assms(1) d c ctx(1) by (auto simp: ril_inv_def tokens_def a' image_iff)
  qed
qed

lemma inv_thread:
  assumes "ril_inv w" and "(r, p) \<in> set (threads (adapter w))"
    and "follow_up_thread r p (adapter w) = Ok (b, a')"
  shows "ril_inv (w\<lparr>adapter := a', owed := owed w @ sent_tokens (adapter w) a'\<rparr>)"
  using assms(1) thread_effect [OF assms(3)] same_mset_tokens [OF tokens_thread [OF assms(2,3)]]
  by (auto simp: ril_inv_def dest: subsetD [OF set_remove1_subset])

lemma inv_same_adapter:
  assumes "ril_inv w" and "a' = (adapter w)\<lparr>upper := u\<rparr>"
  shows "ril_inv (w\<lparr>adapter := a'\<rparr>)"
  using assms by (simp_all add: ril_inv_def tokens_def)

lemma radio_effect:
  assumes "radio_mode_thread pr st (Some (uid, sid)) a = Ok a'"
  obtains mode u b where "radio_mode_of st = Ok mode"
    and "pr (upper a) (radio_mode_msg uid sid mode) = Ok (u, b)" and "a' = a\<lparr>upper := u\<rparr>"
  using assms
  by (auto simp: radio_mode_thread_def outcome_simps split: if_splits)

lemma inv_step:
  assumes "ril_step H pr ev w w'" and "ril_inv w"
  shows "ril_inv w'"
  using assms
proof cases
  case (radio uid sid st a')
  then show ?thesis
    using assms(2) by (auto elim!: radio_effect intro: inv_same_adapter)
next
  case (unsol i b a')
  then show ?thesis
    using assms(2)
    by (auto simp: handleRilUnsolicitedResponse_def outcome_simps intro: inv_same_adapter)
qed (use assms(2) in \<open>simp_all add: inv_request inv_answer inv_thread\<close>)

lemma inv_new: "ril_inv (new_world u)"
  by (simp add: ril_inv_def new_world_def new_adapter_def tokens_def)

lemma inv_run: "ril_run H pr evs w w' \<Longrightarrow> ril_inv w \<Longrightarrow> ril_inv w'"
  by (induction rule: ril_run.induct) (auto intro: inv_step)

section \<open>Potential\<close>

text \<open>
  An upper bound on the number of callbacks and threads that can still run before every request
  accepted so far is answered: each vendor answer a context needs costs one callback and, but for
  the first, one thread.
\<close>

definition weight :: "'u ril_adapter \<Rightarrow> nat \<Rightarrow> nat" where
  "weight a p = (case heap a p of None \<Rightarrow> 0 | Some ctx \<Rightarrow> 2 * answers_left (rilReqId ctx))"

definition potential :: "'u ril_world \<Rightarrow> nat" where
  "potential w =
     (\<Sum>p \<in># mset (tokens w). weight (adapter w) p) + length (threads (adapter w)) + length (radio w)"

lemma weight_cong: "heap a' = heap a \<Longrightarrow> weight a' = weight a"
  by (rule ext) (simp add: weight_def)

lemma weight_sum_cong:
  "(\<And>q. q \<in> set xs \<Longrightarrow> heap a' q = heap a q)
   \<Longrightarrow> (\<Sum>q \<in># mset xs. weight a' q) = (\<Sum>q \<in># mset xs. weight a q)"
  by (rule arg_cong [where f = sum_mset]) (auto intro: image_mset_cong simp: weight_def)

lemma answers_left_pos: "0 < answers_left r"
  by (cases r) auto

lemma potential_answer:
  assumes "ril_inv w" and "p \<in> set (owed w)"
    and "handleRilResponse H pr (Some p) e data (adapter w) = Ok (b, a')"
  shows "potential (w\<lparr>adapter := a', owed := remove1 p (owed w)\<rparr>) < potential w"
proof -
  let ?a = "adapter w" and ?rest = "remove1 p (owed w) @ map snd (threads (adapter w))"
  obtain ctx where ctx: "heap ?a p = Some ctx" "ctx_ok ctx"
    using ril_inv_tokenD [OF assms(1), of p] assms(2) by (auto simp: tokens_def)
  have d: "p \<notin> set ?rest"
    using same_mset_tokens [of "tokens w" "p # ?rest"] tokens_remove1 [OF assms(2)] assms(1)
    by (auto simp: ril_inv_def)
  have same: "(\<Sum>q \<in># mset ?rest. weight a' q) = (\<Sum>q \<in># mset ?rest. weight ?a q)"
    if "heap a' = (heap ?a)(p := x)" for x
    using d that by (intro weight_sum_cong) auto
  have old: "potential w = weight ?a p + (\<Sum>q \<in># mset ?rest. weight ?a q)
               + length (threads ?a) + length (radio w)"
    using tokens_remove1 [OF assms(2)] by (simp add: potential_def)
  have wp: "weight ?a p = 2 * answers_left (rilReqId ctx)"
    using ctx by (simp add: weight_def)
  from answer_cases [OF ctx assms(3)] show ?thesis
  proof (elim disjE exE conjE)
    fix m u assume a': "a' = ?a\<lparr>heap := (heap ?a)(p := None), upper := u\<rparr>"
    then have "potential (w\<lparr>adapter := a', owed := remove1 p (owed w)\<rparr>)
        = (\<Sum>q \<in># mset ?rest. weight a' q) + length (threads ?a) + length (radio w)"
      by (simp add: potential_def tokens_def)
    with same [of None] a' old wp answers_left_pos [of "rilReqId ctx"] show ?thesis by simp
  next
    fix ctx' assume l: "answers_left (rilReqId ctx') < answers_left (rilReqId ctx)"
      and a': "a' = ?a\<lparr>heap := (heap ?a)(p \<mapsto> ctx'), threads := threads ?a @ [(rilReqId ctx', p)]\<rparr>"
    have "potential (w\<lparr>adapter := a', owed := remove1 p (owed w)\<rparr>)
        = weight a' p + (\<Sum>q \<in># mset ?rest. weight a' q) + Suc (length (threads ?a))
          + length (radio w)"
      using a' by (simp add: potential_def tokens_def)
    moreover have "weight a' p = 2 * answers_left (rilReqId ctx')"
      by (simp add: weight_def a')
    ultimately show ?thesis using same [of "Some ctx'"] a' old wp l by simp
  qed
qed

lemma potential_thread:
  assumes "(r, p) \<in> set (threads (adapter w))" and "follow_up_thread r p (adapter w) = Ok (b, a')"
  shows "potential (w\<lparr>adapter := a', owed := owed w @ sent_tokens (adapter w) a'\<rparr>) < potential w"
proof -
  have "heap a' = heap (adapter w)" "threads a' = remove1 (r, p) (threads (adapter w))"
    using thread_effect [OF assms(2)] by auto
  moreover have "0 < length (threads (adapter w))" using assms(1) by (cases "threads (adapter w)") auto
  ultimately show ?thesis
    using tokens_thread [OF assms] weight_cong [of a' "adapter w"] assms(1)
    by (simp add: potential_def length_remove1)
qed

text \<open>The events that answer requests, as opposed to new requests and indications.\<close>

fun internal :: "ril_event \<Rightarrow> bool" where
  "internal (Ev_answer p) = True"
| "internal (Ev_thread p) = True"
| "internal (Ev_radio uid sid) = True"
| "internal ev = False"

lemma potential_step:
  assumes "ril_step H pr ev w w'" and "ril_inv w" and "internal ev"
  shows "potential w' < potential w"
  using assms(1)
proof cases
  case (radio uid sid st a')
  then have "0 < length (radio w)" by (cases "radio w") auto
  with radio show ?thesis
    by (auto elim!: radio_effect simp: potential_def tokens_def weight_def length_remove1)
qed (use assms(2,3) in \<open>simp_all add: potential_answer potential_thread\<close>)

section \<open>Conservation\<close>

text \<open>
  The response processor that records what it is passed.  \<open>answered\<close> are the ids of the
  messages that are responses.
\<close>

definition log_pr :: "uril_protocol_msg_t list response_processor" where
  "log_pr u m = Ok (u @ [m], True)"

definition answered :: "uril_protocol_msg_t list \<Rightarrow> (u32 \<times> u8) list" where
  "answered ms = map (\<lambda>m. (unique_id m, sim_id m)) (filter (\<lambda>m. is_indication m = 0) ms)"

definition owner :: "'u ril_adapter \<Rightarrow> nat \<Rightarrow> u32 \<times> u8" where
  "owner a p = (case heap a p of None \<Rightarrow> (0, 0) | Some ctx \<Rightarrow> (uniqueId ctx, simId ctx))"

definition waiting :: "'u ril_world \<Rightarrow> (u32 \<times> u8) multiset" where
  "waiting w = image_mset (owner (adapter w)) (mset (tokens w)) + mset (radio w)"

lemma owner_image_cong:
  "(\<And>q. q \<in> set xs \<Longrightarrow> heap a' q = heap a q)
   \<Longrightarrow> image_mset (owner a') (mset xs) = image_mset (owner a) (mset xs)"
  by (auto intro: image_mset_cong simp: owner_def)

lemma owner_cong: "heap a' = heap a \<Longrightarrow> owner a' = owner a"
  by (rule ext) (simp add: owner_def)

lemma answered_snoc:
  "is_indication m = 0 \<Longrightarrow> answered (ms @ [m]) = answered ms @ [(unique_id m, sim_id m)]"
  "is_indication m \<noteq> 0 \<Longrightarrow> answered (ms @ [m]) = answered ms"
  by (simp_all add: answered_def)

text \<open>What the steps do to the requests that wait, and what they pass up.\<close>

lemma waiting_upper [simp]: "waiting (w\<lparr>adapter := (adapter w)\<lparr>upper := u\<rparr>\<rparr>) = waiting w"
proof -
  have "owner ((adapter w)\<lparr>upper := u\<rparr>) = owner (adapter w)" by (rule owner_cong) simp
  then show ?thesis by (simp add: waiting_def tokens_def)
qed

lemma waiting_answer:
  assumes "ril_inv w" and "p \<in> set (owed w)"
    and "handleRilResponse H pr (Some p) e data (adapter w) = Ok (b, a')"
  shows "(\<exists>m u. is_indication m = 0 \<and> pr (upper (adapter w)) m = Ok (u, b) \<and> upper a' = u
      \<and> waiting w = add_mset (unique_id m, sim_id m) (waiting (w\<lparr>adapter := a', owed := remove1 p (owed w)\<rparr>)))
    \<or> (upper a' = upper (adapter w) \<and> waiting (w\<lparr>adapter := a', owed := remove1 p (owed w)\<rparr>) = waiting w)"
proof -
  let ?a = "adapter w" and ?rest = "remove1 p (owed w) @ map snd (threads (adapter w))"
  obtain ctx where ctx: "heap ?a p = Some ctx" "ctx_ok ctx"
    using ril_inv_tokenD [OF assms(1), of p] assms(2) by (auto simp: tokens_def)
  have d: "p \<notin> set ?rest"
    using same_mset_tokens [of "tokens w" "p # ?rest"] tokens_remove1 [OF assms(2)] assms(1)
    by (auto simp: ril_inv_def)
  have same: "image_mset (owner a') (mset ?rest) = image_mset (owner ?a) (mset ?rest)"
    if "heap a' = (heap ?a)(p := x)" for x
    using d that by (intro owner_image_cong) auto
  have old: "waiting w = add_mset (owner ?a p) (image_mset (owner ?a) (mset ?rest) + mset (radio w))"
    using tokens_remove1 [OF assms(2)] by (simp add: waiting_def)
  have wp: "owner ?a p = (uniqueId ctx, simId ctx)"
    using ctx by (simp add: owner_def)
  from answer_cases [OF ctx assms(3)] show ?thesis
  proof (elim disjE exE conjE)
    fix m u assume m: "same_owner ctx m" "pr (upper ?a) (msg_of_rsp m) = Ok (u, b)"
      and a': "a' = ?a\<lparr>heap := (heap ?a)(p := None), upper := u\<rparr>"
    have "waiting (w\<lparr>adapter := a', owed := remove1 p (owed w)\<rparr>)
        = image_mset (owner ?a) (mset ?rest) + mset (radio w)"
      using same [of None] a' by (simp add: waiting_def tokens_def)
    with m a' old wp show ?thesis
      by (intro disjI1 exI [of _ "msg_of_rsp m"] exI [of _ u]) (simp add: same_owner_def msg_of_rsp_def)
  next
    fix ctx' assume c: "uniqueId ctx' = uniqueId ctx" "simId ctx' = simId ctx"
      and a': "a' = ?a\<lparr>heap := (heap ?a)(p \<mapsto> ctx'), threads := threads ?a @ [(rilReqId ctx', p)]\<rparr>"
    have "owner a' p = owner ?a p"
      using wp c by (simp add: owner_def a')
    then show ?thesis using same [of "Some ctx'"] old a' by (simp add: waiting_def tokens_def)
  qed
qed

lemma waiting_request:
  assumes "ril_inv w" and "android_call H op req uid sid (adapter w) = Ok (b, a')"
  shows "upper a' = upper (adapter w)
    \<and> waiting (w\<lparr>adapter := a', owed := owed w @ sent_tokens (adapter w) a',
            radio := radio w @ (if op = Op_getRadioModeV1 then [(uid, sid)] else []),
            accepted := acc\<rparr>)
      = waiting w + (if b then {#(uid, sid)#} else {#})"
  using request_effect [OF assms(2)]
proof (elim disjE exE conjE)
  fix r data
  assume "b" "op \<noteq> Op_getRadioModeV1" and s: "sent_tokens (adapter w) a' = [next_token (adapter w)]"
    and a': "a' = adapter w\<lparr>heap := (heap (adapter w))(next_token (adapter w) \<mapsto> new_context r uid sid),
                      next_token := Suc (next_token (adapter w)),
                      on_requests := on_requests (adapter w) @
                        [\<lparr>vc_request = r, vc_data = data, vc_token = next_token (adapter w)\<rparr>]\<rparr>"
  have "next_token (adapter w) \<notin> set (tokens w)"
    using assms(1) by (auto simp: ril_inv_def)
  then have "image_mset (owner a') (mset (tokens w)) = image_mset (owner (adapter w)) (mset (tokens w))"
    by (intro owner_image_cong) (auto simp: a')
  moreover have "owner a' (next_token (adapter w)) = (uid, sid)"
    by (simp add: owner_def a' new_context_def)
  ultimately show ?thesis
    using \<open>b\<close> \<open>op \<noteq> Op_getRadioModeV1\<close> by (simp add: waiting_def tokens_def s) (simp add: a')
qed (auto simp: waiting_def tokens_def)

text \<open>
  A step is quiet, accepts a request, passes up one response for a request that waits, or passes up an
  indication.
\<close>

lemma step_effect:
  assumes "ril_step H pr ev w w'" and "ril_inv w"
  obtains (quiet) "upper (adapter w') = upper (adapter w)" "waiting w' = waiting w"
      "accepted w' = accepted w"
  | (taken) op uid sid where "ev = Ev_request op uid sid" "upper (adapter w') = upper (adapter w)"
      "waiting w' = add_mset (uid, sid) (waiting w)" "accepted w' = accepted w @ [(uid, sid)]"
  | (reply) m b where "is_indication m = 0" "pr (upper (adapter w)) m = Ok (upper (adapter w'), b)"
      "waiting w = add_mset (unique_id m, sim_id m) (waiting w')" "accepted w' = accepted w"
  | (notice) m b where "is_indication m \<noteq> 0" "pr (upper (adapter w)) m = Ok (upper (adapter w'), b)"
      "waiting w' = waiting w" "accepted w' = accepted w"
  using assms(1)
proof cases
  case (request op req uid sid b a')
  have "upper (adapter w') = upper (adapter w)" "waiting w' = waiting w + (if b then {#(uid, sid)#} else {#})"
    "accepted w' = accepted w @ (if b then [(uid, sid)] else [])"
    using waiting_request [OF assms(2) request(3)] unfolding request(2) by simp_all
  with request(1) quiet taken show ?thesis by (cases b) simp_all
next
  case (answer p e data b a')
  from waiting_answer [OF assms(2) answer(3,4)] answer quiet reply show ?thesis by auto
next
  case (thread r p b a')
  then have "waiting w' = waiting w"
    using thread_effect [OF thread(4)] tokens_thread [OF thread(3,4)] owner_cong [of a' "adapter w"]
    by (simp add: waiting_def)
  with quiet thread thread_effect [OF thread(4)] show ?thesis by simp
next
  case (radio uid sid st a')
  then obtain mode u b where m: "pr (upper (adapter w)) (radio_mode_msg uid sid mode) = Ok (u, b)"
    "a' = (adapter w)\<lparr>upper := u\<rparr>"
    by (auto elim!: radio_effect)
  have "owner a' = owner (adapter w)" by (rule owner_cong) (simp add: m)
  with reply [of "radio_mode_msg uid sid mode" b] radio m show ?thesis
    by (simp add: waiting_def tokens_def radio_mode_msg_def)
next
  case (unsol i b a')
  then obtain u where u: "pr (upper (adapter w)) (unsol_msg i) = Ok (u, b)" "a' = (adapter w)\<lparr>upper := u\<rparr>"
    by (auto simp: handleRilUnsolicitedResponse_def outcome_simps)
  have "owner a' = owner (adapter w)" by (rule owner_cong) (simp add: u)
  with notice [of "unsol_msg i" b] unsol u show ?thesis
    by (simp add: unsol_msg_def waiting_def tokens_def)
qed

definition balanced :: "uril_protocol_msg_t list ril_world \<Rightarrow> bool" where
  "balanced w \<longleftrightarrow> mset (accepted w) = mset (answered (upper (adapter w))) + waiting w"

lemma balanced_step:
  assumes "ril_step H log_pr ev w w'" and "ril_inv w" and "balanced w"
  shows "balanced w'"
  using assms(1,2)
proof (cases rule: step_effect)
  case (reply m b)
  then have "upper (adapter w') = upper (adapter w) @ [m]" by (simp add: log_pr_def)
  with reply assms(3) show ?thesis by (simp add: balanced_def answered_snoc)
next
  case (notice m b)
  then have "upper (adapter w') = upper (adapter w) @ [m]" by (simp add: log_pr_def)
  with notice assms(3) show ?thesis by (simp add: balanced_def answered_snoc)
qed (use assms(3) in \<open>simp_all add: balanced_def\<close>)

lemma balanced_run:
  "ril_run H log_pr evs w w' \<Longrightarrow> ril_inv w \<Longrightarrow> balanced w \<Longrightarrow> balanced w'"
  by (induction rule: ril_run.induct) (auto intro: balanced_step inv_run)

lemma balanced_new: "balanced (new_world [])"
  by (simp add: balanced_def new_world_def new_adapter_def answered_def waiting_def tokens_def)

end
