(* ===== verification/Ril_Safety.thy ===== *)
theory Ril_Safety
  imports Ril_Steps
begin

text \<open>
  Memory safety of the adapter's contexts: a vendor answer to a token the vendor RIL owes never
  touches a context that was freed, whatever the response processor above is, as long as it
  keeps its own contract (\<open>response_handler\<close>); an answer to a token that is not in flight does.
\<close>

section \<open>Operations that touch no freed object\<close>

definition no_uaf :: "'a outcome \<Rightarrow> bool" where
  "no_uaf m \<longleftrightarrow> m \<noteq> Fault Use_after_free"

named_theorems no_uaf_intro \<open>operations that touch no freed object\<close>

lemma map_ok_map_ok: "map_ok f (map_ok g m) = map_ok (\<lambda>x. f (g x)) m"
  by (cases m) auto

lemma no_uaf_Ok [no_uaf_intro]: "no_uaf (Ok x)"
  by (simp add: no_uaf_def)

lemma no_uaf_Fault [no_uaf_intro]: "f \<noteq> Use_after_free \<Longrightarrow> no_uaf (Fault f)"
  by (simp add: no_uaf_def)

lemma no_uaf_bind [no_uaf_intro]:
  "no_uaf m \<Longrightarrow> (\<And>x. no_uaf (f x)) \<Longrightarrow> no_uaf (bind_outcome m f)"
  by (auto simp: no_uaf_def outcome_simps)

lemma no_uaf_map_ok [no_uaf_intro]: "no_uaf m \<Longrightarrow> no_uaf (map_ok f m)"
  by (cases m) (auto simp: no_uaf_def)

lemma no_uaf_if [no_uaf_intro]: "no_uaf x \<Longrightarrow> no_uaf y \<Longrightarrow> no_uaf (if b then x else y)"
  by simp

lemma no_uaf_option [no_uaf_intro]:
  "no_uaf x \<Longrightarrow> (\<And>y. no_uaf (f y)) \<Longrightarrow> no_uaf (case m of None \<Rightarrow> x | Some y \<Rightarrow> f y)"
  by (cases m) auto

lemma no_uaf_prod [no_uaf_intro]: "(\<And>x y. no_uaf (f x y)) \<Longrightarrow> no_uaf (case p of (x, y) \<Rightarrow> f x y)"
  by (cases p) auto

lemma no_uaf_list [no_uaf_intro]:
  "no_uaf x \<Longrightarrow> (\<And>y ys. no_uaf (f y ys)) \<Longrightarrow> no_uaf (case xs of [] \<Rightarrow> x | y # ys \<Rightarrow> f y ys)"
  by (cases xs) auto

lemma no_uaf_ril_data [no_uaf_intro]:
  assumes "no_uaf a" "\<And>x. no_uaf (b x)" "\<And>x. no_uaf (c x)" "\<And>x y. no_uaf (d x y)" "\<And>x. no_uaf (e x)"
  shows "no_uaf (case m of Data_null \<Rightarrow> a | Data_int v \<Rightarrow> b v | Data_strings xs \<Rightarrow> c xs
                  | Data_signal s n \<Rightarrow> d s n | Data_bytes bs \<Rightarrow> e bs)"
  using assms by (cases m) auto

lemma no_uaf_body [no_uaf_intro]: "no_uaf (reg_of_body b)"
  by (cases b) (simp_all add: reg_of_body_def no_uaf_def)

lemma no_uaf_conversions [no_uaf_intro]:
  "no_uaf (RilNwPrefToUrilNwPref H v)" "no_uaf (rilRatToUrilRat H v)" "no_uaf (phy_link_state_of v)"
  "no_uaf (deny_reason_value d)" "no_uaf (rilIpAddrToUrilDataAddr s a)" "no_uaf (strings_of data)"
  "no_uaf (raw_bytes data)" "no_uaf (put_mcc_mnc num st)"
  "no_uaf (rilOperatorNameToUrilOperatorName on ln sn nu)"
  unfolding RilNwPrefToUrilNwPref_def rilRatToUrilRat_def phy_link_state_of_def
    deny_reason_value_def rilIpAddrToUrilDataAddr_def strings_of_def raw_bytes_def put_mcc_mnc_def
    rilOperatorNameToUrilOperatorName_def Let_def
  by (intro no_uaf_intro; simp)+

lemma no_uaf_registration [no_uaf_intro]: "no_uaf (rilNwRegToUrilNwReg H r a b c)"
  unfolding rilNwRegToUrilNwReg_def Let_def by (intro no_uaf_intro; simp)

lemma no_uaf_fill [no_uaf_intro]: "no_uaf (fill_pdp_addrs addr xs n)"
proof (induction addr xs n rule: fill_pdp_addrs.induct)
  case (1 addr xs n)
  show ?case
    using 1 no_uaf_conversions(5)
    by (subst fill_pdp_addrs.simps) (auto simp: no_uaf_def outcome_simps split: if_splits)
qed

lemma no_uaf_call_info [no_uaf_intro]: "no_uaf (rilDataCallResponseToIRilDataCallInfo H c r)"
  unfolding rilDataCallResponseToIRilDataCallInfo_def by (intro no_uaf_intro)

lemma no_uaf_scan [no_uaf_intro]: "no_uaf (scan_loop cap xs es n)"
proof (induction cap xs es n rule: scan_loop.induct)
  case (1 cap ln sn numeric st rest entries num_filled)
  then show ?case
    using no_uaf_conversions(9)
    by (simp only: scan_loop.simps)
      (auto simp: no_uaf_def outcome_simps Let_def split: if_splits option.splits)
qed (simp_all add: no_uaf_Ok)

lemma no_uaf_calls [no_uaf_intro]: "no_uaf (call_loop cap H sz bs k calls i)"
proof (induction k arbitrary: calls i)
  case 0
  then show ?case by (simp add: no_uaf_Ok)
next
  case (Suc k)
  show ?case
    unfolding call_loop.simps by (intro no_uaf_intro Suc) simp
qed

lemma no_uaf_complete [no_uaf_intro]: "no_uaf (complete_with mid n b ctx)"
  unfolding complete_with_def by (intro no_uaf_intro) simp

lemma no_uaf_dispatch: "no_uaf (dispatch_response H ctx e data r)"
  by (cases r; simp only: dispatch_response.simps handler_defs
      handleRilVoiceRegStateResponseV1_def handleRilDataRegStateResponseV1_def
      handleRilGetOperatorResponseV1_def Let_def; intro no_uaf_intro; simp)

lemma no_uaf_send_request [no_uaf_intro]: "no_uaf (send_request r data uid sid a)"
  by (simp add: send_request_def makeTokenForMessage_def sendToVendorRil_def no_uaf_def)

lemma no_uaf_requests [no_uaf_intro]:
  "no_uaf (urilNwPrefToRilNwPref v)" "no_uaf (rd_str t f bs)"
  "no_uaf (urilDataBearerTechTypeToRilRadioTech v)" "no_uaf (urilAuthTypeToRilAuthType v)"
  "no_uaf (urilPdpTypeToRilPdpType v)"
  unfolding urilNwPrefToRilNwPref_def rd_str_def c_string_def urilDataBearerTechTypeToRilRadioTech_def
    urilAuthTypeToRilAuthType_def urilPdpTypeToRilPdpType_def
  by (auto simp: no_uaf_def split: option.split)

lemma no_uaf_call: "no_uaf (android_call H op req uid sid a)"
  by (cases op; simp only: android_call.simps method_defs Let_def; intro no_uaf_intro; simp)

section \<open>Answers and the response processor\<close>

context response_handler
begin

lemma respond_rinv: "rinv u \<Longrightarrow> respond u m = Ok (u', b) \<Longrightarrow> rinv u'"
  using respond_returns [of u m] by auto

lemma answer_no_uaf:
  assumes "heap a p = Some ctx" and "rinv (upper a)"
  shows "no_uaf (handleRilResponse H respond (Some p) e data a)"
proof -
  have "no_uaf (respond (upper a) m)" for m
    using respond_returns [OF assms(2), of m] by (auto simp: no_uaf_def)
  moreover have "handleRilResponse H respond (Some p) e data a \<noteq> Fault Use_after_free"
    if "\<And>m. respond (upper a) m \<noteq> Fault Use_after_free"
    using that assms(1) no_uaf_dispatch [of H "with_rsp ctx" e data "rilReqId (with_rsp ctx)"]
    by (auto simp: handleRilResponse_def Let_def no_uaf_def outcome_simps map_ok_Fault_iff
        split: if_splits option.splits)
  ultimately show ?thesis by (auto simp: no_uaf_def)
qed

lemma answer_keeps_rinv:
  assumes "heap a p = Some ctx" and "ctx_ok ctx" and "rinv (upper a)"
    and "handleRilResponse H respond (Some p) e data a = Ok (b, a')"
  shows "rinv (upper a')"
  using answer_cases [OF assms(1,2,4)] assms(3) by (auto intro: respond_rinv)

lemma step_keeps_rinv:
  assumes "ril_step H respond ev w w'" and "ril_inv w" and "rinv (upper (adapter w))"
  shows "rinv (upper (adapter w'))"
  using assms(1)
proof cases
  case (request op req uid sid b a')
  then show ?thesis using request_effect [OF request(3)] assms(3) by auto
next
  case (answer p e data b a')
  then obtain ctx where "heap (adapter w) p = Some ctx" "ctx_ok ctx"
    using ril_inv_tokenD [OF assms(2), of p] by (auto simp: tokens_def)
  with answer answer_keeps_rinv assms(3) show ?thesis by simp
next
  case (thread r p b a')
  then show ?thesis using thread_effect [OF thread(4)] assms(3) by simp
next
  case (radio uid sid st a')
  then show ?thesis
    using assms(3) by (auto elim!: radio_effect intro: respond_rinv)
next
  case (unsol i b a')
  then show ?thesis
    using respond_returns [OF assms(3), of "unsol_msg i"]
    by (auto simp: handleRilUnsolicitedResponse_def outcome_simps)
qed

lemma run_keeps_rinv:
  "ril_run H respond evs w w' \<Longrightarrow> ril_inv w \<Longrightarrow> rinv (upper (adapter w))
   \<Longrightarrow> rinv (upper (adapter w'))"
  by (induction rule: ril_run.induct) (auto intro: step_keeps_rinv inv_run)

lemma owed_no_uaf:
  assumes "ril_run H respond evs (new_world u) w" and "rinv u" and "p \<in> set (owed w)"
  shows "no_uaf (handleRilResponse H respond (Some p) e data (adapter w))"
proof -
  have inv: "ril_inv w" using inv_run [OF assms(1) inv_new] .
  then obtain ctx where "heap (adapter w) p = Some ctx"
    using ril_inv_tokenD [OF inv, of p] assms(3) by (auto simp: tokens_def)
  moreover have "rinv (upper (adapter w))"
    using run_keeps_rinv [OF assms(1) inv_new] assms(2) by (simp add: new_world_def new_adapter_def)
  ultimately show ?thesis by (rule answer_no_uaf)
qed

end

lemma not_in_flight_uaf:
  "heap a p = None \<Longrightarrow> handleRilResponse H pr (Some p) e data a = Fault Use_after_free"
  by (simp add: handleRilResponse_def)

end
