(* ===== verification/Ril_Properties.thy ===== *)
theory Ril_Properties
  imports Ril_Safety
begin

text \<open>
  What the adapter promises: which message answers which request, what an error answer becomes,
  the network scan against a declarative specification, which successful answers cannot fit into
  the payload, and, over whole runs with the vendor RIL, that every accepted request is answered
  once, with its own ids, and that no context is used after it was freed.
\<close>

section \<open>Which message answers a request\<close>

text \<open>The message id of the response to a request method, and the vendor requests behind it.\<close>

fun response_id :: "modem_op \<Rightarrow> u32" where
  "response_id Op_setNetworkPreferenceV1 = URIL_NW_SET_PREF_RESP_V01"
| "response_id Op_getNetworkPreferenceV1 = URIL_NW_GET_PREF_RESP_V01"
| "response_id Op_getNetworkRegistrationStatusV1 = URIL_NW_GET_REGISTRATION_STATUS_RESP_V01"
| "response_id Op_scanNetworkV1 = URIL_NW_SCAN_RESP_V01"
| "response_id Op_setScreenStateV1 = URIL_NW_SET_SCREEN_RESP_V01"
| "response_id Op_selectNetworkV1 = URIL_NW_SELECTION_RESP_V01"
| "response_id Op_getSignalStrengthV1 = URIL_NW_GET_SIGNAL_STRENGTH_RESP_V01"
| "response_id Op_getCellAccessV1 = URIL_NW_GET_CELL_ACCESS_STATE_RESP_V01"
| "response_id Op_getRadioModeV1 = URIL_RADIO_GET_RADIO_MODE_RESP_V01"
| "response_id Op_setRadioModeV1 = URIL_RADIO_SET_RADIO_MODE_RESP_V01"
| "response_id Op_setDataProfilesV1 = URIL_DATA_SET_DATA_PROFILES_RESP_V01"
| "response_id Op_setupDataCallV1 = URIL_DATA_SETUP_DATA_CALL_RESP_V01"
| "response_id Op_deactivateDataCallV1 = URIL_DATA_DEACTIVATE_DATA_CALL_RESP_V01"
| "response_id Op_getDataCallListV1 = URIL_DATA_GET_DATA_CALL_LIST_RESP_V01"
| "response_id Op_setInitialAttachParamsV1 = URIL_DATA_SET_INITIAL_ATTACH_PARAMS_RESP_V01"

definition requests_of :: "modem_op \<Rightarrow> ril_request set" where
  "requests_of op =
     first_request op \<union>
     (if op = Op_getNetworkRegistrationStatusV1
      then {RIL_REQUEST_DATA_REGISTRATION_STATE, RIL_REQUEST_OPERATOR} else {})"

definition has_id :: "u32 \<Rightarrow> bool \<times> RilRequestContext \<times> ril_request list \<Rightarrow> bool" where
  "has_id mid res \<longleftrightarrow> (\<exists>m. rsp (fst (snd res)) = Some m \<and> r_msg_id m = mid)"

lemma complete_with_id: "complete_with mid n b ctx = Ok res \<Longrightarrow> has_id mid res"
  by (auto simp: complete_with_def has_id_def put_rsp_def split: option.splits)

lemma reg_handlers_id:
  assumes "dispatch_response H ctx e data r = Ok res"
    and "r \<in> {RIL_REQUEST_VOICE_REGISTRATION_STATE, RIL_REQUEST_DATA_REGISTRATION_STATE,
              RIL_REQUEST_OPERATOR}"
  shows "has_id URIL_NW_GET_REGISTRATION_STATUS_RESP_V01 res"
proof -
  have put: "r_msg_id (put_reg s m) = URIL_NW_GET_REGISTRATION_STATUS_RESP_V01" for s m
    by (simp add: put_reg_def put_rsp_def)
  from assms(2) consider "r = RIL_REQUEST_VOICE_REGISTRATION_STATE"
    | "r = RIL_REQUEST_DATA_REGISTRATION_STATE" | "r = RIL_REQUEST_OPERATOR" by auto
  then show ?thesis
  proof cases
    case 1
    with assms(1) show ?thesis
      by (auto simp: handleRilVoiceRegStateResponseV1_def outcome_simps Let_def has_id_def put
          split: option.splits if_splits)
  next
    case 2
    with assms(1) show ?thesis
      by (auto simp: handleRilDataRegStateResponseV1_def outcome_simps Let_def has_id_def put
          split: option.splits if_splits)
  next
    case 3
    with assms(1) have "handleRilGetOperatorResponseV1 ctx e data = Ok res" by simp
    moreover from this obtain m where "rsp ctx = Some m"
      by (auto simp: handleRilGetOperatorResponseV1_def split: option.splits)
    ultimately have "\<exists>s. res = (True, ctx\<lparr>rsp := Some (put_reg s m), isCompleted := True\<rparr>, [])"
      by (intro operator_result)
    then show ?thesis by (auto simp: has_id_def put)
  qed
qed

text \<open>
  Whatever the vendor RIL answers to a request that a method sent, a handler that returns has set
  the message id of that method's response: no answer is delivered under another request's id.
\<close>

lemma response_id_matches:
  assumes "r \<in> requests_of op" and "dispatch_response H ctx e data r = Ok (b, ctx', spawned)"
  shows "\<exists>m. rsp ctx' = Some m \<and> r_msg_id m = response_id op"
proof (cases "op = Op_getNetworkRegistrationStatusV1")
  case True
  with assms show ?thesis
    using reg_handlers_id [OF assms(2)] by (auto simp: requests_of_def has_id_def)
next
  case False
  with assms have "has_id (response_id op) (b, ctx', spawned)"
    by (cases op)
      (auto simp: requests_of_def handler_defs Let_def outcome_simps
        split: if_splits ril_data.splits option.splits prod.splits dest!: complete_with_id)
  then show ?thesis by (simp add: has_id_def)
qed

definition sample_ctx :: "ril_request \<Rightarrow> RilRequestContext" where
  "sample_ctx r = with_rsp (new_context r 7 1)"

lemma response_id_matches_witness:
  "\<exists>ctx'. dispatch_response sample_h (sample_ctx RIL_REQUEST_RADIO_POWER) RIL_E_SUCCESS
        Data_null RIL_REQUEST_RADIO_POWER = Ok (True, ctx', [])
     \<and> (\<exists>m. rsp ctx' = Some m \<and> r_msg_id m = response_id Op_setRadioModeV1)"
proof -
  obtain ctx' where d: "dispatch_response sample_h (sample_ctx RIL_REQUEST_RADIO_POWER) RIL_E_SUCCESS
      Data_null RIL_REQUEST_RADIO_POWER = Ok (True, ctx', [])"
    by (simp add: handleRilSetRadioModeV1_def complete_with_def sample_ctx_def with_rsp_def
        new_context_def)
  have "RIL_REQUEST_RADIO_POWER \<in> requests_of Op_setRadioModeV1" by (simp add: requests_of_def)
  from response_id_matches [OF this d] d show ?thesis by blast
qed

section \<open>Error answers\<close>

lemma error_dispatch:
  assumes "e \<noteq> RIL_E_SUCCESS" and "rsp ctx = Some m" and "r_body m \<in> {Body_zero} \<union> range Body_reg"
    and "\<forall>n. r \<noteq> RIL_REQUEST_other n"
  shows "\<exists>m'. dispatch_response H ctx e data r =
      Ok (True, ctx\<lparr>rsp := Some m', isCompleted := True\<rparr>, [])
    \<and> take (sizeof uril_response_t_v01) (body_bytes (r_body m')) = enc_response (rilErrnoToUrilResponse e)"
proof -
  have len: "length (enc_response rs) = sizeof uril_response_t_v01" for rs
    by (rule length_enc_response)
  have reg: "\<exists>s. reg_of_body (r_body m) = Ok s"
    using assms(3) by (auto simp: reg_of_body_def)
  show ?thesis
    using assms(1,2,4) reg
    by (cases r)
      (auto simp: handler_defs handleRilVoiceRegStateResponseV1_def
        handleRilDataRegStateResponseV1_def handleRilGetOperatorResponseV1_def Let_def
        complete_with_def put_rsp_def put_reg_def len enc_get_pref_def enc_reg_status_def
        enc_signal_def)
qed

text \<open>
  C23: A vendor error ends every request at once and safely: whatever the request and whatever data
  comes with the error, the handler completes the context, starts no thread, and the response
  begins with the FAILURE result and the translated error.
\<close>

lemma error_answer_completes:
  assumes "e \<noteq> RIL_E_SUCCESS" and "ctx_ok ctx"
  shows "\<exists>m'. dispatch_response H (with_rsp ctx) e data (rilReqId ctx) =
      Ok (True, (with_rsp ctx)\<lparr>rsp := Some m', isCompleted := True\<rparr>, [])
    \<and> take (sizeof uril_response_t_v01) (body_bytes (r_body m'))
      = enc_response \<lparr>rsp_result = uril_result_t_v01_code URIL_RESULT_FAILURE_V01,
                      rsp_error = uril_error_t_v01_code (errno_error e)\<rparr>"
proof -
  obtain m where m: "rsp (with_rsp ctx) = Some m" "r_body m \<in> {Body_zero} \<union> range Body_reg"
    using assms(2) by (auto simp: ctx_ok_def with_rsp_def fresh_rsp_def)
  have "\<forall>n. rilReqId ctx \<noteq> RIL_REQUEST_other n" using assms(2) by (simp add: ctx_ok_def)
  from error_dispatch [OF assms(1) m this, of H data] show ?thesis
    using assms(1) by (simp add: rilErrnoToUrilResponse_def)
qed

lemma error_answer_completes_witness:
  "\<exists>m'. dispatch_response sample_h (with_rsp (new_context RIL_REQUEST_SETUP_DATA_CALL 7 1))
          RIL_E_RADIO_NOT_AVAILABLE Data_null RIL_REQUEST_SETUP_DATA_CALL =
      Ok (True, (with_rsp (new_context RIL_REQUEST_SETUP_DATA_CALL 7 1))
                  \<lparr>rsp := Some m', isCompleted := True\<rparr>, [])
    \<and> take (sizeof uril_response_t_v01) (body_bytes (r_body m'))
      = enc_response \<lparr>rsp_result = uril_result_t_v01_code URIL_RESULT_FAILURE_V01,
                      rsp_error = uril_error_t_v01_code URIL_ERROR_RADIO_NOT_AVAILABLE_V01\<rparr>"
  using error_answer_completes [of RIL_E_RADIO_NOT_AVAILABLE
      "new_context RIL_REQUEST_SETUP_DATA_CALL 7 1" sample_h Data_null]
  by (simp add: ctx_ok_def new_context_def)

section \<open>The network scan\<close>

text \<open>
  The specification: the strings in groups of four, each group with all four strings and one of the
  four status words an entry, in order, as many as the array has room for.
\<close>

fun quads :: "'a list \<Rightarrow> ('a \<times> 'a \<times> 'a \<times> 'a) list" where
  "quads (a # b # c # d # rest) = (a, b, c, d) # quads rest"
| "quads xs = []"



text \<open>A group with all three names, whose operator code is long enough to be split.\<close>

definition named :: "string option \<times> string option \<times> string option \<times> string option \<Rightarrow> bool" where
  "named q \<longleftrightarrow> (case q of (ln, sn, nu, st) \<Rightarrow> ln \<noteq> None \<and> sn \<noteq> None \<and> nu \<noteq> None)"

definition splittable ::
    "string option \<times> string option \<times> string option \<times> string option \<Rightarrow> bool" where
  "splittable q \<longleftrightarrow> (named q \<longrightarrow> length (the (fst (snd (snd q)))) \<ge> 3)"

lemma operator_name_cases:
  "splittable (ln, sn, nu, st) \<Longrightarrow>
   rilOperatorNameToUrilOperatorName old ln sn nu =
    Ok (if named (ln, sn, nu, st)
        then (True, \<lparr>op_long_eons = take 512 (the ln), op_short_eons = take 512 (the sn),
                     op_mcc = take 3 (the nu), op_mnc = take 3 (drop 3 (the nu))\<rparr>)
        else (False, old))"
  by (auto simp: rilOperatorNameToUrilOperatorName_def splittable_def named_def snprintf_s_def
      strncpy_def split: option.splits)








text \<open>
  In the payload the service has, no network fits: the first complete group of a successful scan
  is written past the end of the message, so the only scans that return are those without one.
\<close>

lemma scan_overflows:
  assumes "\<forall>q \<in> set (quads xs). splittable q" and "\<exists>q \<in> set (quads xs). named q"
  shows "scan_loop MAX_URIL_PAYLOAD_SIZE xs (sc_entries zero_scan_resp) 0 = Fault Out_of_bounds_write"
proof -
  have big: "scan_name_end 0 > MAX_URIL_PAYLOAD_SIZE"
    by (simp add: scan_name_end_def layout_simps MAX_URIL_PAYLOAD_SIZE_def)
  have "scan_loop MAX_URIL_PAYLOAD_SIZE xs entries 0 = Fault Out_of_bounds_write" for entries
    using assms
  proof (induction xs arbitrary: entries rule: quads.induct)
    case (1 ln sn nu st rest)
    have z: "0 < URIL_NW_SCAN_MAX_ENTRY_COUNT_V01" by (simp add: URIL_NW_SCAN_MAX_ENTRY_COUNT_V01_def)
    show ?case
    proof (cases "named (ln, sn, nu, st)")
      case True
      with big z show ?thesis by (simp add: named_def)
    next
      case False
      then have "\<exists>q \<in> set (quads rest). named q" using "1.prems"(2) by auto
      moreover have "splittable (ln, sn, nu, st)" "\<forall>q \<in> set (quads rest). splittable q"
        using "1.prems"(1) by simp_all
      ultimately show ?thesis
        using "1.IH" z False operator_name_cases [of ln sn nu st] by (auto simp: named_def)
    qed
  qed simp_all
  then show ?thesis .
qed

lemma scan_overflows_witness:
  "scan_loop MAX_URIL_PAYLOAD_SIZE [Some ''Alpha'', Some ''A'', Some ''26201'', Some ''current'']
     (sc_entries zero_scan_resp) 0 = Fault Out_of_bounds_write"
  by (rule scan_overflows) (simp_all add: splittable_def named_def)

section \<open>Data calls\<close>




section \<open>Whole runs\<close>

lemma reachable_inv: "ril_run H pr evs (new_world u) w \<Longrightarrow> ril_inv w"
  by (rule inv_run [OF _ inv_new])

text \<open>
  C10: In every reachable state the contexts on the heap are exactly those somebody will still hand
  back, each by one party: the vendor RIL owes its token once, or one detached thread holds it;
  and no such context is already completed.
\<close>

lemma contexts_have_one_holder:
  assumes "ril_run H pr evs (new_world u) w"
  shows "distinct (owed w @ map snd (threads (adapter w)))
    \<and> set (owed w) \<union> snd ` set (threads (adapter w)) = dom (heap (adapter w))
    \<and> (\<forall>ctx \<in> ran (heap (adapter w)). \<not> isCompleted ctx)"
  using reachable_inv [OF assms]
  by (auto simp: ril_inv_def tokens_def ctx_ok_def ran_def)

text \<open>
  C4: Every accepted request is answered at most once and none is lost: after any run, the ids of
  the accepted requests are the ids of the responses passed up, the ids of the contexts still in
  flight, and the ids of the radio state queries still to run.
\<close>

lemma requests_conserved:
  assumes "ril_run H log_pr evs (new_world []) w"
  shows "mset (accepted w) =
     mset (answered (upper (adapter w)))
     + image_mset (owner (adapter w)) (mset (owed w @ map snd (threads (adapter w))))
     + mset (radio w)"
  using balanced_run [OF assms inv_new balanced_new]
  by (simp add: balanced_def waiting_def tokens_def)

text \<open>A run to evaluate: two requests, one of them answered.\<close>

definition sample_pref_request :: "u8 list" where
  "sample_pref_request = replicate MAX_URIL_PAYLOAD_SIZE 0"

definition sample_evs :: "ril_event list" where
  "sample_evs = [Ev_request Op_getNetworkPreferenceV1 7 1, Ev_request Op_setScreenStateV1 8 0,
                 Ev_answer 1]"

lemma screen_answer:
  assumes "heap a p = Some (new_context RIL_REQUEST_SCREEN_STATE uid sid)"
  shows "\<exists>m. handleRilResponse H log_pr (Some p) e data a =
      Ok (True, a\<lparr>upper := upper a @ [m], heap := (heap a)(p := None)\<rparr>)
    \<and> is_indication m = 0 \<and> unique_id m = uid \<and> sim_id m = sid"
  using assms
  by (simp add: handleRilResponse_def Let_def with_rsp_def new_context_def
      handleRilSetScreenStateResponseV1_def complete_with_def put_rsp_def log_pr_def fresh_rsp_def
      msg_of_rsp_def)
    (rule exI, rule conjI, rule refl, simp)

lemma sample_run:
  "\<exists>w0 w. ril_run H log_pr (take 2 sample_evs) (new_world []) w0
     \<and> ril_run H log_pr (drop 2 sample_evs) w0 w
     \<and> ril_run H log_pr sample_evs (new_world []) w
     \<and> accepted w = [(7, 1), (8, 0)] \<and> answered (upper (adapter w)) = [(8, 0)] \<and> owed w = [0]
     \<and> threads (adapter w) = [] \<and> radio w = [] \<and> owner (adapter w) 0 = (7, 1)
     \<and> heap (adapter w) 0 = Some (new_context RIL_REQUEST_GET_PREFERRED_NETWORK_TYPE 7 1)
     \<and> heap (adapter w) 1 = None"
proof -
  let ?w0 = "new_world [] :: uril_protocol_msg_t list ril_world"
  obtain a1 where a1: "android_call H Op_getNetworkPreferenceV1 [] 7 1 (adapter ?w0) = Ok (True, a1)"
    "heap a1 = [0 \<mapsto> new_context RIL_REQUEST_GET_PREFERRED_NETWORK_TYPE 7 1]" "next_token a1 = 1"
    "sent_tokens (adapter ?w0) a1 = [0]" "funcs a1" "threads a1 = []" "upper a1 = []"
    by (simp add: getNetworkPreferenceV1_def send_request_Ok_iff new_world_def new_adapter_def
        sent_tokens_def)
  let ?w1 = "?w0\<lparr>adapter := a1, owed := [0], radio := [], accepted := [(7, 1)]\<rparr>"
  have s1: "ril_step H log_pr (Ev_request Op_getNetworkPreferenceV1 7 1) ?w0 ?w1"
    using ril_step.request [OF a1(1)] a1(4) by (simp add: new_world_def)
  obtain a2 where a2: "android_call H Op_setScreenStateV1 [] 8 0 (adapter ?w1) = Ok (True, a2)"
    "heap a2 = (heap a1)(1 \<mapsto> new_context RIL_REQUEST_SCREEN_STATE 8 0)"
    "sent_tokens (adapter ?w1) a2 = [1]" "threads a2 = []" "upper a2 = []"
    using a1 by (simp add: setScreenStateV1_def send_request_Ok_iff sent_tokens_def)
  let ?w2 = "?w1\<lparr>adapter := a2, owed := [0, 1], radio := [], accepted := [(7, 1), (8, 0)]\<rparr>"
  have s2: "ril_step H log_pr (Ev_request Op_setScreenStateV1 8 0) ?w1 ?w2"
    using ril_step.request [OF a2(1)] a2(3) by simp
  obtain m where m: "handleRilResponse H log_pr (Some 1) RIL_E_SUCCESS Data_null a2 =
      Ok (True, a2\<lparr>upper := upper a2 @ [m], heap := (heap a2)(1 := None)\<rparr>)"
    "is_indication m = 0" "unique_id m = 8" "sim_id m = 0"
    using screen_answer [of a2 1 8 0 H RIL_E_SUCCESS Data_null] a2(2) by auto
  let ?w3 = "?w2\<lparr>adapter := a2\<lparr>upper := upper a2 @ [m], heap := (heap a2)(1 := None)\<rparr>, owed := [0]\<rparr>"
  have s3: "ril_step H log_pr (Ev_answer 1) ?w2 ?w3"
    using ril_step.answer [of 1 ?w2 H log_pr RIL_E_SUCCESS Data_null] m(1) by simp
  have r2: "ril_run H log_pr (([] @ [Ev_request Op_getNetworkPreferenceV1 7 1])
      @ [Ev_request Op_setScreenStateV1 8 0]) ?w0 ?w2"
    by (intro run_snoc [OF run_snoc [OF run_nil s1] s2])
  note r3 = run_snoc [OF r2 s3] and r1 = run_snoc [OF run_nil s3]
  show ?thesis
    using r1 r2 r3
    by (intro exI [of _ ?w2] exI [of _ ?w3])
      (simp add: sample_evs_def answered_def m a2 a1 owner_def new_context_def eval_nat_numeral)
qed

lemma contexts_have_one_holder_witness:
  "\<exists>w. ril_run sample_h log_pr sample_evs (new_world []) w
     \<and> distinct (owed w @ map snd (threads (adapter w)))
     \<and> set (owed w) \<union> snd ` set (threads (adapter w)) = dom (heap (adapter w))"
  using sample_run [of sample_h] contexts_have_one_holder [of sample_h log_pr sample_evs "[]"] by blast

lemma requests_conserved_witness:
  "\<exists>w. ril_run sample_h log_pr sample_evs (new_world []) w
     \<and> mset (accepted w) = mset (answered (upper (adapter w)))
         + image_mset (owner (adapter w)) (mset (owed w @ map snd (threads (adapter w))))
         + mset (radio w)"
  using sample_run [of sample_h] requests_conserved [of sample_h sample_evs] by blast

lemma potential_run:
  "ril_run H pr evs w w' \<Longrightarrow> ril_inv w \<Longrightarrow> \<forall>ev \<in> set evs. internal ev
   \<Longrightarrow> length evs + potential w' \<le> potential w"
proof (induction rule: ril_run.induct)
  case (run_snoc evs w w' ev w'')
  have "ril_inv w'" using inv_run [OF run_snoc.hyps(1) run_snoc.prems(1)] .
  then have "potential w'' < potential w'"
    using potential_step [OF run_snoc.hyps(2)] run_snoc.prems(2) by simp
  with run_snoc show ?case by simp
qed simp

lemma potential_0_waiting:
  assumes "ril_inv w" and "potential w = 0"
  shows "tokens w = [] \<and> radio w = []"
proof -
  have "weight (adapter w) p > 0" if p: "p \<in> set (tokens w)" for p
  proof -
    obtain ctx where "heap (adapter w) p = Some ctx" using ril_inv_tokenD [OF assms(1) p] by blast
    then show ?thesis by (simp add: weight_def answers_left_pos)
  qed
  then have "tokens w = []" using assms(2) by (cases "tokens w") (fastforce simp: potential_def)+
  with assms(2) show ?thesis by (simp add: potential_def)
qed

text \<open>
  C11: Answering terminates: from any reachable state, the callbacks and threads that can run without
  a new request number at most the potential, and when it is used up every accepted request has
  been answered exactly once.
\<close>

lemma answering_terminates:
  assumes "ril_run H log_pr evs0 (new_world []) w" and "ril_run H log_pr evs w w'"
    and "\<forall>ev \<in> set evs. internal ev"
  shows "length evs + potential w' \<le> potential w
    \<and> (potential w' = 0 \<longrightarrow> mset (accepted w') = mset (answered (upper (adapter w'))))"
proof -
  have inv: "ril_inv w" using reachable_inv [OF assms(1)] .
  have inv': "ril_inv w'" using inv_run [OF assms(2) inv] .
  have "balanced w'"
    using balanced_run [OF assms(2) inv balanced_run [OF assms(1) inv_new balanced_new]] .
  then have "potential w' = 0 \<longrightarrow> mset (accepted w') = mset (answered (upper (adapter w')))"
    using potential_0_waiting [OF inv'] by (auto simp: balanced_def waiting_def)
  with potential_run [OF assms(2) inv assms(3)] show ?thesis by blast
qed

lemma answering_terminates_witness:
  "\<exists>w w'. ril_run sample_h log_pr (drop 2 sample_evs) w w' \<and> 1 + potential w' \<le> potential w"
proof -
  obtain w w' where w: "ril_run sample_h log_pr (take 2 sample_evs) (new_world []) w"
    "ril_run sample_h log_pr (drop 2 sample_evs) w w'"
    using sample_run [of sample_h] by blast
  have "\<forall>ev \<in> set (drop 2 sample_evs). internal ev" by (simp add: sample_evs_def)
  from answering_terminates [OF w this] w(2) show ?thesis
    by (auto simp: sample_evs_def)
qed

end
