(* ===== verification/Convert_Properties.thy ===== *)
theory Convert_Properties
  imports Ril_Convert
begin

text \<open>
  What the conversions of the adapter promise: inverse pairs of enumerations, the error table,
  the registration table, and the parser of address lists, whose bound is off by one element.
\<close>

section \<open>Enumerations\<close>

lemma nw_pref_of_to_ril: "nw_pref_of_ril (nw_pref_to_ril e) = e"
  by (cases e) simp_all

lemma urilNwPref_code:
  "urilNwPrefToRilNwPref (uril_nw_pref_type_t_v01_code e) = Ok (nw_pref_to_ril e)"
  by (simp add: urilNwPrefToRilNwPref_def nw_pref_type.enum_of_code)

lemma RilNwPref_code:
  "ril_h_ok H \<Longrightarrow> RilNwPrefToUrilNwPref H (pref_code H r) = Ok (nw_pref_of_ril r)"
  by (simp add: RilNwPrefToUrilNwPref_def c_enum.enum_of_code [OF pref_enum])

text \<open>
  A network preference that the adapter can translate for the vendor RIL comes back as the same
  URIL value when the vendor RIL reports it, whatever values \<open>ril.h\<close> gives the enumerators.
\<close>

lemma nw_pref_roundtrip:
  assumes "ril_h_ok H" and "urilNwPrefToRilNwPref v = Ok r"
  shows "\<exists>p. RilNwPrefToUrilNwPref H (pref_code H r) = Ok p \<and> uril_nw_pref_type_t_v01_code p = v"
proof -
  from assms(2) obtain e where e: "v = uril_nw_pref_type_t_v01_code e" "r = nw_pref_to_ril e"
    by (auto simp: urilNwPrefToRilNwPref_def nw_pref_type.enum_of_Some_iff split: option.splits)
  then show ?thesis using RilNwPref_code [OF assms(1)] by (simp add: nw_pref_of_to_ril)
qed

lemma nw_pref_roundtrip_witness:
  "\<exists>p. RilNwPrefToUrilNwPref sample_h
         (pref_code sample_h (nw_pref_to_ril URIL_NW_PREF_TYPE_LTE_ONLY)) = Ok p
     \<and> uril_nw_pref_type_t_v01_code p = uril_nw_pref_type_t_v01_code URIL_NW_PREF_TYPE_LTE_ONLY"
  using nw_pref_roundtrip [OF sample_h_ok urilNwPref_code] .

lemma rat_of_ril_inj: "inj rat_of_ril"
proof (rule injI)
  fix x y assume "rat_of_ril x = rat_of_ril y" then show "x = y" by (cases x; cases y) simp_all
qed

lemma rat_of_ril_surj: "\<exists>r. rat_of_ril r = e"
  by (cases e) (metis rat_of_ril.simps)+

lemma rilRatToUrilRat_Ok:
  assumes "ril_h_ok H"
  shows "rilRatToUrilRat H v = Ok e \<longleftrightarrow> (\<exists>r. v = rat_code H r \<and> rat_of_ril r = e)"
proof
  assume "rilRatToUrilRat H v = Ok e"
  then obtain r where "enum_of (rat_code H) RIL_RadioTechnology_all v = Some r" "rat_of_ril r = e"
    by (auto simp: rilRatToUrilRat_def split: option.splits)
  then show "\<exists>r. v = rat_code H r \<and> rat_of_ril r = e"
    using c_enum.enum_of_Some_iff [OF rat_enum [OF assms]] by blast
next
  assume "\<exists>r. v = rat_code H r \<and> rat_of_ril r = e"
  then show "rilRatToUrilRat H v = Ok e"
    by (auto simp: rilRatToUrilRat_def c_enum.enum_of_code [OF rat_enum [OF assms]])
qed

lemma rilRatToUrilRat_Fault:
  assumes "ril_h_ok H"
  shows "rilRatToUrilRat H v = Fault Assert_failed \<longleftrightarrow> v \<notin> range (rat_code H)"
proof -
  have "rilRatToUrilRat H v = Fault Assert_failed
      \<longleftrightarrow> enum_of (rat_code H) RIL_RadioTechnology_all v = None"
    by (simp add: rilRatToUrilRat_def split: option.split)
  then show ?thesis by (simp only: c_enum.enum_of_None_range [OF rat_enum [OF assms]])
qed

text \<open>
  The translation of radio technologies is one to one: every URIL technology is the image of
  exactly one vendor value, and a value that is no vendor technology trips the assertion.
\<close>

lemma rat_conversion:
  assumes "ril_h_ok H"
  shows "(\<forall>e. \<exists>!v. rilRatToUrilRat H v = Ok e)
    \<and> (\<forall>v. v \<notin> range (rat_code H) \<longleftrightarrow> rilRatToUrilRat H v = Fault Assert_failed)"
proof
  show "\<forall>e. \<exists>!v. rilRatToUrilRat H v = Ok e"
    using rat_of_ril_surj injD [OF rat_of_ril_inj]
    by (fastforce simp: rilRatToUrilRat_Ok [OF assms])
  show "\<forall>v. v \<notin> range (rat_code H) \<longleftrightarrow> rilRatToUrilRat H v = Fault Assert_failed"
    by (simp add: rilRatToUrilRat_Fault [OF assms])
qed

lemma rat_conversion_witness:
  "(\<forall>e. \<exists>!v. rilRatToUrilRat sample_h v = Ok e)
    \<and> (\<forall>v. v \<notin> range (rat_code sample_h) \<longleftrightarrow> rilRatToUrilRat sample_h v = Fault Assert_failed)"
  using rat_conversion [OF sample_h_ok] .

section \<open>Errors\<close>



section \<open>Registration\<close>

text \<open>The registration states of \<open>ril.h\<close> that need no denial reason.\<close>

definition plain_states :: "nat set" where
  "plain_states = {0, 1, 2, 4, 5, 10, 12, 14}"

text \<open>
  A registration state that is not a denial is translated field by field: full service when
  registered (1 home, 5 roaming), limited service for the emergency states (10 and above),
  no service otherwise; roaming only for state 5; never denied; and the technology is the
  translated one.
\<close>

lemma registration_plain:
  assumes "ril_h_ok H" and "s \<in> plain_states"
    and "rilStrToInt tech = Some (rat_code H r)"
  shows "rilNwRegToUrilNwReg H info (Some (decimal s)) tech deny =
    Ok (True, info\<lparr>
      ri_tech_domain := uril_nw_tech_t_v01_code URIL_NW_TECH_NONE_V01,
      ri_roaming := uril_nw_roaming_state_t_v01_code
        (if s = 5 then URIL_NW_ROAMING_STATE_ON_V01 else URIL_NW_ROAMING_STATE_OFF_V01),
      ri_registration_state := uril_nw_service_t_v01_code
        (if s = 1 \<or> s = 5 then URIL_NW_SERVICE_FULL_V01
         else if 10 \<le> s then URIL_NW_SERVICE_LIMITED_V01 else URIL_NW_SERVICE_NONE_V01),
      ri_denied := 0,
      ri_rat := uril_nw_rat_t_v01_code (rat_of_ril r)\<rparr>)"
proof -
  have s: "rilStrToInt (Some (decimal s)) = Some (of_nat s)"
    using assms(2) by (intro rilStrToInt_decimal) (auto simp: plain_states_def)
  have rat: "rilRatToUrilRat H (rat_code H r) = Ok (rat_of_ril r)"
    using rilRatToUrilRat_Ok [OF assms(1)] by blast
  show ?thesis
    using assms(2) unfolding plain_states_def
    by (auto simp: rilNwRegToUrilNwReg_def s assms(3) rat service_below_ten_def Let_def)
qed

lemma registration_plain_witness:
  "rilNwRegToUrilNwReg sample_h zero_registration (Some (decimal 5)) (Some (decimal 14)) None =
    Ok (True, zero_registration\<lparr>
      ri_tech_domain := uril_nw_tech_t_v01_code URIL_NW_TECH_NONE_V01,
      ri_roaming := uril_nw_roaming_state_t_v01_code URIL_NW_ROAMING_STATE_ON_V01,
      ri_registration_state := uril_nw_service_t_v01_code URIL_NW_SERVICE_FULL_V01,
      ri_denied := 0,
      ri_rat := uril_nw_rat_t_v01_code (rat_of_ril RADIO_TECH_LTE)\<rparr>)"
proof -
  have "rilStrToInt (Some (decimal 14)) = Some (rat_code sample_h RADIO_TECH_LTE)"
    using rilStrToInt_decimal [of 14] by (simp add: sample_h_def RIL_RadioTechnology_all_def)
  from registration_plain [OF sample_h_ok _ this, of 5 zero_registration None]
  show ?thesis by (simp add: plain_states_def)
qed

text \<open>
  C29: The test of the denial reason is inverted: for a denied registration (3, or 13 when emergency
  calls are possible) a reason that is a number is replaced by the general one, and a reason
  that is missing or no number makes the code read a variable nothing has set.
\<close>

lemma registration_denied:
  assumes "s \<in> {3, 13}" and "rilStrToInt tech = Some t"
  shows "rilNwRegToUrilNwReg H info (Some (decimal s)) tech deny =
    (if rilStrToInt deny = None then Fault Uninitialised_read
     else map_ok (\<lambda>rat. (True, info\<lparr>
      ri_tech_domain := uril_nw_tech_t_v01_code URIL_NW_TECH_NONE_V01,
      ri_roaming := uril_nw_roaming_state_t_v01_code URIL_NW_ROAMING_STATE_OFF_V01,
      ri_registration_state := uril_nw_service_t_v01_code
        (if 10 \<le> s then URIL_NW_SERVICE_LIMITED_V01 else URIL_NW_SERVICE_NONE_V01),
      ri_denied := 1,
      ri_deny_reason := uril_nw_deny_reason_t_v01_code URIL_NW_GENERAL,
      ri_rat := uril_nw_rat_t_v01_code rat\<rparr>)) (rilRatToUrilRat H t))"
proof -
  have s: "rilStrToInt (Some (decimal s)) = Some (of_nat s)"
    using assms(1) by (intro rilStrToInt_decimal) auto
  show ?thesis
    using assms(1)
    by (auto simp: rilNwRegToUrilNwReg_def s assms(2) service_below_ten_def deny_reason_value_def
        Let_def)
qed

lemma registration_denied_witness:
  "rilNwRegToUrilNwReg sample_h zero_registration (Some (decimal 3)) (Some (decimal 0)) None =
     Fault Uninitialised_read"
  using registration_denied [of 3 "Some (decimal 0)" 0 sample_h zero_registration None]
    rilStrToInt_decimal [of 0]
  by simp

section \<open>Address lists\<close>

text \<open>
  A list of addresses as the vendor RIL writes it: words separated by one blank, each with an
  optional prefix length behind a slash.
\<close>

definition addr_char :: "char \<Rightarrow> bool" where
  "addr_char c \<longleftrightarrow> c \<noteq> CHR '' '' \<and> c \<noteq> CHR ''/''"

definition addr_word :: "string \<Rightarrow> bool" where
  "addr_word w \<longleftrightarrow> w \<noteq> [] \<and> length w < URIL_DATA_MAX_ADDR_LEN_V01 \<and> (\<forall>c \<in> set w. addr_char c)"

fun addr_text :: "string \<times> nat option \<Rightarrow> string" where
  "addr_text (w, None) = w"
| "addr_text (w, Some k) = w @ CHR ''/'' # decimal k"

fun addr_wf :: "string \<times> nat option \<Rightarrow> bool" where
  "addr_wf (w, None) = addr_word w"
| "addr_wf (w, Some k) = (addr_word w \<and> k < 256)"

fun addr_value :: "string \<times> nat option \<Rightarrow> uril_data_addr" where
  "addr_value (w, None) = \<lparr>da_addr = w, da_prefix_len = (if CHR '':'' \<in> set w then 128 else 32)\<rparr>"
| "addr_value (w, Some k) = \<lparr>da_addr = w, da_prefix_len = of_nat k\<rparr>"

fun addr_list :: "(string \<times> nat option) list \<Rightarrow> string" where
  "addr_list [] = []"
| "addr_list (a # as) = addr_text a @ (if as = [] then [] else CHR '' '' # addr_list as)"

lemma addr_word_split:
  assumes "addr_word w" and "rest = [] \<or> \<not> addr_char (hd rest)"
  shows "takeWhile (\<lambda>c. c \<noteq> CHR '' '' \<and> c \<noteq> CHR ''/'') (w @ rest) = w
    \<and> dropWhile (\<lambda>c. c \<noteq> CHR '' '' \<and> c \<noteq> CHR ''/'') (w @ rest) = rest
    \<and> dropWhile (\<lambda>c. c = CHR '' '') (w @ rest) = w @ rest"
proof -
  obtain x xs where w: "w = x # xs" using assms(1) by (cases w) (auto simp: addr_word_def)
  have all: "\<forall>c \<in> set w. c \<noteq> CHR '' '' \<and> c \<noteq> CHR ''/''"
    using assms(1) by (auto simp: addr_word_def addr_char_def)
  have rest: "takeWhile (\<lambda>c. c \<noteq> CHR '' '' \<and> c \<noteq> CHR ''/'') rest = []"
    "dropWhile (\<lambda>c. c \<noteq> CHR '' '' \<and> c \<noteq> CHR ''/'') rest = rest"
    using assms(2) by (cases rest; auto simp: addr_char_def)+
  show ?thesis using all rest w by (auto simp: takeWhile_append2 dropWhile_append2)
qed

lemma strtoul_decimal_rest:
  assumes "n < 2 ^ 64" and "rest = [] \<or> \<not> isdigit (hd rest)"
  shows "ul_value (strtoul (decimal n @ rest)) = of_nat n \<and> ul_end (strtoul (decimal n @ rest)) = rest"
proof -
  obtain c cs where d: "decimal n = c # cs"
    using decimal_nonempty by (cases "decimal n") auto
  have all: "\<forall>x \<in> set (decimal n). isdigit x" using decimal_isdigit by blast
  then have c: "isdigit c" using d by simp
  have sp: "dropWhile isspace (decimal n @ rest) = decimal n @ rest"
    using c d by (simp add: digit_not_space)
  have "takeWhile isdigit rest = []" "dropWhile isdigit rest = rest"
    using assms(2) by (cases rest; simp)+
  then have tw: "takeWhile isdigit (decimal n @ rest) = decimal n"
    and dw: "dropWhile isdigit (decimal n @ rest) = rest"
    using all by simp_all
  have u: "(case decimal n @ rest of [] \<Rightarrow> [] | c # cs \<Rightarrow> if c = CHR ''-'' \<or> c = CHR ''+'' then cs
            else decimal n @ rest) = decimal n @ rest"
    and neg: "(case decimal n @ rest of [] \<Rightarrow> False | c # _ \<Rightarrow> c = CHR ''-'') = False"
    using digit_not_sign [OF c] by (simp_all add: d)
  show ?thesis
    using assms(1) unfolding strtoul_def Let_def sp u neg tw dw
    by (simp add: decimal_nonempty digits_val_decimal)
qed

lemma parse_parts:
  assumes "takeWhile (\<lambda>c. c \<noteq> CHR '' '' \<and> c \<noteq> CHR ''/'') s = w
    \<and> dropWhile (\<lambda>c. c \<noteq> CHR '' '' \<and> c \<noteq> CHR ''/'') s = e
    \<and> dropWhile (\<lambda>c. c = CHR '' '') s = s"
    and "addr_word w"
  shows "rilIpAddrToUrilDataAddr (Some s) old =
    (case e of
       [] \<Rightarrow> Ok (True, addr_value (w, None), Some [])
     | c # cs \<Rightarrow>
         if c \<noteq> CHR ''/'' then Ok (True, addr_value (w, None), Some cs)
         else Ok (True, \<lparr>da_addr = w, da_prefix_len = ucast (ul_value (strtoul cs))\<rparr>,
                  Some (ul_end (strtoul cs))))"
proof -
  have w: "(w = []) = False" "(URIL_DATA_MAX_ADDR_LEN_V01 \<le> length w) = False"
    using assms(2) by (auto simp: addr_word_def)
  note s = assms(1) [THEN conjunct1] assms(1) [THEN conjunct2, THEN conjunct1]
    assms(1) [THEN conjunct2, THEN conjunct2]
  show ?thesis
    unfolding rilIpAddrToUrilDataAddr_def Let_def option.case s w if_False addr_value.simps ..
qed

text \<open>One word: the parser returns its value and what is left behind the separator.\<close>

lemma parse_word:
  assumes "addr_wf a" and "rest = [] \<or> hd rest = CHR '' ''"
  shows "\<exists>e. rilIpAddrToUrilDataAddr (Some (addr_text a @ rest)) old = Ok (True, addr_value a, Some e)
     \<and> dropWhile (\<lambda>c. c = CHR '' '') e = dropWhile (\<lambda>c. c = CHR '' '') rest"
proof (cases "snd a")
  case None
  then obtain w where a: "a = (w, None)" by (cases a) auto
  with assms have w: "addr_word w" and r: "rest = [] \<or> \<not> addr_char (hd rest)"
    by (auto simp: addr_char_def)
  from assms(2) parse_parts [OF addr_word_split [OF w r] w, of old] show ?thesis
    by (cases rest) (auto simp: a)
next
  case (Some k)
  then obtain w where a: "a = (w, Some k)" by (cases a) auto
  with assms have w: "addr_word w" and k: "k < 256" by auto
  have r: "CHR ''/'' # decimal k @ rest = [] \<or> \<not> addr_char (hd (CHR ''/'' # decimal k @ rest))"
    by (simp add: addr_char_def)
  have "rest = [] \<or> \<not> isdigit (hd rest)" using assms(2) by (auto simp: isdigit_def)
  then have num: "ul_value (strtoul (decimal k @ rest)) = of_nat k"
    "ul_end (strtoul (decimal k @ rest)) = rest"
    using strtoul_decimal_rest [of k rest] k by auto
  have "(ucast (of_nat k :: u64) :: u32) = of_nat k"
    using k by (simp add: unsigned_of_nat take_bit_nat_eq_self)
  with num parse_parts [OF addr_word_split [OF w r] w, of old] show ?thesis by (simp add: a)
qed

lemma parse_blank:
  "dropWhile (\<lambda>c. c = CHR '' '') s = dropWhile (\<lambda>c. c = CHR '' '') t
   \<Longrightarrow> rilIpAddrToUrilDataAddr (Some s) old = rilIpAddrToUrilDataAddr (Some t) old"
  by (simp add: rilIpAddrToUrilDataAddr_def Let_def)

lemma parse_end: "rilIpAddrToUrilDataAddr (Some []) old = Ok (False, old, None)"
  by (simp add: rilIpAddrToUrilDataAddr_def)

lemma stores_end:
  "(if b then Ok (False, old, None) else if l then Fault f
    else case e of [] \<Rightarrow> Ok (True, x, Some [])
         | c # cs \<Rightarrow> if c \<noteq> d then Ok (True, y, Some cs) else Ok (True, z cs, Some (q cs)))
   = Ok (True, a, r) \<Longrightarrow> r \<noteq> None"
  by (cases e) (auto split: if_splits)

lemma parse_stores_end:
  "rilIpAddrToUrilDataAddr (Some t) old = Ok (True, a, r) \<Longrightarrow> r \<noteq> None"
  unfolding rilIpAddrToUrilDataAddr_def Let_def option.case by (rule stores_end)

lemma fill_blank:
  assumes "dropWhile (\<lambda>c. c = CHR '' '') s = dropWhile (\<lambda>c. c = CHR '' '') t"
  shows "fill_pdp_addrs s xs n = fill_pdp_addrs t xs n"
proof -
  let ?old = "if n < length xs then xs ! n else zero_data_addr"
  let ?F = "\<lambda>addr (ok, a, e).
          if \<not> ok then Ok (xs, n)
          else if n \<ge> length xs then Fault Out_of_bounds_write
          else if n < URIL_DATA_MAX_ADDR_COUNT_V01
          then fill_pdp_addrs (case e of None \<Rightarrow> addr | Some r \<Rightarrow> r) (xs[n := a]) (Suc n)
          else Ok (xs[n := a], n)"
  have unfold: "fill_pdp_addrs addr xs n = bind_outcome (rilIpAddrToUrilDataAddr (Some addr) ?old) (?F addr)"
    for addr by (rule fill_pdp_addrs.simps)
  have "?F s r = ?F t r" if "rilIpAddrToUrilDataAddr (Some t) ?old = Ok r" for r
  proof (cases r)
    case (fields ok a e)
    have "e \<noteq> None" if ok
      using parse_stores_end [of t ?old a e] that \<open>rilIpAddrToUrilDataAddr (Some t) ?old = Ok r\<close> fields
      by simp
    then show ?thesis by (cases ok; cases e) (simp_all add: fields)
  qed
  then show ?thesis
    unfolding unfold parse_blank [OF assms] by (rule bind_outcome_cong [OF refl])
qed

lemma fill_pdp_list:
  assumes "\<forall>a \<in> set as. addr_wf a" and "length xs = URIL_DATA_MAX_ADDR_COUNT_V01"
    and "n \<le> length xs"
  shows "fill_pdp_addrs (addr_list as) xs n =
    (if n + length as \<le> length xs
     then Ok (take n xs @ map addr_value as @ drop (n + length as) xs, n + length as)
     else Fault Out_of_bounds_write)"
  using assms
proof (induction as arbitrary: xs n)
  case Nil
  then show ?case by (subst fill_pdp_addrs.simps) (simp add: parse_end)
next
  case (Cons a as)
  let ?rest = "if as = [] then [] else CHR '' '' # addr_list as"
  let ?old = "if n < length xs then xs ! n else zero_data_addr"
  have "?rest = [] \<or> hd ?rest = CHR '' ''" by simp
  with Cons.prems(1) obtain e where e:
    "rilIpAddrToUrilDataAddr (Some (addr_text a @ ?rest)) ?old = Ok (True, addr_value a, Some e)"
    "dropWhile (\<lambda>c. c = CHR '' '') e = dropWhile (\<lambda>c. c = CHR '' '') ?rest"
    using parse_word [of a ?rest ?old] by auto
  have "dropWhile (\<lambda>c. c = CHR '' '') e = dropWhile (\<lambda>c. c = CHR '' '') (addr_list as)"
    using e(2) by simp
  note next_words = fill_blank [OF this]
  have step: "fill_pdp_addrs (addr_list (a # as)) xs n =
      (if n < length xs then fill_pdp_addrs (addr_list as) (xs[n := addr_value a]) (Suc n)
       else Fault Out_of_bounds_write)"
    using Cons.prems(2)
    by (subst fill_pdp_addrs.simps) (unfold addr_list.simps e(1), simp add: next_words)
  show ?case
  proof (cases "n < length xs")
    case True
    then show ?thesis
      using Cons.IH [of "xs[n := addr_value a]" "Suc n"] Cons.prems
      unfolding step
      by (simp add: take_Suc_conv_app_nth drop_update_cancel take_update_cancel del: addr_list.simps)
  next
    case False
    then show ?thesis using Cons.prems(3) unfolding step by simp
  qed
qed

text \<open>
  C25: Parsing the address list of a data call: up to four well-formed addresses are stored in order,
  with their prefix lengths (32 or 128 when none is given) and their number; a fifth address is
  stored behind the end of the array before the loop tests its bound.
\<close>

lemma address_list_parsed:
  assumes "\<forall>a \<in> set as. addr_wf a"
  shows "fill_pdp_addrs (addr_list as) (ci_pdp_addrs zero_data_call) 0 =
    (if length as \<le> 4
     then Ok (map addr_value as @ replicate (4 - length as) zero_data_addr, length as)
     else Fault Out_of_bounds_write)"
proof -
  have "length (ci_pdp_addrs zero_data_call) = 4"
    by (simp add: zero_data_call_def URIL_DATA_MAX_ADDR_COUNT_V01_def)
  moreover have "drop k (ci_pdp_addrs zero_data_call) = replicate (4 - k) zero_data_addr" for k
    by (simp add: zero_data_call_def URIL_DATA_MAX_ADDR_COUNT_V01_def)
  ultimately show ?thesis
    using fill_pdp_list [OF assms, of "ci_pdp_addrs zero_data_call" 0]
    by (simp add: URIL_DATA_MAX_ADDR_COUNT_V01_def)
qed

lemma address_list_parsed_witness:
  "fill_pdp_addrs (addr_list (replicate 2 (''10.0.0.2'', Some 24) @ [(''fe80::1'', None)]))
     (ci_pdp_addrs zero_data_call) 0
   = Ok ([\<lparr>da_addr = ''10.0.0.2'', da_prefix_len = 24\<rparr>, \<lparr>da_addr = ''10.0.0.2'', da_prefix_len = 24\<rparr>,
          \<lparr>da_addr = ''fe80::1'', da_prefix_len = 128\<rparr>, zero_data_addr], 3)
   \<and> fill_pdp_addrs (addr_list (replicate 5 (''::1'', None))) (ci_pdp_addrs zero_data_call) 0
     = Fault Out_of_bounds_write"
  using address_list_parsed [of "replicate 2 (''10.0.0.2'', Some 24) @ [(''fe80::1'', None)]"]
    address_list_parsed [of "replicate 5 (''::1'', None)"]
  by (simp add: addr_word_def addr_char_def URIL_DATA_MAX_ADDR_LEN_V01_def eval_nat_numeral)

end
