(* ===== verification/Response_Layout.thy ===== *)
theory Response_Layout
  imports Uril_Messages
begin

text \<open>
  Reading responses as a client reads them: the payload the callback gets is cast to the packed
  structure of the message id, and its fields are read at their offsets.  The readers use nothing of
  the encoders but the layouts of the headers.
\<close>

section \<open>Readers\<close>

definition rd16 :: "ctype \<Rightarrow> step list \<Rightarrow> u8 list \<Rightarrow> u16" where
  "rd16 t p bs = from_le16 (bytes_at (field_at t p) 2 bs)"

text \<open>The bytes from a part of a structure on, as a pointer to the part sees them.\<close>

definition part :: "ctype \<Rightarrow> string \<Rightarrow> u8 list \<Rightarrow> u8 list" where
  "part t f bs = drop (field_at t [Dot f]) bs"

definition read_response :: "u8 list \<Rightarrow> uril_response" where
  "read_response bs =
     \<lparr>rsp_result = rd32 uril_response_t_v01 [Dot ''result''] bs,
      rsp_error = rd32 uril_response_t_v01 [Dot ''error''] bs\<rparr>"

definition read_get_pref :: "u8 list \<Rightarrow> uril_nw_get_pref_resp" where
  "read_get_pref bs =
     (let t = uril_nw_get_pref_resp_msg_v01
      in \<lparr>gp_response = read_response (part t ''response'' bs),
          gp_preferred_nw_mode_follows = rd8 t [Dot ''preferred_nw_mode_follows''] bs,
          gp_preferred_nw_mode = rd32 t [Dot ''preferred_nw_mode''] bs\<rparr>)"

definition read_registration :: "u8 list \<Rightarrow> uril_nw_registration_info" where
  "read_registration bs =
     (let t = uril_nw_registration_info_t_v01
      in \<lparr>ri_tech_domain = rd32 t [Dot ''tech_domain''] bs,
          ri_rat = rd32 t [Dot ''rat''] bs,
          ri_roaming = rd32 t [Dot ''roaming''] bs,
          ri_denied = rd8 t [Dot ''denied''] bs,
          ri_deny_reason = rd32 t [Dot ''deny_reason''] bs,
          ri_registration_state = rd32 t [Dot ''registration_state''] bs\<rparr>)"

text \<open>The names of an operator in a cell identity: two strings, read up to their ends.\<close>

definition with_names ::
    "ctype \<Rightarrow> u8 list \<Rightarrow> (string \<Rightarrow> string \<Rightarrow> 'a) \<Rightarrow> 'a outcome" where
  "with_names t bs f =
     bind_outcome (rd_str t [Dot ''mcc''] bs) (\<lambda>mcc.
     bind_outcome (rd_str t [Dot ''mnc''] bs) (\<lambda>mnc. Ok (f mcc mnc)))"

definition read_gsm :: "u8 list \<Rightarrow> uril_cell_identity_gsm outcome" where
  "read_gsm bs =
     (let t = uril_cell_identity_gsm_t_v01
      in with_names t bs (\<lambda>mcc mnc.
           \<lparr>gsm_mcc = mcc, gsm_mnc = mnc, gsm_lac = rd16 t [Dot ''lac''] bs,
            gsm_cid = rd32 t [Dot ''cid''] bs\<rparr>))"

definition read_lte :: "u8 list \<Rightarrow> uril_cell_identity_lte outcome" where
  "read_lte bs =
     (let t = uril_cell_identity_lte_t_v01
      in with_names t bs (\<lambda>mcc mnc.
           \<lparr>lte_mcc = mcc, lte_mnc = mnc, lte_ci = rd32 t [Dot ''ci''] bs,
            lte_pci = rd16 t [Dot ''pci''] bs, lte_tac = rd16 t [Dot ''tac''] bs\<rparr>))"

definition read_wcdma :: "u8 list \<Rightarrow> uril_cell_identity_wcdma outcome" where
  "read_wcdma bs =
     (let t = uril_cell_identity_wcdma_t_v01
      in with_names t bs (\<lambda>mcc mnc.
           \<lparr>wcdma_mcc = mcc, wcdma_mnc = mnc, wcdma_lac = rd16 t [Dot ''lac''] bs,
            wcdma_cid = rd32 t [Dot ''cid''] bs, wcdma_psc = rd16 t [Dot ''psc''] bs\<rparr>))"

definition read_tdscdma :: "u8 list \<Rightarrow> uril_cell_identity_tdscdma outcome" where
  "read_tdscdma bs =
     (let t = uril_cell_identity_tdscdma_t_v01
      in with_names t bs (\<lambda>mcc mnc.
           \<lparr>tds_mcc = mcc, tds_mnc = mnc, tds_lac = rd16 t [Dot ''lac''] bs,
            tds_cid = rd32 t [Dot ''cid''] bs, tds_cpid = rd8 t [Dot ''cpid''] bs\<rparr>))"

definition read_reg_status :: "u8 list \<Rightarrow> uril_nw_registration_status_resp outcome" where
  "read_reg_status bs =
     (let t = uril_nw_get_registration_status_resp_msg_v01
      in bind_outcome (read_gsm (part t ''nw_cell_identity_gsm'' bs)) (\<lambda>gsm.
         bind_outcome (read_lte (part t ''nw_cell_identity_lte'' bs)) (\<lambda>lte.
         bind_outcome (read_wcdma (part t ''nw_cell_identity_wcdma'' bs)) (\<lambda>wcdma.
         bind_outcome (read_tdscdma (part t ''nw_cell_identity_tdscdma'' bs)) (\<lambda>tdscdma.
           Ok \<lparr>rs_response = read_response (part t ''response'' bs),
               rs_gsm_follows = rd8 t [Dot ''nw_cell_identity_gsm_follows''] bs,
               rs_gsm = gsm,
               rs_lte_follows = rd8 t [Dot ''nw_cell_identity_lte_follows''] bs,
               rs_lte = lte,
               rs_wcdma_follows = rd8 t [Dot ''nw_cell_identity_wcdma_follows''] bs,
               rs_wcdma = wcdma,
               rs_tdscdma_follows = rd8 t [Dot ''nw_cell_identity_tdscdma_follows''] bs,
               rs_tdscdma = tdscdma,
               rs_voice_follows = rd8 t [Dot ''voice_registration_follows''] bs,
               rs_voice = read_registration (part t ''voice_registration'' bs),
               rs_data_follows = rd8 t [Dot ''data_registration_follows''] bs,
               rs_data = read_registration (part t ''data_registration'' bs)\<rparr>)))))"

definition read_signal :: "u8 list \<Rightarrow> uril_nw_signal_strength_resp" where
  "read_signal bs =
     (let t = uril_nw_get_signal_strength_resp_msg_v01;
          gsm = part t ''gsm_signal_strength'' bs;
          wcdma = part t ''wcdma_signal_strength'' bs;
          tds = part t ''tdscdma_signal_strength'' bs;
          lte = part t ''lte_signal_strength'' bs
      in \<lparr>sg_response = read_response (part t ''response'' bs),
          sg_gsm_follows = rd8 t [Dot ''gsm_signal_strength_follows''] bs,
          sg_gsm_rssi = rd8 uril_nw_gsm_signal_strength_t_v01 [Dot ''rssi''] gsm,
          sg_wcdma_follows = rd8 t [Dot ''wcdma_signal_strength_follows''] bs,
          sg_wcdma_rssi = rd8 uril_nw_wcdma_signal_strength_t_v01 [Dot ''rssi''] wcdma,
          sg_wcdma_ecio = rd16 uril_nw_wcdma_signal_strength_t_v01 [Dot ''ecio''] wcdma,
          sg_tdscdma_follows = rd8 t [Dot ''tdscdma_signal_strength_follows''] bs,
          sg_tdscdma_rssi = rd8 uril_nw_tdscdma_signal_strength_t_v01 [Dot ''rssi''] tds,
          sg_tdscdma_rscp = rd8 uril_nw_tdscdma_signal_strength_t_v01 [Dot ''rscp''] tds,
          sg_tdscdma_ecio = rd16 uril_nw_tdscdma_signal_strength_t_v01 [Dot ''ecio''] tds,
          sg_tdscdma_sinr = rd8 uril_nw_tdscdma_signal_strength_t_v01 [Dot ''sinr''] tds,
          sg_lte_follows = rd8 t [Dot ''lte_signal_strength_follows''] bs,
          sg_lte_rssi = rd8 uril_nw_lte_signal_strength_t_v01 [Dot ''rssi''] lte,
          sg_lte_rsrq = rd8 uril_nw_lte_signal_strength_t_v01 [Dot ''rsrq''] lte,
          sg_lte_rsrp = rd8 uril_nw_lte_signal_strength_t_v01 [Dot ''rsrp''] lte,
          sg_lte_snr = rd8 uril_nw_lte_signal_strength_t_v01 [Dot ''snr''] lte\<rparr>)"

section \<open>Reading what was written\<close>

text \<open>Reading a part of a concatenation: skip what is in front, then take the first piece.\<close>

named_theorems reading \<open>reading fields of a concatenation of pieces\<close>

lemma bytes_skip [reading]: "length xs \<le> k \<Longrightarrow> bytes_at k n (xs @ ys) = bytes_at (k - length xs) n ys"
  by (simp add: bytes_at_def)

lemma bytes_skip1 [reading]: "0 < k \<Longrightarrow> bytes_at k n (x # ys) = bytes_at (k - 1) n ys"
  by (cases k) (simp_all add: bytes_at_def)

lemma bytes_head [reading]: "length xs = n \<Longrightarrow> bytes_at 0 n (xs @ ys) = xs"
  by (simp add: bytes_at_def)

lemma bytes_whole [reading]: "length xs = n \<Longrightarrow> bytes_at 0 n xs = xs"
  by (simp add: bytes_at_def)

lemma drop_skip [reading]: "length xs \<le> k \<Longrightarrow> drop k (xs @ ys) = drop (k - length xs) ys"
  by simp

lemma drop_skip1 [reading]: "0 < k \<Longrightarrow> drop k (x # ys) = drop (k - 1) ys"
  by (cases k) simp_all

lemma nth_skip [reading]: "length xs \<le> k \<Longrightarrow> (xs @ ys) ! k = ys ! (k - length xs)"
  by (simp add: nth_append)

lemma nth_skip1 [reading]: "0 < k \<Longrightarrow> (x # ys) ! k = ys ! (k - 1)"
  by (cases k) simp_all

lemmas reader_defs = rd8_def rd16_def rd32_def rd_str_def part_def field_at_def

lemma read_response_enc [reading]: "read_response (enc_response r @ rest) = r"
  by (simp add: read_response_def enc_response_def reader_defs layout_simps reading)

lemma read_get_pref_enc: "read_get_pref (enc_get_pref r @ rest) = r"
  by (simp add: read_get_pref_def enc_get_pref_def reader_defs layout_simps reading enc_lengths Let_def)

lemma read_registration_enc [reading]: "read_registration (enc_registration r @ rest) = r"
  by (simp add: read_registration_def enc_registration_def reader_defs layout_simps reading Let_def)

text \<open>A name fits its array of four bytes.\<close>

definition name_ok :: "string \<Rightarrow> bool" where
  "name_ok s \<longleftrightarrow> length s < 4 \<and> (\<forall>c \<in> set s. c \<noteq> CHR 0x00)"

lemma c_string_name [reading]: "name_ok s \<Longrightarrow> c_string (enc_str 4 s @ rest) = Ok s"
  by (intro c_string_enc_str) (auto simp: name_ok_def)

lemma read_gsm_enc [reading]:
  "name_ok (gsm_mcc c) \<Longrightarrow> name_ok (gsm_mnc c) \<Longrightarrow> read_gsm (enc_gsm c @ rest) = Ok c"
  by (simp add: read_gsm_def with_names_def enc_gsm_def reader_defs layout_simps reading enc_lengths Let_def)

lemma read_lte_enc [reading]:
  "name_ok (lte_mcc c) \<Longrightarrow> name_ok (lte_mnc c) \<Longrightarrow> read_lte (enc_lte c @ rest) = Ok c"
  by (simp add: read_lte_def with_names_def enc_lte_def reader_defs layout_simps reading enc_lengths Let_def)

lemma read_wcdma_enc [reading]:
  "name_ok (wcdma_mcc c) \<Longrightarrow> name_ok (wcdma_mnc c) \<Longrightarrow> read_wcdma (enc_wcdma c @ rest) = Ok c"
  by (simp add: read_wcdma_def with_names_def enc_wcdma_def reader_defs layout_simps reading enc_lengths Let_def)

lemma read_tdscdma_enc [reading]:
  "name_ok (tds_mcc c) \<Longrightarrow> name_ok (tds_mnc c) \<Longrightarrow> read_tdscdma (enc_tdscdma c @ rest) = Ok c"
  by (simp add: read_tdscdma_def with_names_def enc_tdscdma_def reader_defs layout_simps reading enc_lengths Let_def)

lemma read_signal_enc: "read_signal (enc_signal r @ rest) = r"
  by (simp add: read_signal_def enc_signal_def reader_defs layout_simps reading enc_lengths Let_def)

definition names_ok :: "uril_nw_registration_status_resp \<Rightarrow> bool" where
  "names_ok r \<longleftrightarrow>
     name_ok (gsm_mcc (rs_gsm r)) \<and> name_ok (gsm_mnc (rs_gsm r))
     \<and> name_ok (lte_mcc (rs_lte r)) \<and> name_ok (lte_mnc (rs_lte r))
     \<and> name_ok (wcdma_mcc (rs_wcdma r)) \<and> name_ok (wcdma_mnc (rs_wcdma r))
     \<and> name_ok (tds_mcc (rs_tdscdma r)) \<and> name_ok (tds_mnc (rs_tdscdma r))"

lemma read_reg_status_enc: "names_ok r \<Longrightarrow> read_reg_status (enc_reg_status r @ rest) = Ok r"
  by (simp add: read_reg_status_def enc_reg_status_def reader_defs layout_simps reading enc_lengths Let_def
      names_ok_def)

text \<open>The payload array holds the whole of these structures, so cutting to its size loses nothing.\<close>

lemma payload_of_body:
  "length bs \<le> MAX_URIL_PAYLOAD_SIZE \<Longrightarrow> \<exists>rest. take MAX_URIL_PAYLOAD_SIZE (bs @ zero_payload) = bs @ rest"
  by simp

section \<open>Sizes\<close>

text \<open>
  The messages that fit in a payload; the scan response, the responses with data calls and the request
  that sets the data profiles are the others.
\<close>

lemma messages_fit:
  "list_all (\<lambda>t. sizeof t \<le> MAX_URIL_PAYLOAD_SIZE)
     [uril_nw_set_pref_req_msg_v01, uril_nw_get_pref_resp_msg_v01,
      uril_nw_get_registration_status_resp_msg_v01, uril_nw_selection_req_msg_v01,
      uril_nw_get_signal_strength_resp_msg_v01, uril_nw_get_cell_access_state_resp_msg_v01,
      uril_radio_set_radio_mode_req_msg_v01, uril_radio_get_radio_mode_resp_msg_v01,
      uril_data_setup_data_call_req_msg_v01, uril_data_deactivate_data_call_req_msg_v01,
      uril_data_set_initial_params_req_msg_v01,
      uril_voice_call_start_req_msg_v01, uril_voice_get_call_list_resp_msg_v01,
      uril_voice_call_stop_req_msg_v01, uril_voice_call_answer_req_msg_v01,
      uril_voice_call_set_auto_answer_req_msg_v01]"
  by (simp add: layout_simps MAX_URIL_PAYLOAD_SIZE_def)

lemma messages_too_big:
  "list_all (\<lambda>t. sizeof t > MAX_URIL_PAYLOAD_SIZE)
     [uril_nw_scan_resp_msg_v01, uril_data_set_data_profiles_req_msg_v01,
      uril_data_setup_data_call_resp_msg_v01, uril_data_get_data_call_list_resp_msg_v01]"
  by (simp add: layout_simps MAX_URIL_PAYLOAD_SIZE_def)

end
