(* ===== verification/Answer_Properties.thy ===== *)
theory Answer_Properties
  imports Ril_Properties Convert_Properties Response_Layout
begin

text \<open>
  What a client reads in the responses: the answers of the vendor RIL through the callback of the
  adapter into the payload, read back at the offsets of the headers.
\<close>

section \<open>Completed contexts\<close>

lemma answer_done:
  assumes "heap a p = Some ctx"
    and "dispatch_response H (with_rsp ctx) e data (rilReqId ctx) = Ok (True, ctx', [])"
    and "isCompleted ctx'" and "rsp ctx' = Some m"
  shows "handleRilResponse H pr (Some p) e data a
    = map_ok (\<lambda>(u, b). (b, a\<lparr>upper := u, heap := (heap a)(p := None)\<rparr>)) (pr (upper a) (msg_of_rsp m))"
  using assms by (simp add: handleRilResponse_def Let_def)

lemma payload_readable:
  assumes "length (body_bytes (r_body m)) \<le> MAX_URIL_PAYLOAD_SIZE"
  obtains rest where "payload (msg_of_rsp m) = body_bytes (r_body m) @ rest"
  using payload_of_body [OF assms] by (auto simp: msg_of_rsp_def)

section \<open>The network preference\<close>

text \<open>
  C27: A preference that was set is the one a client reads: when the vendor RIL reports the value the
  adapter handed it, the response to the request of the preference says SUCCESS, that the preference
  follows, and holds the value that was in the payload of the set request.
\<close>

lemma preference_read_back:
  assumes "ril_h_ok H" and "setNetworkPreferenceV1 H req uid sid a0 = Ok (True, a1)"
    and "on_requests a1 = on_requests a0 @ [call]" and "vc_data call = Req_int v n"
    and "heap a p = Some (new_context RIL_REQUEST_GET_PREFERRED_NETWORK_TYPE uid' sid')"
  shows "\<exists>m. handleRilResponse H pr (Some p) RIL_E_SUCCESS (Data_int v) a
      = map_ok (\<lambda>(u, b). (b, a\<lparr>upper := u, heap := (heap a)(p := None)\<rparr>)) (pr (upper a) m)
    \<and> msg_id m = URIL_NW_GET_PREF_RESP_V01 \<and> unique_id m = uid' \<and> sim_id m = sid'
    \<and> read_get_pref (payload m) =
        \<lparr>gp_response = rilErrnoToUrilResponse RIL_E_SUCCESS, gp_preferred_nw_mode_follows = 1,
         gp_preferred_nw_mode = rd32 uril_nw_set_pref_req_msg_v01 [Dot ''preferred_nw_mode''] req\<rparr>"
proof -
  let ?v = "rd32 uril_nw_set_pref_req_msg_v01 [Dot ''preferred_nw_mode''] req"
  let ?ctx = "new_context RIL_REQUEST_GET_PREFERRED_NETWORK_TYPE uid' sid'"
  obtain r where r: "urilNwPrefToRilNwPref ?v = Ok r" "v = pref_code H r"
    using assms(2-4)
    by (auto simp: setNetworkPreferenceV1_def send_request_def makeTokenForMessage_def sendToVendorRil_def
        outcome_simps split: if_splits)
  obtain q where q: "RilNwPrefToUrilNwPref H v = Ok q" "uril_nw_pref_type_t_v01_code q = ?v"
    using nw_pref_roundtrip [OF assms(1) r(1)] r(2) by blast
  let ?b = "\<lparr>gp_response = rilErrnoToUrilResponse RIL_E_SUCCESS, gp_preferred_nw_mode_follows = 1,
         gp_preferred_nw_mode = ?v\<rparr>"
  let ?m = "put_rsp URIL_NW_GET_PREF_RESP_V01 (sizeof uril_nw_get_pref_resp_msg_v01) (Body_get_pref ?b)
      (fresh_rsp ?ctx)"
  have "dispatch_response H (with_rsp ?ctx) RIL_E_SUCCESS (Data_int v) (rilReqId ?ctx)
      = Ok (True, (with_rsp ?ctx)\<lparr>rsp := Some ?m, isCompleted := True\<rparr>, [])"
    using q by (simp add: handleRilGetNetworkPrefResponseV1_def Let_def complete_with_def with_rsp_def
        new_context_def)
  note answer = answer_done [OF assms(5) this, of ?m pr, simplified]
  have "length (body_bytes (r_body ?m)) \<le> MAX_URIL_PAYLOAD_SIZE"
    by (simp add: put_rsp_def length_enc_get_pref layout_simps MAX_URIL_PAYLOAD_SIZE_def)
  then obtain rest where "payload (msg_of_rsp ?m) = enc_get_pref ?b @ rest"
    by (rule payload_readable) (simp add: put_rsp_def)
  then have "read_get_pref (payload (msg_of_rsp ?m)) = ?b" by (simp add: read_get_pref_enc)
  with answer show ?thesis
    by (intro exI [of _ "msg_of_rsp ?m"]) (simp add: msg_of_rsp_def put_rsp_def fresh_rsp_def new_context_def)
qed

text \<open>A preference is about to be set, while the request to read it is on its way.\<close>

definition reading :: "uril_protocol_msg_t list ril_adapter" where
  "reading = (new_adapter [])\<lparr>funcs := True,
     heap := [0 \<mapsto> new_context RIL_REQUEST_GET_PREFERRED_NETWORK_TYPE 8 1], next_token := 1\<rparr>"

lemma preference_read_back_witness:
  "\<exists>a2 m. handleRilResponse sample_h log_pr (Some 0) RIL_E_SUCCESS
      (Data_int (pref_code sample_h (nw_pref_to_ril URIL_NW_PREF_TYPE_LTE_ONLY))) reading = Ok (True, a2)
    \<and> upper a2 = [m] \<and> unique_id m = 8
    \<and> gp_preferred_nw_mode (read_get_pref (payload m)) = uril_nw_pref_type_t_v01_code URIL_NW_PREF_TYPE_LTE_ONLY"
proof -
  let ?e = URIL_NW_PREF_TYPE_LTE_ONLY
  let ?req = "le32 (uril_nw_pref_type_t_v01_code ?e)"
  let ?call = "\<lparr>vc_request = RIL_REQUEST_SET_PREFERRED_NETWORK_TYPE,
      vc_data = Req_int (pref_code sample_h (nw_pref_to_ril ?e)) 4, vc_token = 1\<rparr>"
  have "field_at uril_nw_set_pref_req_msg_v01 [Dot ''preferred_nw_mode''] = 0" by code_simp
  then have rd: "rd32 uril_nw_set_pref_req_msg_v01 [Dot ''preferred_nw_mode''] ?req = uril_nw_pref_type_t_v01_code ?e"
    by (simp add: rd32_def bytes_whole)
  then have set: "setNetworkPreferenceV1 sample_h ?req 7 1 reading
      = send_request RIL_REQUEST_SET_PREFERRED_NETWORK_TYPE (Req_int (pref_code sample_h (nw_pref_to_ril ?e)) 4) 7 1 reading"
    unfolding setNetworkPreferenceV1_def rd urilNwPref_code by simp
  then obtain a1 where a1: "setNetworkPreferenceV1 sample_h ?req 7 1 reading = Ok (True, a1)"
    "on_requests a1 = on_requests reading @ [?call]"
    by (simp add: send_request_def makeTokenForMessage_def sendToVendorRil_def reading_def new_adapter_def)
  have "heap reading 0 = Some (new_context RIL_REQUEST_GET_PREFERRED_NETWORK_TYPE 8 1)" "upper reading = []"
    by (simp_all add: reading_def new_adapter_def)
  with preference_read_back [OF sample_h_ok a1, of _ _ reading 0 8 1 log_pr] show ?thesis
    using rd by (auto simp: log_pr_def)
qed

section \<open>The registration status\<close>

text \<open>The radio technology in the answer to a registration request.\<close>

definition reg_tech :: "ril_h \<Rightarrow> string option list \<Rightarrow> RIL_RadioTechnology option" where
  "reg_tech H xs = Option.bind (rilStrToInt (entry xs 3)) (enum_of (rat_code H) RIL_RadioTechnology_all)"

definition gsm_cell :: "RIL_RadioTechnology option \<Rightarrow> bool" where
  "gsm_cell t \<longleftrightarrow> t \<in> {Some RADIO_TECH_GPRS, Some RADIO_TECH_EDGE, Some RADIO_TECH_GSM}"

definition wcdma_cell :: "RIL_RadioTechnology option \<Rightarrow> bool" where
  "wcdma_cell t \<longleftrightarrow> t \<in> {Some RADIO_TECH_UMTS, Some RADIO_TECH_HSDPA, Some RADIO_TECH_HSUPA,
     Some RADIO_TECH_HSPA, Some RADIO_TECH_HSPAP}"

definition flag :: "bool \<Rightarrow> u8" where
  "flag b = (if b then 1 else 0)"

text \<open>
  The status that three answers make up: \<open>vs\<close> of the voice, \<open>ds\<close> of the data registration, and the
  operator's \<open>numeric\<close>.  The identity of a GSM, WCDMA or TD-SCDMA cell is in the voice answer, that
  of an LTE cell in the data answer, and only one cell gets the names of the operator.
\<close>

definition reported_status ::
    "ril_h \<Rightarrow> string option list \<Rightarrow> string option list \<Rightarrow> string
     \<Rightarrow> bool \<times> uril_nw_registration_info \<Rightarrow> bool \<times> uril_nw_registration_info
     \<Rightarrow> uril_nw_registration_status_resp" where
  "reported_status H vs ds numeric voice data =
     (let tv = reg_tech H vs; lte = (reg_tech H ds = Some RADIO_TECH_LTE);
          num = (\<lambda>xs k. int_or_minus_one (entry xs k));
          mcc = take 3 numeric; mnc = take 3 (drop 3 numeric)
      in \<lparr>rs_response = rilErrnoToUrilResponse RIL_E_SUCCESS,
          rs_gsm_follows = flag (gsm_cell tv),
          rs_gsm = (if gsm_cell tv
             then \<lparr>gsm_mcc = mcc, gsm_mnc = mnc, gsm_lac = ucast (num vs 1), gsm_cid = num vs 2\<rparr>
             else rs_gsm zero_reg_status),
          rs_lte_follows = flag lte,
          rs_lte = (if lte
             then \<lparr>lte_mcc = (if gsm_cell tv \<or> wcdma_cell tv then [] else mcc),
                   lte_mnc = (if gsm_cell tv \<or> wcdma_cell tv then [] else mnc),
                   lte_ci = num ds 14, lte_pci = ucast (num ds 2), lte_tac = ucast (num ds 1)\<rparr>
             else rs_lte zero_reg_status),
          rs_wcdma_follows = flag (wcdma_cell tv),
          rs_wcdma = (if wcdma_cell tv
             then \<lparr>wcdma_mcc = mcc, wcdma_mnc = mnc, wcdma_lac = ucast (num vs 1), wcdma_cid = num vs 2,
                   wcdma_psc = ucast (num vs 14)\<rparr>
             else rs_wcdma zero_reg_status),
          rs_tdscdma_follows = flag (tv = Some RADIO_TECH_TD_SCDMA),
          rs_tdscdma = (if tv = Some RADIO_TECH_TD_SCDMA
             then \<lparr>tds_mcc = (if lte then [] else mcc), tds_mnc = (if lte then [] else mnc),
                   tds_lac = ucast (num vs 1), tds_cid = num vs 2, tds_cpid = 0\<rparr>
             else rs_tdscdma zero_reg_status),
          rs_voice_follows = flag (fst voice), rs_voice = snd voice,
          rs_data_follows = flag (fst data), rs_data = snd data\<rparr>)"

text \<open>The cells after the voice answer and after the data answer.\<close>

lemma voice_cell:
  "snd (rilCellToUrilCellVoice H s (entry vs 3) lac cid psc) =
    (if gsm_cell (reg_tech H vs)
     then s\<lparr>rs_gsm_follows := 1, rs_gsm := (rs_gsm s)
            \<lparr>gsm_lac := ucast (int_or_minus_one lac), gsm_cid := int_or_minus_one cid\<rparr>\<rparr>
     else if wcdma_cell (reg_tech H vs)
     then s\<lparr>rs_wcdma_follows := 1, rs_wcdma := (rs_wcdma s)
            \<lparr>wcdma_lac := ucast (int_or_minus_one lac), wcdma_cid := int_or_minus_one cid,
             wcdma_psc := ucast (int_or_minus_one psc)\<rparr>\<rparr>
     else if reg_tech H vs = Some RADIO_TECH_TD_SCDMA
     then s\<lparr>rs_tdscdma_follows := 1, rs_tdscdma := (rs_tdscdma s)
            \<lparr>tds_lac := ucast (int_or_minus_one lac), tds_cid := int_or_minus_one cid\<rparr>\<rparr>
     else s)"
  by (cases "rilStrToInt (entry vs 3)")
    (simp_all add: rilCellToUrilCellVoice_def reg_tech_def gsm_cell_def wcdma_cell_def Let_def)

lemma data_cell:
  "snd (rilCellToUrilCellData H s (entry ds 3) tac cid eci) =
    (if reg_tech H ds = Some RADIO_TECH_LTE
     then s\<lparr>rs_lte_follows := 1, rs_lte := (rs_lte s)
            \<lparr>lte_tac := ucast (int_or_minus_one tac), lte_ci := int_or_minus_one eci,
             lte_pci := ucast (int_or_minus_one cid)\<rparr>\<rparr>
     else s)"
  by (cases "rilStrToInt (entry ds 3)") (simp_all add: rilCellToUrilCellData_def reg_tech_def Let_def)

lemma cells_disjoint:
  "gsm_cell t \<Longrightarrow> \<not> wcdma_cell t" "gsm_cell t \<Longrightarrow> t \<noteq> Some RADIO_TECH_TD_SCDMA"
  "wcdma_cell t \<Longrightarrow> t \<noteq> Some RADIO_TECH_TD_SCDMA"
  by (auto simp: gsm_cell_def wcdma_cell_def)

text \<open>An answer that does not complete the context, and the thread it starts.\<close>

lemma answer_more:
  assumes "heap a p = Some ctx"
    and "dispatch_response H (with_rsp ctx) e data (rilReqId ctx) = Ok (True, ctx', [r])"
    and "\<not> isCompleted ctx'" and "p \<notin> snd ` set (threads a)" and "funcs a"
  shows "\<exists>a1. handleRilResponse H pr (Some p) e data a = Ok (True, a1)
    \<and> follow_up_thread r p a1 = Ok (True, a\<lparr>heap := (heap a)(p \<mapsto> ctx'), on_requests := on_requests a @
          [\<lparr>vc_request = r, vc_data = Req_null, vc_token = p\<rparr>]\<rparr>)"
proof -
  have "remove1 (r, p) (threads a @ [(r, p)]) = threads a"
    using assms(4) by (subst remove1_append) (auto simp: image_iff)
  then show ?thesis
    using assms by (simp add: handleRilResponse_def Let_def follow_up_thread_def sendToVendorRil_def)
qed

text \<open>The context between the answers, and the status in it.\<close>

definition reg_context ::
    "ril_request \<Rightarrow> u32 \<Rightarrow> u8 \<Rightarrow> uril_nw_registration_status_resp \<Rightarrow> RilRequestContext" where
  "reg_context r uid sid st =
     (new_context r uid sid)\<lparr>rsp := Some (put_reg st (fresh_rsp (new_context r uid sid)))\<rparr>"

definition voice_status ::
    "ril_h \<Rightarrow> string option list \<Rightarrow> bool \<times> uril_nw_registration_info \<Rightarrow> uril_nw_registration_status_resp"
  where
  "voice_status H vs voice =
     snd (rilCellToUrilCellVoice H
       (zero_reg_status\<lparr>rs_response := rilErrnoToUrilResponse RIL_E_SUCCESS, rs_voice := snd voice,
         rs_voice_follows := flag (fst voice)\<rparr>) (entry vs 3) (entry vs 1) (entry vs 2) (entry vs 14))"

definition data_status ::
    "ril_h \<Rightarrow> string option list \<Rightarrow> bool \<times> uril_nw_registration_info
     \<Rightarrow> uril_nw_registration_status_resp \<Rightarrow> uril_nw_registration_status_resp" where
  "data_status H ds data st =
     snd (rilCellToUrilCellData H
       (st\<lparr>rs_response := rilErrnoToUrilResponse RIL_E_SUCCESS, rs_data := snd data,
         rs_data_follows := flag (fst data)\<rparr>) (entry ds 3) (entry ds 1) (entry ds 2) (entry ds 14))"

lemma put_reg_simps:
  "r_body (put_reg st m) = Body_reg st" "put_reg st (put_reg st' m) = put_reg st m"
  "with_rsp (reg_context r uid sid st) = reg_context r uid sid st"
  by (simp_all add: put_reg_def put_rsp_def with_rsp_def reg_context_def)

lemma voice_answer:
  assumes "rilNwRegToUrilNwReg H zero_registration (entry vs 0) (entry vs 3) (entry vs 13) = Ok voice"
  shows "dispatch_response H (with_rsp (new_context RIL_REQUEST_VOICE_REGISTRATION_STATE uid sid))
      RIL_E_SUCCESS (Data_strings vs) RIL_REQUEST_VOICE_REGISTRATION_STATE
    = Ok (True, reg_context RIL_REQUEST_DATA_REGISTRATION_STATE uid sid (voice_status H vs voice),
          [RIL_REQUEST_DATA_REGISTRATION_STATE])"
proof -
  have "rs_voice zero_reg_status = zero_registration" by (simp add: zero_reg_status_def)
  with assms show ?thesis
    by (simp add: handleRilVoiceRegStateResponseV1_def with_rsp_def new_context_def fresh_rsp_def
        reg_of_body_def strings_of_def voice_status_def reg_context_def flag_def case_prod_unfold)
qed

lemma data_answer:
  assumes "rilNwRegToUrilNwReg H zero_registration (entry ds 0) (entry ds 3) (entry ds 13) = Ok data"
    and "rs_data st = zero_registration"
  shows "dispatch_response H (reg_context r uid sid st)
      RIL_E_SUCCESS (Data_strings ds) RIL_REQUEST_DATA_REGISTRATION_STATE
    = Ok (True, reg_context RIL_REQUEST_OPERATOR uid sid (data_status H ds data st), [RIL_REQUEST_OPERATOR])"
  using assms
  by (simp add: handleRilDataRegStateResponseV1_def reg_context_def put_reg_simps new_context_def
      fresh_rsp_def reg_of_body_def strings_of_def data_status_def flag_def case_prod_unfold)

lemma status_complete:
  assumes "3 \<le> length numeric"
  shows "(let s = (data_status H ds data (voice_status H vs voice))
            \<lparr>rs_response := rilErrnoToUrilResponse RIL_E_SUCCESS\<rparr>
          in if any_cell_follows s then put_mcc_mnc numeric s else Ok s)
    = Ok (reported_status H vs ds numeric voice data)"
  using assms cells_disjoint [of "reg_tech H vs"]
  unfolding data_status_def voice_status_def data_cell voice_cell
  by (cases "gsm_cell (reg_tech H vs)"; cases "wcdma_cell (reg_tech H vs)";
      cases "reg_tech H vs = Some RADIO_TECH_TD_SCDMA"; cases "reg_tech H ds = Some RADIO_TECH_LTE")
    (simp_all add: reported_status_def any_cell_follows_def put_mcc_mnc_def zero_reg_status_def flag_def
      strncpy_def Let_def)

lemma operator_answer:
  assumes "entry os 2 = Some numeric" and "3 \<le> length numeric"
  shows "dispatch_response H (reg_context r uid sid (data_status H ds data (voice_status H vs voice)))
      RIL_E_SUCCESS (Data_strings os) RIL_REQUEST_OPERATOR
    = Ok (True, (reg_context r uid sid (reported_status H vs ds numeric voice data))\<lparr>isCompleted := True\<rparr>, [])"
  using assms(1) status_complete [OF assms(2), of H ds data vs voice]
  by (simp add: handleRilGetOperatorResponseV1_def reg_context_def put_reg_simps reg_of_body_def
      strings_of_def Let_def new_context_def fresh_rsp_def split: if_splits)

lemma names_ok_reported:
  assumes "CHR 0x00 \<notin> set numeric"
  shows "names_ok (reported_status H vs ds numeric voice data)"
proof -
  have "name_ok (take 3 numeric)" "name_ok (take 3 (drop 3 numeric))" "name_ok []"
    using assms by (auto simp: name_ok_def dest: in_set_takeD in_set_dropD)
  then show ?thesis by (simp add: names_ok_def reported_status_def zero_reg_status_def Let_def)
qed

lemma data_status_start: "rs_data (voice_status H vs voice) = zero_registration"
  unfolding voice_status_def voice_cell by (simp add: zero_reg_status_def)

text \<open>
  C9: A registration query is answered once, from three vendor answers: the adapter asks for the data
  registration and for the operator under the same token, frees the context with the last answer,
  and the one response it passes up, read at the offsets of the header, is the status that the three
  answers make up.
\<close>

lemma registration_three_answers:
  assumes "heap a p = Some (new_context RIL_REQUEST_VOICE_REGISTRATION_STATE uid sid)"
    and "funcs a" and "p \<notin> snd ` set (threads a)"
    and "rilNwRegToUrilNwReg H zero_registration (entry vs 0) (entry vs 3) (entry vs 13) = Ok voice"
    and "rilNwRegToUrilNwReg H zero_registration (entry ds 0) (entry ds 3) (entry ds 13) = Ok data"
    and "entry os 2 = Some numeric" and "3 \<le> length numeric" and "CHR 0x00 \<notin> set numeric"
  shows "\<exists>a1 a2 a3 a4 m.
    handleRilResponse H pr (Some p) RIL_E_SUCCESS (Data_strings vs) a = Ok (True, a1)
    \<and> follow_up_thread RIL_REQUEST_DATA_REGISTRATION_STATE p a1 = Ok (True, a2)
    \<and> handleRilResponse H pr (Some p) RIL_E_SUCCESS (Data_strings ds) a2 = Ok (True, a3)
    \<and> follow_up_thread RIL_REQUEST_OPERATOR p a3 = Ok (True, a4)
    \<and> handleRilResponse H pr (Some p) RIL_E_SUCCESS (Data_strings os) a4
      = map_ok (\<lambda>(u, b). (b, a\<lparr>on_requests := on_requests a @
          [\<lparr>vc_request = RIL_REQUEST_DATA_REGISTRATION_STATE, vc_data = Req_null, vc_token = p\<rparr>,
           \<lparr>vc_request = RIL_REQUEST_OPERATOR, vc_data = Req_null, vc_token = p\<rparr>],
          upper := u, heap := (heap a)(p := None)\<rparr>)) (pr (upper a) m)
    \<and> msg_id m = URIL_NW_GET_REGISTRATION_STATUS_RESP_V01 \<and> unique_id m = uid \<and> sim_id m = sid
    \<and> read_reg_status (payload m) = Ok (reported_status H vs ds numeric voice data)"
proof -
  let ?c1 = "reg_context RIL_REQUEST_DATA_REGISTRATION_STATE uid sid (voice_status H vs voice)"
  let ?c2 = "reg_context RIL_REQUEST_OPERATOR uid sid (data_status H ds data (voice_status H vs voice))"
  let ?s = "reported_status H vs ds numeric voice data"
  let ?m = "put_reg ?s (fresh_rsp (new_context RIL_REQUEST_OPERATOR uid sid))"
  let ?r1 = "\<lparr>vc_request = RIL_REQUEST_DATA_REGISTRATION_STATE, vc_data = Req_null, vc_token = p\<rparr>"
  let ?r2 = "\<lparr>vc_request = RIL_REQUEST_OPERATOR, vc_data = Req_null, vc_token = p\<rparr>"
  let ?a2 = "a\<lparr>heap := (heap a)(p \<mapsto> ?c1), on_requests := on_requests a @ [?r1]\<rparr>"
  let ?a4 = "a\<lparr>heap := (heap a)(p \<mapsto> ?c2), on_requests := on_requests a @ [?r1, ?r2]\<rparr>"
  have idle: "\<not> isCompleted ?c1" "\<not> isCompleted ?c2" "rilReqId ?c1 = RIL_REQUEST_DATA_REGISTRATION_STATE"
    "rilReqId ?c2 = RIL_REQUEST_OPERATOR"
    "rilReqId (new_context RIL_REQUEST_VOICE_REGISTRATION_STATE uid sid)
      = RIL_REQUEST_VOICE_REGISTRATION_STATE"
    by (simp_all add: reg_context_def new_context_def)
  obtain a1 where a1: "handleRilResponse H pr (Some p) RIL_E_SUCCESS (Data_strings vs) a = Ok (True, a1)"
    "follow_up_thread RIL_REQUEST_DATA_REGISTRATION_STATE p a1 = Ok (True, ?a2)"
    using answer_more [OF assms(1) _ idle(1) assms(3,2), unfolded idle(5), OF voice_answer [OF assms(4)]]
    by blast
  have "dispatch_response H (with_rsp ?c1) RIL_E_SUCCESS (Data_strings ds) (rilReqId ?c1)
      = Ok (True, ?c2, [RIL_REQUEST_OPERATOR])"
    unfolding put_reg_simps idle by (rule data_answer [OF assms(5) data_status_start])
  from answer_more [OF _ this idle(2), of ?a2 p pr] assms(2,3)
  obtain a3 where a3: "handleRilResponse H pr (Some p) RIL_E_SUCCESS (Data_strings ds) ?a2 = Ok (True, a3)"
    "follow_up_thread RIL_REQUEST_OPERATOR p a3 = Ok (True, ?a4)"
    by auto
  have "dispatch_response H (with_rsp ?c2) RIL_E_SUCCESS (Data_strings os) (rilReqId ?c2)
      = Ok (True, (reg_context RIL_REQUEST_OPERATOR uid sid ?s)\<lparr>isCompleted := True\<rparr>, [])"
    unfolding put_reg_simps idle by (rule operator_answer [OF assms(6,7)])
  from answer_done [OF _ this, of ?a4 p ?m pr]
  have last: "handleRilResponse H pr (Some p) RIL_E_SUCCESS (Data_strings os) ?a4
      = map_ok (\<lambda>(u, b). (b, a\<lparr>on_requests := on_requests a @ [?r1, ?r2], upper := u,
          heap := (heap a)(p := None)\<rparr>)) (pr (upper a) (msg_of_rsp ?m))"
    by (simp add: reg_context_def)
  have "length (body_bytes (r_body ?m)) \<le> MAX_URIL_PAYLOAD_SIZE"
    by (simp add: put_reg_simps length_enc_reg_status layout_simps MAX_URIL_PAYLOAD_SIZE_def)
  then obtain rest where "payload (msg_of_rsp ?m) = enc_reg_status ?s @ rest"
    by (rule payload_readable) (simp add: put_reg_simps)
  then have "read_reg_status (payload (msg_of_rsp ?m)) = Ok ?s"
    using read_reg_status_enc [OF names_ok_reported [OF assms(8)]] by simp
  moreover have "msg_id (msg_of_rsp ?m) = URIL_NW_GET_REGISTRATION_STATUS_RESP_V01"
    "unique_id (msg_of_rsp ?m) = uid" "sim_id (msg_of_rsp ?m) = sid"
    by (simp_all add: msg_of_rsp_def put_reg_def put_rsp_def fresh_rsp_def new_context_def)
  ultimately show ?thesis using a1 a3 last by blast
qed

text \<open>Voice on WCDMA and data on LTE: both cells follow, but only the WCDMA cell gets the names.\<close>

definition sample_voice :: "string option list" where
  "sample_voice = [Some (decimal 1), Some (decimal 7), Some (decimal 9), Some (decimal 3)]"

definition sample_data :: "string option list" where
  "sample_data = [Some (decimal 1), Some (decimal 5), Some (decimal 6), Some (decimal 14)]"

definition asking :: "uril_protocol_msg_t list ril_adapter" where
  "asking = (new_adapter [])\<lparr>funcs := True,
     heap := [0 \<mapsto> new_context RIL_REQUEST_VOICE_REGISTRATION_STATE 7 1], next_token := 1\<rparr>"

lemma sample_registered:
  "\<exists>voice. rilNwRegToUrilNwReg sample_h zero_registration (entry sample_voice 0) (entry sample_voice 3)
     (entry sample_voice 13) = Ok voice"
  "\<exists>data. rilNwRegToUrilNwReg sample_h zero_registration (entry sample_data 0) (entry sample_data 3)
     (entry sample_data 13) = Ok data"
  "reg_tech sample_h sample_voice = Some RADIO_TECH_UMTS"
  "reg_tech sample_h sample_data = Some RADIO_TECH_LTE"
proof -
  have num: "rilStrToInt (Some (decimal 3)) = Some (rat_code sample_h RADIO_TECH_UMTS)"
    "rilStrToInt (Some (decimal 14)) = Some (rat_code sample_h RADIO_TECH_LTE)"
    using rilStrToInt_decimal [of 3] rilStrToInt_decimal [of 14]
    by (simp_all add: sample_h_def RIL_RadioTechnology_all_def)
  have one: "rilStrToInt (Some (decimal 1)) = Some 1" using rilStrToInt_decimal [of 1] by simp
  have rat: "rilRatToUrilRat sample_h (rat_code sample_h r) = Ok (rat_of_ril r)" for r
    using rilRatToUrilRat_Ok [OF sample_h_ok] by blast
  show "\<exists>voice. rilNwRegToUrilNwReg sample_h zero_registration (entry sample_voice 0) (entry sample_voice 3)
     (entry sample_voice 13) = Ok voice"
    "\<exists>data. rilNwRegToUrilNwReg sample_h zero_registration (entry sample_data 0) (entry sample_data 3)
     (entry sample_data 13) = Ok data"
    by (auto simp: entry_def sample_voice_def sample_data_def rilNwRegToUrilNwReg_def one num rat simp del: One_nat_def)
  show "reg_tech sample_h sample_voice = Some RADIO_TECH_UMTS" "reg_tech sample_h sample_data = Some RADIO_TECH_LTE"
    by (simp_all add: reg_tech_def entry_def sample_voice_def sample_data_def num
        c_enum.enum_of_code [OF rat_enum [OF sample_h_ok]])
qed

lemma registration_three_answers_witness:
  "\<exists>a4 a5 m s. handleRilResponse sample_h log_pr (Some 0) RIL_E_SUCCESS
        (Data_strings [None, None, Some ''26201'']) a4 = Ok (True, a5)
    \<and> heap a5 0 = None \<and> upper a5 = [m] \<and> unique_id m = 7 \<and> read_reg_status (payload m) = Ok s
    \<and> rs_wcdma_follows s = 1 \<and> wcdma_mcc (rs_wcdma s) = ''262'' \<and> wcdma_mnc (rs_wcdma s) = ''01''
    \<and> rs_lte_follows s = 1 \<and> lte_mcc (rs_lte s) = []"
proof -
  have a: "heap asking 0 = Some (new_context RIL_REQUEST_VOICE_REGISTRATION_STATE 7 1)" "funcs asking"
    "0 \<notin> snd ` set (threads asking)" "upper asking = []"
    by (simp_all add: asking_def new_adapter_def)
  obtain voice data where r: "rilNwRegToUrilNwReg sample_h zero_registration (entry sample_voice 0)
        (entry sample_voice 3) (entry sample_voice 13) = Ok voice"
    "rilNwRegToUrilNwReg sample_h zero_registration (entry sample_data 0) (entry sample_data 3)
        (entry sample_data 13) = Ok data"
    using sample_registered(1,2) by blast
  have op: "entry [None, None, Some ''26201''] 2 = Some ''26201''" by (simp add: entry_def)
  let ?s = "reported_status sample_h sample_voice sample_data ''26201'' voice data"
  obtain a4 m where m: "handleRilResponse sample_h log_pr (Some 0) RIL_E_SUCCESS
        (Data_strings [None, None, Some ''26201'']) a4
      = map_ok (\<lambda>(u, b). (b, asking\<lparr>on_requests := on_requests asking @
          [\<lparr>vc_request = RIL_REQUEST_DATA_REGISTRATION_STATE, vc_data = Req_null, vc_token = 0\<rparr>,
           \<lparr>vc_request = RIL_REQUEST_OPERATOR, vc_data = Req_null, vc_token = 0\<rparr>],
          upper := u, heap := (heap asking)(0 := None)\<rparr>)) (log_pr (upper asking) m)"
    "unique_id m = 7" "read_reg_status (payload m) = Ok ?s"
    using registration_three_answers [OF a(1-3) r op, of log_pr] by auto
  have fields: "rs_wcdma_follows ?s = 1" "wcdma_mcc (rs_wcdma ?s) = ''262''" "wcdma_mnc (rs_wcdma ?s) = ''01''"
    "rs_lte_follows ?s = 1" "lte_mcc (rs_lte ?s) = []"
    by (simp_all add: reported_status_def sample_registered(3,4) Let_def flag_def wcdma_cell_def)
  obtain a5 where "handleRilResponse sample_h log_pr (Some 0) RIL_E_SUCCESS
        (Data_strings [None, None, Some ''26201'']) a4 = Ok (True, a5)" "heap a5 0 = None" "upper a5 = [m]"
    using m(1) a(4) by (simp add: log_pr_def)
  with m(2,3) fields show ?thesis by blast
qed

section \<open>The signal strength\<close>

definition lte_known :: "RIL_SignalStrength \<Rightarrow> bool" where
  "lte_known s \<longleftrightarrow> lte_signalStrength s \<noteq> 99 \<or> lte_rsrp s \<noteq> INT_MAX \<or> lte_rsrq s \<noteq> INT_MAX
     \<or> lte_rssnr s \<noteq> INT_MAX"

text \<open>Which of GSM, WCDMA, TD-SCDMA, LTE follows.\<close>

definition signal_flags :: "uril_nw_signal_strength_resp \<Rightarrow> u8 list" where
  "signal_flags r = [sg_gsm_follows r, sg_wcdma_follows r, sg_tdscdma_follows r, sg_lte_follows r]"

lemma signal_of_known:
  "signal_of H s n r =
     (if gw_signalStrength s \<noteq> 99 \<or> gw_bitErrorRate s \<noteq> 99
      then r\<lparr>sg_gsm_follows := 1, sg_gsm_rssi := ucast (gw_signalStrength s)\<rparr>
      else if sizeof_signal_v6 H \<le> n \<and> lte_known s
      then r\<lparr>sg_lte_follows := 1, sg_lte_rssi := ucast (lte_signalStrength s),
             sg_lte_rsrq := ucast (lte_rsrq s), sg_lte_rsrp := ucast (lte_rsrp s),
             sg_lte_snr := ucast (lte_rssnr s)\<rparr>
      else if sizeof_signal_v10 H \<le> n \<and> td_rscp s \<noteq> INT_MAX
      then r\<lparr>sg_tdscdma_follows := 1, sg_tdscdma_rscp := ucast (td_rscp s)\<rparr>
      else r)"
  unfolding signal_of_def lte_known_def ..

lemma narrowed: "sint (ucast (v :: u32) :: u8) = signed_take_bit 7 (sint v)"
  by (rule bit_eqI) (auto simp: bit_simps signed_take_bit_eq_iff_take_bit_eq)

text \<open>
  C28: A successful answer with a signal strength is reported for at most one technology: GSM when it is
  known, else LTE when the structure is long enough and any of its values is known, else TD-SCDMA;
  never WCDMA.  The values are narrowed to signed bytes, so one outside that range is read back as
  another number.
\<close>

lemma signal_reported:
  assumes "heap a p = Some (new_context RIL_REQUEST_SIGNAL_STRENGTH uid sid)"
    and "sizeof_signal_v5 H \<le> n"
  shows "\<exists>m. let r = read_signal (payload m); gsm = (gw_signalStrength s \<noteq> 99 \<or> gw_bitErrorRate s \<noteq> 99);
      lte = (\<not> gsm \<and> sizeof_signal_v6 H \<le> n \<and> lte_known s);
      tds = (\<not> gsm \<and> \<not> lte \<and> sizeof_signal_v10 H \<le> n \<and> td_rscp s \<noteq> INT_MAX)
    in handleRilResponse H pr (Some p) RIL_E_SUCCESS (Data_signal s n) a
      = map_ok (\<lambda>(u, b). (b, a\<lparr>upper := u, heap := (heap a)(p := None)\<rparr>)) (pr (upper a) m)
    \<and> msg_id m = URIL_NW_GET_SIGNAL_STRENGTH_RESP_V01 \<and> unique_id m = uid \<and> sim_id m = sid
    \<and> sg_response r = rilErrnoToUrilResponse RIL_E_SUCCESS
    \<and> signal_flags r = [flag gsm, 0, flag tds, flag lte]
    \<and> (gsm \<longrightarrow> sint (sg_gsm_rssi r) = signed_take_bit 7 (sint (gw_signalStrength s)))
    \<and> (lte \<longrightarrow> sint (sg_lte_rssi r) = signed_take_bit 7 (sint (lte_signalStrength s))
        \<and> sint (sg_lte_rsrp r) = signed_take_bit 7 (sint (lte_rsrp s))
        \<and> sint (sg_lte_rsrq r) = signed_take_bit 7 (sint (lte_rsrq s))
        \<and> sint (sg_lte_snr r) = signed_take_bit 7 (sint (lte_rssnr s)))
    \<and> (tds \<longrightarrow> sint (sg_tdscdma_rscp r) = signed_take_bit 7 (sint (td_rscp s)))"
proof -
  let ?ctx = "new_context RIL_REQUEST_SIGNAL_STRENGTH uid sid"
  let ?b = "signal_of H s n (zero_signal_resp\<lparr>sg_response := rilErrnoToUrilResponse RIL_E_SUCCESS\<rparr>)"
  let ?m = "put_rsp URIL_NW_GET_SIGNAL_STRENGTH_RESP_V01 (sizeof uril_nw_get_signal_strength_resp_msg_v01)
      (Body_signal ?b) (fresh_rsp ?ctx)"
  have "dispatch_response H (with_rsp ?ctx) RIL_E_SUCCESS (Data_signal s n) (rilReqId ?ctx)
      = Ok (True, (with_rsp ?ctx)\<lparr>rsp := Some ?m, isCompleted := True\<rparr>, [])"
    using assms(2) by (simp add: handleRilGetSignalStrengthResponseV1_def Let_def complete_with_def
        with_rsp_def new_context_def)
  note answer = answer_done [OF assms(1) this, of ?m pr, simplified]
  have "length (body_bytes (r_body ?m)) \<le> MAX_URIL_PAYLOAD_SIZE"
    by (simp add: put_rsp_def length_enc_signal layout_simps MAX_URIL_PAYLOAD_SIZE_def)
  then obtain rest where "payload (msg_of_rsp ?m) = enc_signal ?b @ rest"
    by (rule payload_readable) (simp add: put_rsp_def)
  then have rd: "read_signal (payload (msg_of_rsp ?m)) = ?b" by (simp add: read_signal_enc)
  show ?thesis
    unfolding Let_def
    by (intro exI [of _ "msg_of_rsp ?m"], unfold rd answer,
        cases "gw_signalStrength s \<noteq> 99 \<or> gw_bitErrorRate s \<noteq> 99";
        cases "sizeof_signal_v6 H \<le> n \<and> lte_known s")
      (auto simp: msg_of_rsp_def put_rsp_def fresh_rsp_def new_context_def signal_of_known
        signal_flags_def flag_def zero_signal_resp_def narrowed)
qed

text \<open>An LTE cell with an RSRP of -140 dBm, which the vendor RIL reports as 140.\<close>

definition weak_lte :: RIL_SignalStrength where
  "weak_lte = \<lparr>gw_signalStrength = 99, gw_bitErrorRate = 99, lte_signalStrength = 1, lte_rsrp = 140,
     lte_rsrq = 20, lte_rssnr = -200, td_rscp = INT_MAX\<rparr>"

definition measuring :: "uril_protocol_msg_t list ril_adapter" where
  "measuring = (new_adapter [])\<lparr>funcs := True,
     heap := [0 \<mapsto> new_context RIL_REQUEST_SIGNAL_STRENGTH 9 0], next_token := 1\<rparr>"

lemma signal_reported_witness:
  "\<exists>a2 m. handleRilResponse sample_h log_pr (Some 0) RIL_E_SUCCESS
        (Data_signal weak_lte (sizeof_signal_v10 sample_h)) measuring = Ok (True, a2)
    \<and> upper a2 = [m] \<and> signal_flags (read_signal (payload m)) = [0, 0, 0, 1]
    \<and> sint (sg_lte_rsrp (read_signal (payload m))) = -116"
proof -
  have "heap measuring 0 = Some (new_context RIL_REQUEST_SIGNAL_STRENGTH 9 0)"
    "sizeof_signal_v5 sample_h \<le> sizeof_signal_v10 sample_h"
    by (simp_all add: measuring_def sample_h_def)
  from signal_reported [OF this, of weak_lte log_pr] obtain m where
    "handleRilResponse sample_h log_pr (Some 0) RIL_E_SUCCESS
        (Data_signal weak_lte (sizeof_signal_v10 sample_h)) measuring
      = map_ok (\<lambda>(u, b). (b, measuring\<lparr>upper := u, heap := (heap measuring)(0 := None)\<rparr>))
          (log_pr (upper measuring) m)"
    "signal_flags (read_signal (payload m)) = [0, 0, 0, 1]"
    "sint (sg_lte_rsrp (read_signal (payload m))) = signed_take_bit 7 (sint (140 :: u32))"
    by (auto simp: Let_def weak_lte_def lte_known_def sample_h_def flag_def)
  moreover have "signed_take_bit 7 (sint (140 :: u32)) = -116" by simp
  moreover have "upper measuring = []" by (simp add: measuring_def new_adapter_def)
  ultimately show ?thesis by (auto simp: log_pr_def)
qed

end
