(* ===== verification/Ril_Threads.thy ===== *)
theory Ril_Threads
  imports Ril_Safety
begin

text \<open>
  The callback \<open>handleRilResponse\<close> as threads of the vendor RIL run it, several at a time.  The handler of
  a registration answer starts a detached thread with the context and returns; only then does the
  callback look at \<open>ctx->isCompleted\<close>.  The detached thread sends the context to the vendor RIL again, which
  may answer before that look.
\<close>

section \<open>Sections of a callback\<close>

text \<open>
  Before the handler; before the look at \<open>ctx->isCompleted\<close>, with the handler's result; before the message
  is passed up; before message and context are deleted.
\<close>

datatype callback_pc =
    Rc_handle nat RIL_Errno ril_data
  | Rc_check nat bool
  | Rc_send nat
  | Rc_delete nat bool
  | Rc_over bool

fun callback_section ::
    "ril_h \<Rightarrow> 'u response_processor \<Rightarrow> callback_pc \<Rightarrow> 'u ril_adapter \<Rightarrow> (callback_pc \<times> 'u ril_adapter) outcome" where
  "callback_section H pr (Rc_handle p e data) a =
     (case heap a p of
        None \<Rightarrow> Fault Use_after_free
      | Some ctx0 \<Rightarrow>
          map_ok (\<lambda>(ret, ctx2, spawned).
              (Rc_check p ret, a\<lparr>heap := (heap a)(p \<mapsto> ctx2), threads := threads a @ map (\<lambda>r. (r, p)) spawned\<rparr>))
            (dispatch_response H (with_rsp ctx0) e data (rilReqId (with_rsp ctx0))))"
| "callback_section H pr (Rc_check p ret) a =
     (if \<not> ret then Ok (Rc_over ret, a)
      else case heap a p of
        None \<Rightarrow> Fault Use_after_free
      | Some ctx \<Rightarrow> Ok (if isCompleted ctx then Rc_send p else Rc_over ret, a))"
| "callback_section H pr (Rc_send p) a =
     (case heap a p of
        None \<Rightarrow> Fault Use_after_free
      | Some ctx \<Rightarrow>
          (case rsp ctx of
             None \<Rightarrow> Ok (Rc_delete p True, a)
           | Some m \<Rightarrow> map_ok (\<lambda>(u, b). (Rc_delete p b, a\<lparr>upper := u\<rparr>)) (pr (upper a) (msg_of_rsp m))))"
| "callback_section H pr (Rc_delete p b) a =
     (case heap a p of
        None \<Rightarrow> Fault Use_after_free
      | Some ctx \<Rightarrow> Ok (Rc_over b, a\<lparr>heap := (heap a)(p := None)\<rparr>))"
| "callback_section H pr (Rc_over b) a = Ok (Rc_over b, a)"

fun callback_sections ::
    "nat \<Rightarrow> ril_h \<Rightarrow> 'u response_processor \<Rightarrow> callback_pc \<Rightarrow> 'u ril_adapter \<Rightarrow> (callback_pc \<times> 'u ril_adapter) outcome"
  where
  "callback_sections 0 H pr pc a = Ok (pc, a)"
| "callback_sections (Suc n) H pr pc a =
     bind_outcome (callback_section H pr pc a) (\<lambda>(pc', a'). callback_sections n H pr pc' a')"

text \<open>A callback whose four sections run without another in between is \<open>handleRilResponse\<close>.\<close>

lemma callback_alone:
  "callback_sections 4 H pr (Rc_handle p e data) a
   = map_ok (\<lambda>(b, a'). (Rc_over b, a')) (handleRilResponse H pr (Some p) e data a)"
proof (cases "heap a p")
  case (Some ctx)
  show ?thesis
  proof (cases "dispatch_response H (with_rsp ctx) e data (rilReqId (with_rsp ctx))")
    case (Ok res)
    obtain ret ctx2 spawned where res: "res = (ret, ctx2, spawned)" by (cases res)
    let ?a = "a\<lparr>heap := (heap a)(p \<mapsto> ctx2), threads := threads a @ map (\<lambda>r. (r, p)) spawned\<rparr>"
    show ?thesis
    proof (cases "rsp ctx2")
      case (Some m)
      with Ok res \<open>heap a p = Some ctx\<close> show ?thesis
        by (cases "pr (upper a) (msg_of_rsp m)") (auto simp: eval_nat_numeral handleRilResponse_def Let_def)
    qed (use Ok res Some in \<open>auto simp: eval_nat_numeral handleRilResponse_def Let_def\<close>)
  qed (use Some in \<open>simp add: eval_nat_numeral handleRilResponse_def\<close>)
qed (simp add: eval_nat_numeral handleRilResponse_def)

section \<open>Callbacks together\<close>

text \<open>
  The world: the adapter, the tokens the vendor RIL owes an answer, the callbacks.  Queries of the radio
  state and indications have no context and are left out.
\<close>

record 'u callback_world =
  the_ril :: "'u ril_adapter"
  owing :: "nat list"
  callbacks :: "callback_pc list"

datatype callback_event =
    Ev_call modem_op "u8 list" u32 u8
  | Ev_answered nat RIL_Errno ril_data
  | Ev_follow_up ril_request nat
  | Ev_step nat

fun callback_does ::
    "ril_h \<Rightarrow> 'u response_processor \<Rightarrow> callback_event \<Rightarrow> 'u callback_world \<Rightarrow> 'u callback_world option outcome" where
  "callback_does H pr (Ev_call op req uid sid) w =
     map_ok (\<lambda>(b, a). Some (w\<lparr>the_ril := a, owing := owing w @ sent_tokens (the_ril w) a\<rparr>))
       (android_call H op req uid sid (the_ril w))"
| "callback_does H pr (Ev_answered p e data) w =
     Ok (if p \<in> set (owing w)
         then Some (w\<lparr>owing := remove1 p (owing w), callbacks := callbacks w @ [Rc_handle p e data]\<rparr>) else None)"
| "callback_does H pr (Ev_follow_up r p) w =
     (if (r, p) \<in> set (threads (the_ril w))
      then map_ok (\<lambda>(b, a). Some (w\<lparr>the_ril := a, owing := owing w @ sent_tokens (the_ril w) a\<rparr>))
             (follow_up_thread r p (the_ril w))
      else Ok None)"
| "callback_does H pr (Ev_step i) w =
     (if i < length (callbacks w)
      then (case callbacks w ! i of
              Rc_over b \<Rightarrow> Ok None
            | pc \<Rightarrow> map_ok (\<lambda>(pc', a). Some (w\<lparr>the_ril := a, callbacks := (callbacks w)[i := pc']\<rparr>))
                     (callback_section H pr pc (the_ril w)))
      else Ok None)"

fun callback_exec ::
    "ril_h \<Rightarrow> 'u response_processor \<Rightarrow> callback_event list \<Rightarrow> 'u callback_world \<Rightarrow> 'u callback_world option outcome" where
  "callback_exec H pr [] w = Ok (Some w)"
| "callback_exec H pr (ev # evs) w =
     bind_outcome (callback_does H pr ev w) (\<lambda>r.
       case r of None \<Rightarrow> Ok None | Some w' \<Rightarrow> callback_exec H pr evs w')"

definition quiet_world :: "'u \<Rightarrow> 'u callback_world" where
  "quiet_world u = \<lparr>the_ril = (new_adapter u)\<lparr>funcs := True\<rparr>, owing = [], callbacks = []\<rparr>"

fun cb_token :: "callback_pc \<Rightarrow> nat option" where
  "cb_token (Rc_handle p e data) = Some p"
| "cb_token (Rc_check p ret) = Some p"
| "cb_token (Rc_send p) = Some p"
| "cb_token (Rc_delete p b) = Some p"
| "cb_token (Rc_over b) = None"

text \<open>A detached thread that sends its request before the callback that has started it is over.\<close>

definition overtakes :: "callback_event \<Rightarrow> 'u callback_world \<Rightarrow> bool" where
  "overtakes ev w \<longleftrightarrow> (case ev of Ev_follow_up r p \<Rightarrow> \<exists>pc \<in> set (callbacks w). cb_token pc = Some p | _ \<Rightarrow> False)"

section \<open>The invariant\<close>

definition tokens_at_work :: "callback_pc list \<Rightarrow> nat list" where
  "tokens_at_work pcs = concat (map (\<lambda>pc. case cb_token pc of None \<Rightarrow> [] | Some p \<Rightarrow> [p]) pcs)"

lemma tokens_at_work_simps [simp]:
  "tokens_at_work [] = []"
  "tokens_at_work (xs @ ys) = tokens_at_work xs @ tokens_at_work ys"
  "tokens_at_work (pc # xs) = (case cb_token pc of None \<Rightarrow> [] | Some p \<Rightarrow> [p]) @ tokens_at_work xs"
  by (simp_all add: tokens_at_work_def)

lemma at_work_iff: "p \<in> set (tokens_at_work pcs) \<longleftrightarrow> (\<exists>pc \<in> set pcs. cb_token pc = Some p)"
  by (force simp: tokens_at_work_def split: option.splits)

definition in_thread :: "'u ril_adapter \<Rightarrow> nat set" where
  "in_thread a = snd ` set (threads a)"

lemma in_thread_same [simp]:
  "in_thread (a\<lparr>heap := h\<rparr>) = in_thread a" "in_thread (a\<lparr>upper := u\<rparr>) = in_thread a"
  "in_thread (a\<lparr>next_token := n\<rparr>) = in_thread a" "in_thread (a\<lparr>on_requests := rs\<rparr>) = in_thread a"
  by (simp_all add: in_thread_def)

text \<open>
  What a callback knows at each point: until its handler has run the context is its own, and so it is
  again when the context is complete; in between a thread has it.
\<close>

fun callback_ok :: "'u ril_adapter \<Rightarrow> callback_pc \<Rightarrow> bool" where
  "callback_ok a (Rc_handle p e data) \<longleftrightarrow> p \<notin> in_thread a \<and> (\<exists>ctx. heap a p = Some ctx \<and> ctx_ok ctx)"
| "callback_ok a (Rc_check p ret) \<longleftrightarrow>
     (case heap a p of None \<Rightarrow> False | Some ctx \<Rightarrow> isCompleted ctx \<longleftrightarrow> p \<notin> in_thread a)"
| "callback_ok a (Rc_send p) \<longleftrightarrow> p \<notin> in_thread a \<and> p \<in> dom (heap a)"
| "callback_ok a (Rc_delete p b) \<longleftrightarrow> p \<notin> in_thread a \<and> p \<in> dom (heap a)"
| "callback_ok a (Rc_over b) \<longleftrightarrow> True"

definition callback_inv :: "'u callback_world \<Rightarrow> bool" where
  "callback_inv w \<longleftrightarrow>
     distinct (owing w @ map snd (threads (the_ril w))) \<and> distinct (tokens_at_work (callbacks w))
     \<and> set (owing w) \<inter> set (tokens_at_work (callbacks w)) = {}
     \<and> (\<forall>p \<in> set (owing w) \<union> in_thread (the_ril w). \<exists>ctx. heap (the_ril w) p = Some ctx \<and> ctx_ok ctx)
     \<and> (\<forall>p \<in> dom (heap (the_ril w)). p < next_token (the_ril w))
     \<and> (\<forall>pc \<in> set (callbacks w). callback_ok (the_ril w) pc)"

lemma quiet_inv: "callback_inv (quiet_world u)"
  by (simp add: callback_inv_def quiet_world_def new_adapter_def in_thread_def)

lemma callback_invD:
  assumes "callback_inv w"
  shows "distinct (owing w)" "distinct (map snd (threads (the_ril w)))"
    "p \<in> set (owing w) \<Longrightarrow> p \<notin> in_thread (the_ril w)"
    "distinct (tokens_at_work (callbacks w))"
    "p \<in> set (owing w) \<Longrightarrow> p \<notin> set (tokens_at_work (callbacks w))"
    "p \<in> set (owing w) \<union> in_thread (the_ril w) \<Longrightarrow> \<exists>ctx. heap (the_ril w) p = Some ctx \<and> ctx_ok ctx"
    "heap (the_ril w) p = Some ctx \<Longrightarrow> p < next_token (the_ril w)"
    "pc \<in> set (callbacks w) \<Longrightarrow> callback_ok (the_ril w) pc"
  using assms unfolding callback_inv_def by (auto simp: in_thread_def)

text \<open>A callback does not notice what happens to the contexts of others.\<close>

lemma callback_ok_frame:
  assumes "callback_ok a pc" and "\<And>q. cb_token pc = Some q \<Longrightarrow> heap a' q = heap a q"
    and "\<And>q. cb_token pc = Some q \<Longrightarrow> q \<in> in_thread a' \<longleftrightarrow> q \<in> in_thread a"
  shows "callback_ok a' pc"
  using assms by (cases pc) (auto simp: dom_def split: option.splits)

lemma at_work_on_heap:
  assumes "callback_inv w" and "p \<in> set (tokens_at_work (callbacks w))"
  shows "p \<in> dom (heap (the_ril w))"
proof -
  obtain pc where "pc \<in> set (callbacks w)" "cb_token pc = Some p" using assms(2) at_work_iff by blast
  with callback_invD(8) [OF assms(1) this(1)] show ?thesis by (cases pc) (auto split: option.splits)
qed

text \<open>A section of a callback about \<open>p\<close>.\<close>

lemma callback_inv_section:
  assumes inv: "callback_inv w" and i: "i < length (callbacks w)" "callbacks w ! i = pc" "cb_token pc = Some p"
    and heap: "\<And>q. q \<noteq> p \<Longrightarrow> heap a' q = heap (the_ril w) q" "dom (heap a') \<subseteq> dom (heap (the_ril w))"
    and ths: "distinct (map snd (threads a'))"
      "\<And>q. q \<noteq> p \<Longrightarrow> q \<in> in_thread a' \<longleftrightarrow> q \<in> in_thread (the_ril w)"
    and mine: "p \<in> in_thread a' \<Longrightarrow> \<exists>ctx. heap a' p = Some ctx \<and> ctx_ok ctx"
    and same: "next_token a' = next_token (the_ril w)"
    and new: "cb_token pc' = Some p \<or> cb_token pc' = None" "callback_ok a' pc'"
  shows "callback_inv (w\<lparr>the_ril := a', callbacks := (callbacks w)[i := pc']\<rparr>)"
proof -
  define xs ys where "xs = take i (callbacks w)" and "ys = drop (Suc i) (callbacks w)"
  have run: "callbacks w = xs @ pc # ys" "(callbacks w)[i := pc'] = xs @ pc' # ys"
    using id_take_nth_drop [OF i(1)] i(1,2) by (simp_all add: xs_def ys_def upd_conv_take_nth_drop)
  have d: "distinct (tokens_at_work xs @ p # tokens_at_work ys)"
    using callback_invD(4) [OF inv] i(3) by (simp add: run(1))
  have p: "p \<notin> set (owing w)" using callback_invD(5) [OF inv, of p] i(3) by (auto simp: run(1))
  have other: "callback_ok a' pc1" if "pc1 \<in> set xs \<union> set ys" for pc1
  proof (rule callback_ok_frame [of "the_ril w"])
    show "callback_ok (the_ril w) pc1" using callback_invD(8) [OF inv, of pc1] that by (auto simp: run(1))
    have "q \<noteq> p" if "cb_token pc1 = Some q" for q
      using d that \<open>pc1 \<in> set xs \<union> set ys\<close> by (auto simp: at_work_iff)
    then show "heap a' q = heap (the_ril w) q" "q \<in> in_thread a' \<longleftrightarrow> q \<in> in_thread (the_ril w)"
      if "cb_token pc1 = Some q" for q using that heap(1) ths(2) by blast+
  qed
  have "\<exists>ctx. heap a' q = Some ctx \<and> ctx_ok ctx" if "q \<in> set (owing w) \<union> in_thread a'" for q
  proof (cases "q = p")
    case True
    with that p mine show ?thesis by blast
  next
    case False
    with that ths(2) have "q \<in> set (owing w) \<union> in_thread (the_ril w)" by blast
    with callback_invD(6) [OF inv this] heap(1) [OF False] show ?thesis by simp
  qed
  moreover have "q \<notin> in_thread a'" if "q \<in> set (owing w)" for q
    using callback_invD(3) [OF inv that] p ths(2) [of q] that by auto
  moreover have "set (owing w) \<inter> set (tokens_at_work (xs @ pc' # ys)) = {}"
    using callback_invD(5) [OF inv] p new(1) by (auto simp: run(1) split: option.splits)
  moreover have "distinct (tokens_at_work (xs @ pc' # ys))" using d new(1) by auto
  moreover have "\<forall>pc1 \<in> set (xs @ pc' # ys). callback_ok a' pc1" using other new(2) by auto
  moreover have "\<forall>q \<in> dom (heap a'). q < next_token a'"
    using callback_invD(7) [OF inv] heap(2) same by auto
  ultimately show ?thesis
    using callback_invD(1) [OF inv] ths(1) unfolding callback_inv_def run(2) by (auto simp: run(2) in_thread_def)
qed

lemma callback_section_inv:
  assumes inv: "callback_inv w" and i: "i < length (callbacks w)" "callbacks w ! i = pc" "cb_token pc = Some p"
    and sec: "callback_section H pr pc (the_ril w) = Ok (pc', a')"
  shows "callback_inv (w\<lparr>the_ril := a', callbacks := (callbacks w)[i := pc']\<rparr>)"
proof -
  have ok: "callback_ok (the_ril w) pc" using callback_invD(8) [OF inv, of pc] i nth_mem by blast
  note frame = callback_inv_section [OF inv i, of a' pc']
  note dist = callback_invD(2) [OF inv]
  show ?thesis
  proof (cases pc)
    case (Rc_handle p1 e data)
    then have p1: "p1 = p" using i(3) by simp
    obtain ctx where ctx: "heap (the_ril w) p = Some ctx" "ctx_ok ctx" "p \<notin> in_thread (the_ril w)"
      using ok by (auto simp: Rc_handle p1)
    obtain ret ctx2 spawned where d: "dispatch_response H (with_rsp ctx) e data (rilReqId (with_rsp ctx)) = Ok (ret, ctx2, spawned)"
      and a': "pc' = Rc_check p ret" "a' = (the_ril w)\<lparr>heap := (heap (the_ril w))(p \<mapsto> ctx2),
        threads := threads (the_ril w) @ map (\<lambda>r. (r, p)) spawned\<rparr>"
      using sec ctx by (auto simp: Rc_handle p1 outcome_simps)
    obtain m where m: "rsp (with_rsp ctx) = Some m" "same_owner (with_rsp ctx) m" using with_rsp_some [OF ctx(2)] .
    have "handled (with_rsp ctx) (ret, ctx2, spawned)"
      using m d ctx(2) by (auto intro: handled_dispatch simp: ctx_ok_def)
    then have "isCompleted ctx2 \<and> spawned = [] \<or> \<not> isCompleted ctx2 \<and> spawned = [rilReqId ctx2] \<and> ctx_ok ctx2"
      by (auto simp: handled_def ctx_ok_def same_owner_def)
    then show ?thesis using ctx dist by (intro frame) (auto simp: a' in_thread_def)
  next
    case (Rc_check p1 ret)
    then show ?thesis using ok sec i(3) dist callback_invD(6) [OF inv, of p]
      by (intro frame) (auto split: if_splits option.splits)
  next
    case (Rc_send p1)
    then show ?thesis using ok sec i(3) dist callback_invD(6) [OF inv, of p]
      by (intro frame) (auto simp: outcome_simps split: option.splits)
  next
    case (Rc_delete p1 b)
    then show ?thesis using ok sec i(3) dist
      by (intro frame) (auto split: option.splits if_splits)
  qed (use i(3) in simp)
qed

lemma callback_does_inv:
  assumes "callback_does H pr ev w = Ok (Some w')" and inv: "callback_inv w" and "\<not> overtakes ev w"
  shows "callback_inv w'"
proof (cases ev)
  case (Ev_call op req uid sid)
  then obtain b a' where call: "android_call H op req uid sid (the_ril w) = Ok (b, a')"
    and w': "w' = w\<lparr>the_ril := a', owing := owing w @ sent_tokens (the_ril w) a'\<rparr>"
    using assms(1) by (auto simp: outcome_simps)
  from request_effect [OF call] show ?thesis
  proof (elim disjE exE conjE)
    assume "a' = the_ril w" "sent_tokens (the_ril w) a' = []"
    then show ?thesis using inv by (simp add: w' callback_inv_def)
  next
    fix r data assume r: "r \<in> first_request op" and s: "sent_tokens (the_ril w) a' = [next_token (the_ril w)]"
      and a': "a' = the_ril w\<lparr>heap := (heap (the_ril w))(next_token (the_ril w) \<mapsto> new_context r uid sid),
                      next_token := Suc (next_token (the_ril w)),
                      on_requests := on_requests (the_ril w) @
                        [\<lparr>vc_request = r, vc_data = data, vc_token = next_token (the_ril w)\<rparr>]\<rparr>"
    let ?n = "next_token (the_ril w)"
    have fresh: "?n \<notin> dom (heap (the_ril w))" using callback_invD(7) [OF inv] by blast
    then have n: "?n \<notin> set (owing w)" "?n \<notin> in_thread (the_ril w)" "?n \<notin> set (tokens_at_work (callbacks w))"
      using callback_invD(6) [OF inv, of ?n] at_work_on_heap [OF inv, of ?n] by auto
    have th: "threads a' = threads (the_ril w)" "in_thread a' = in_thread (the_ril w)" by (simp_all add: a')
    have "callback_ok a' pc" if "pc \<in> set (callbacks w)" for pc
    proof (rule callback_ok_frame [OF callback_invD(8) [OF inv that]])
      fix q assume "cb_token pc = Some q"
      then have "q \<noteq> ?n" using n(3) that unfolding at_work_iff by blast
      then show "heap a' q = heap (the_ril w) q" "q \<in> in_thread a' \<longleftrightarrow> q \<in> in_thread (the_ril w)" by (simp_all add: a')
    qed
    moreover have "\<exists>ctx. heap a' q = Some ctx \<and> ctx_ok ctx"
      if "q \<in> set (owing w @ [?n]) \<union> in_thread a'" for q
    proof (cases "q = ?n")
      case True
      then show ?thesis using ctx_ok_new [OF r] by (simp add: a')
    next
      case False
      then show ?thesis using callback_invD(6) [OF inv, of q] that by (simp add: a' th)
    qed
    moreover have "\<forall>q \<in> dom (heap a'). q < next_token a'"
      using callback_invD(7) [OF inv] by (auto simp: a' less_Suc_eq)
    moreover have "distinct ((owing w @ [?n]) @ map snd (threads a'))"
      using callback_invD(1-3) [OF inv] n by (auto simp: th in_thread_def)
    moreover have "set (owing w @ [?n]) \<inter> set (tokens_at_work (callbacks w)) = {}"
      using callback_invD(5) [OF inv] n(3) by auto
    ultimately show ?thesis
      using callback_invD(4) [OF inv] unfolding callback_inv_def w' s by simp
  qed
next
  case (Ev_answered p e data)
  with assms(1) have w': "p \<in> set (owing w)"
    "w' = w\<lparr>owing := remove1 p (owing w), callbacks := callbacks w @ [Rc_handle p e data]\<rparr>"
    by (auto split: if_splits)
  then show ?thesis
    using callback_invD [OF inv] inv unfolding callback_inv_def by (auto simp: w'(2))
next
  case (Ev_follow_up r p)
  with assms(1) obtain b a' where th: "(r, p) \<in> set (threads (the_ril w))"
    and f: "follow_up_thread r p (the_ril w) = Ok (b, a')"
    and w': "w' = w\<lparr>the_ril := a', owing := owing w @ sent_tokens (the_ril w) a'\<rparr>"
    by (auto simp: outcome_simps split: if_splits)
  note eff = thread_effect [OF f]
  have d: "distinct (map snd (threads (the_ril w)))" using callback_invD(2) [OF inv] .
  have ths: "mset (map snd (threads (the_ril w))) = add_mset p (mset (map snd (threads a')))"
    using mset_snd_remove1 [OF th] eff by simp
  then have "distinct (p # map snd (threads a'))" "set (map snd (threads (the_ril w))) = insert p (set (map snd (threads a')))"
    using d same_mset_tokens [of "map snd (threads (the_ril w))" "p # map snd (threads a')"] by auto
  then have p: "in_thread a' = in_thread (the_ril w) - {p}" "distinct (map snd (threads a'))"
    by (auto simp: in_thread_def)
  have pin: "p \<in> in_thread (the_ril w)" using th by (force simp: in_thread_def)
  have nw: "p \<notin> set (tokens_at_work (callbacks w))" using assms(3) Ev_follow_up by (simp add: overtakes_def at_work_iff)
  have "callback_ok a' pc" if "pc \<in> set (callbacks w)" for pc
  proof (rule callback_ok_frame [OF callback_invD(8) [OF inv that]])
    fix q assume "cb_token pc = Some q"
    then have "q \<noteq> p" using nw that unfolding at_work_iff by blast
    then show "heap a' q = heap (the_ril w) q" "q \<in> in_thread a' \<longleftrightarrow> q \<in> in_thread (the_ril w)"
      using eff p(1) by simp_all
  qed
  moreover have "set (owing w @ [p]) \<union> in_thread a' = set (owing w) \<union> in_thread (the_ril w)" using p(1) pin by auto
  moreover have "distinct ((owing w @ [p]) @ map snd (threads a'))"
    using callback_invD(1,3) [OF inv] p pin by (auto simp: in_thread_def)
  ultimately show ?thesis
    using callback_invD(4-7) [OF inv] nw eff unfolding callback_inv_def by (auto simp: w' in_thread_def)
next
  case (Ev_step i)
  then obtain pc where pc: "i < length (callbacks w)" "callbacks w ! i = pc" "\<forall>b. pc \<noteq> Rc_over b"
    using assms(1) by (auto split: if_splits callback_pc.splits)
  then obtain p where p: "cb_token pc = Some p" by (cases pc) auto
  obtain pc' a' where "callback_section H pr pc (the_ril w) = Ok (pc', a')"
    "w' = w\<lparr>the_ril := a', callbacks := (callbacks w)[i := pc']\<rparr>"
    using assms(1) Ev_step pc by (cases pc) (auto simp: outcome_simps simp del: callback_section.simps)
  with callback_section_inv [OF inv pc(1,2) p] show ?thesis by blast
qed

section \<open>No freed context is used, unless a thread overtakes\<close>

context response_handler
begin

lemma callback_section_safe:
  assumes "callback_ok a pc" and "rinv (upper a)"
  shows "no_uaf (callback_section H respond pc a)
    \<and> (\<forall>pc' a'. callback_section H respond pc a = Ok (pc', a') \<longrightarrow> rinv (upper a'))"
proof (cases pc)
  case (Rc_handle p e data)
  then obtain ctx where ctx: "heap a p = Some ctx" using assms(1) by auto
  have "no_uaf (callback_section H respond pc a)"
    by (simp add: Rc_handle ctx no_uaf_map_ok no_uaf_dispatch)
  then show ?thesis using assms(2) ctx by (auto simp: Rc_handle outcome_simps)
next
  case (Rc_send p)
  then obtain ctx where ctx: "heap a p = Some ctx" using assms(1) by auto
  show ?thesis
  proof (cases "rsp ctx")
    case (Some m)
    obtain u b where "respond (upper a) (msg_of_rsp m) = Ok (u, b)" "rinv u"
      using respond_returns [OF assms(2)] by blast
    then show ?thesis by (simp add: Rc_send ctx Some no_uaf_def)
  qed (use assms(2) ctx in \<open>simp add: Rc_send no_uaf_def\<close>)
qed (use assms in \<open>auto simp: no_uaf_def split: option.splits\<close>)

lemma callback_does_safe:
  assumes inv: "callback_inv w" and "rinv (upper (the_ril w))"
  shows "callback_does H respond ev w \<noteq> Fault Use_after_free
    \<and> (\<forall>w'. callback_does H respond ev w = Ok (Some w') \<longrightarrow> rinv (upper (the_ril w')))"
proof (cases ev)
  case (Ev_call op req uid sid)
  show ?thesis
  proof (cases "android_call H op req uid sid (the_ril w)")
    case (Ok r)
    then obtain b a' where r: "android_call H op req uid sid (the_ril w) = Ok (b, a')" by (cases r) simp
    have "upper a' = upper (the_ril w)" using request_effect [OF r] by auto
    then show ?thesis using assms(2) by (simp add: Ev_call r)
  qed (use no_uaf_call [of H op req uid sid "the_ril w"] in \<open>simp add: Ev_call no_uaf_def\<close>)
next
  case (Ev_follow_up r p)
  then show ?thesis
    using assms(2) by (auto simp: follow_up_thread_def sendToVendorRil_def split: if_splits)
next
  case (Ev_step i)
  show ?thesis
  proof (cases "i < length (callbacks w)")
    case True
    then have "callback_ok (the_ril w) (callbacks w ! i)" using callback_invD(8) [OF inv] nth_mem by blast
    from callback_section_safe [OF this assms(2), of H] True show ?thesis
      by (cases "callbacks w ! i")
        (auto simp: Ev_step no_uaf_def outcome_simps map_ok_Fault_iff simp del: callback_section.simps)
  qed (simp add: Ev_step)
qed (use assms(2) in auto)

lemma callback_exec_safe:
  assumes "callback_exec H respond evs w = Fault Use_after_free" and "callback_inv w" and "rinv (upper (the_ril w))"
  shows "\<exists>before r p after w' ret. evs = before @ Ev_follow_up r p # after
    \<and> callback_exec H respond before w = Ok (Some w') \<and> Rc_check p ret \<in> set (callbacks w')"
  using assms
proof (induction evs arbitrary: w)
  case (Cons ev evs)
  note safe = callback_does_safe [OF Cons.prems(2,3), of H ev]
  obtain w1 where w1: "callback_does H respond ev w = Ok (Some w1)" "callback_exec H respond evs w1 = Fault Use_after_free"
    using Cons.prems(1) safe by (cases "callback_does H respond ev w") (auto split: option.splits)
  show ?case
  proof (cases "overtakes ev w")
    case True
    then obtain r p pc where ev: "ev = Ev_follow_up r p" "pc \<in> set (callbacks w)" "cb_token pc = Some p"
      by (auto simp: overtakes_def split: callback_event.splits)
    have "(r, p) \<in> set (threads (the_ril w))" using w1(1) ev(1) by (auto split: if_splits)
    then have "p \<in> in_thread (the_ril w)" by (force simp: in_thread_def)
    then obtain ret where "pc = Rc_check p ret"
      using callback_invD(8) [OF Cons.prems(2) ev(2)] ev(3) by (cases pc) auto
    with ev show ?thesis by (intro exI [of _ "[]"] exI [of _ w]) auto
  next
    case False
    from Cons.IH [OF w1(2) callback_does_inv [OF w1(1) Cons.prems(2) False]] safe w1(1)
    obtain before r p after w' ret where *: "evs = before @ Ev_follow_up r p # after"
      "callback_exec H respond before w1 = Ok (Some w')" "Rc_check p ret \<in> set (callbacks w')"
      by blast
    with w1(1) have "ev # evs = (ev # before) @ Ev_follow_up r p # after \<and> callback_exec H respond (ev # before) w = Ok (Some w')"
      by simp
    with *(3) show ?thesis by blast
  qed
qed simp

end

end
