(* ===== verification/Ril_Radio.thy ===== *)
theory Ril_Radio
  imports Ril_Threads
begin

text \<open>
  \<open>getRadioModeV1\<close> and the threads it detaches, several at a time.  The method returns as soon as the thread is
  started; the thread reads the unique id and the SIM id through references to the parameters of the method.
\<close>

section \<open>Sections of a thread\<close>

text \<open>
  Before \<open>rsp->unique_id = uid\<close>; before \<open>rsp->sim_id = sid\<close>; before the call of \<open>onStateRequest\<close>; before the
  response is passed up.
\<close>

datatype radio_pc =
    Rm_uid
  | Rm_sid u32
  | Rm_state u32 u8
  | Rm_respond uril_protocol_msg_t
  | Rm_over

fun radio_section ::
    "'u response_processor \<Rightarrow> RIL_RadioState \<Rightarrow> (u32 \<times> u8) option \<Rightarrow> radio_pc \<Rightarrow> 'u ril_adapter
     \<Rightarrow> (radio_pc \<times> 'u ril_adapter) outcome" where
  "radio_section pr st frame Rm_uid a =
     (case frame of None \<Rightarrow> Fault Use_after_free | Some (uid, sid) \<Rightarrow> Ok (Rm_sid uid, a))"
| "radio_section pr st frame (Rm_sid u) a =
     (case frame of None \<Rightarrow> Fault Use_after_free | Some (uid, sid) \<Rightarrow> Ok (Rm_state u sid, a))"
| "radio_section pr st frame (Rm_state u s) a =
     (if \<not> funcs a then Fault Null_deref
      else map_ok (\<lambda>mode. (Rm_respond (radio_mode_msg u s mode), a)) (radio_mode_of st))"
| "radio_section pr st frame (Rm_respond m) a =
     map_ok (\<lambda>(u, b). (Rm_over, a\<lparr>upper := u\<rparr>)) (pr (upper a) m)"
| "radio_section pr st frame Rm_over a = Ok (Rm_over, a)"

fun radio_sections ::
    "nat \<Rightarrow> 'u response_processor \<Rightarrow> RIL_RadioState \<Rightarrow> (u32 \<times> u8) option \<Rightarrow> radio_pc \<times> 'u ril_adapter
     \<Rightarrow> (radio_pc \<times> 'u ril_adapter) outcome" where
  "radio_sections 0 pr st frame x = Ok x"
| "radio_sections (Suc n) pr st frame x =
     bind_outcome (radio_section pr st frame (fst x) (snd x)) (radio_sections n pr st frame)"

lemma radio_alone:
  "radio_sections 4 pr st frame (Rm_uid, a) = map_ok (\<lambda>a'. (Rm_over, a')) (radio_mode_thread pr st frame a)"
proof (cases frame)
  case (Some f)
  show ?thesis
  proof (cases "radio_mode_of st")
    case (Ok mode)
    then show ?thesis
      using Some by (cases f; cases "pr (upper a) (radio_mode_msg (fst f) (snd f) mode)")
        (auto simp: eval_nat_numeral radio_mode_thread_def)
  qed (use Some in \<open>auto simp: eval_nat_numeral radio_mode_thread_def split: prod.split\<close>)
qed (simp add: eval_nat_numeral radio_mode_thread_def)

section \<open>Threads together\<close>

record radio_query =
  q_params :: "u32 \<times> u8"
  q_returned :: bool
  q_pc :: radio_pc

record 'u radio_world =
  radio_ril :: "'u ril_adapter"
  queries :: "radio_query list"

text \<open>The references of a thread, once its method has returned.\<close>

definition q_frame :: "radio_query \<Rightarrow> (u32 \<times> u8) option" where
  "q_frame q = (if q_returned q then None else Some (q_params q))"

datatype radio_event = Rq_call "u8 list" u32 u8 | Rq_return nat | Rq_step nat RIL_RadioState

fun radio_does ::
    "'u response_processor \<Rightarrow> radio_event \<Rightarrow> 'u radio_world \<Rightarrow> 'u radio_world option outcome" where
  "radio_does pr (Rq_call req uid sid) w =
     map_ok (\<lambda>(b, a). Some (w\<lparr>radio_ril := a,
         queries := queries w @ [\<lparr>q_params = (uid, sid), q_returned = False, q_pc = Rm_uid\<rparr>]\<rparr>))
       (getRadioModeV1 req uid sid (radio_ril w))"
| "radio_does pr (Rq_return i) w =
     Ok (if i < length (queries w) \<and> \<not> q_returned (queries w ! i)
         then Some (w\<lparr>queries := (queries w)[i := (queries w ! i)\<lparr>q_returned := True\<rparr>]\<rparr>) else None)"
| "radio_does pr (Rq_step i st) w =
     (if i < length (queries w) \<and> q_pc (queries w ! i) \<noteq> Rm_over
      then map_ok (\<lambda>(pc, a). Some (w\<lparr>radio_ril := a, queries := (queries w)[i := (queries w ! i)\<lparr>q_pc := pc\<rparr>]\<rparr>))
             (radio_section pr st (q_frame (queries w ! i)) (q_pc (queries w ! i)) (radio_ril w))
      else Ok None)"

fun radio_exec ::
    "'u response_processor \<Rightarrow> radio_event list \<Rightarrow> 'u radio_world \<Rightarrow> 'u radio_world option outcome" where
  "radio_exec pr [] w = Ok (Some w)"
| "radio_exec pr (ev # evs) w =
     bind_outcome (radio_does pr ev w) (\<lambda>r. case r of None \<Rightarrow> Ok None | Some w' \<Rightarrow> radio_exec pr evs w')"

definition radio_quiet :: "'u \<Rightarrow> 'u radio_world" where
  "radio_quiet u = \<lparr>radio_ril = (new_adapter u)\<lparr>funcs := True\<rparr>, queries = []\<rparr>"

section \<open>What the threads have read\<close>

fun read_so_far :: "radio_query \<Rightarrow> radio_pc \<Rightarrow> bool" where
  "read_so_far q Rm_uid \<longleftrightarrow> True"
| "read_so_far q (Rm_sid u) \<longleftrightarrow> u = fst (q_params q)"
| "read_so_far q (Rm_state u s) \<longleftrightarrow> u = fst (q_params q) \<and> s = snd (q_params q)"
| "read_so_far q (Rm_respond m) \<longleftrightarrow>
     (\<exists>mode. m = radio_mode_msg (fst (q_params q)) (snd (q_params q)) mode)"
| "read_so_far q Rm_over \<longleftrightarrow> True"

definition radio_ok :: "'u radio_world \<Rightarrow> bool" where
  "radio_ok w \<longleftrightarrow> funcs (radio_ril w) \<and> (\<forall>q \<in> set (queries w). read_so_far q (q_pc q))"

lemma radio_quiet_ok: "radio_ok (radio_quiet u)"
  by (simp add: radio_ok_def radio_quiet_def)

lemma read_same: "q_params q' = q_params q \<Longrightarrow> read_so_far q' pc = read_so_far q pc"
  by (cases pc) simp_all

lemma radio_section_reads:
  assumes "radio_section pr st (q_frame q) (q_pc q) a = Ok (pc', a')" and "read_so_far q (q_pc q)"
  shows "read_so_far q pc' \<and> funcs a' = funcs a"
  using assms
  by (cases "q_pc q") (auto simp: q_frame_def outcome_simps split: if_splits option.splits prod.splits)

lemma radio_does_ok:
  assumes "radio_does pr ev w = Ok (Some w')" and "radio_ok w"
  shows "radio_ok w'"
proof (cases ev)
  case (Rq_step i st)
  then obtain pc a where i: "i < length (queries w)"
    and sec: "radio_section pr st (q_frame (queries w ! i)) (q_pc (queries w ! i)) (radio_ril w) = Ok (pc, a)"
    and w': "w' = w\<lparr>radio_ril := a, queries := (queries w)[i := (queries w ! i)\<lparr>q_pc := pc\<rparr>]\<rparr>"
    using assms(1) by (auto simp: outcome_simps split: if_splits)
  have "read_so_far (queries w ! i) pc \<and> funcs a"
    using radio_section_reads [OF sec] assms(2) i by (simp add: radio_ok_def)
  then have "read_so_far ((queries w ! i)\<lparr>q_pc := pc\<rparr>) pc \<and> funcs a"
    using read_same [of "(queries w ! i)\<lparr>q_pc := pc\<rparr>" "queries w ! i" pc] by simp
  then show ?thesis
    using assms(2) unfolding w' radio_ok_def by (auto dest!: subsetD [OF set_update_subset_insert])
next
  case (Rq_return i)
  then have i: "i < length (queries w)"
    and w': "w' = w\<lparr>queries := (queries w)[i := (queries w ! i)\<lparr>q_returned := True\<rparr>]\<rparr>"
    using assms(1) by (auto split: if_splits)
  have "read_so_far ((queries w ! i)\<lparr>q_returned := True\<rparr>) (q_pc (queries w ! i))"
    using assms(2) i read_same [of "(queries w ! i)\<lparr>q_returned := True\<rparr>" "queries w ! i"] by (simp add: radio_ok_def)
  then show ?thesis
    using assms(2) unfolding w' radio_ok_def by (auto dest!: subsetD [OF set_update_subset_insert])
qed (use assms in \<open>auto simp: radio_ok_def getRadioModeV1_def\<close>)

lemma radio_exec_ok:
  "radio_exec pr evs w = Ok (Some w') \<Longrightarrow> radio_ok w \<Longrightarrow> radio_ok w'"
proof (induction evs arbitrary: w)
  case (Cons ev evs)
  then show ?case using radio_does_ok by (fastforce simp: outcome_simps split: option.splits)
qed simp

section \<open>Faults\<close>

context response_handler
begin

lemma radio_does_safe:
  assumes "radio_ok w" and "rinv (upper (radio_ril w))"
  shows "(\<forall>e. radio_does respond ev w = Fault e \<longrightarrow>
      (\<exists>i st. ev = Rq_step i st \<and> i < length (queries w)
        \<and> ((e = Use_after_free \<and> q_returned (queries w ! i) \<and> (q_pc (queries w ! i) = Rm_uid \<or> (\<exists>u. q_pc (queries w ! i) = Rm_sid u)))
          \<or> (e = Assert_failed \<and> (\<exists>n. st = RADIO_STATE_other n)))))
    \<and> (\<forall>w'. radio_does respond ev w = Ok (Some w') \<longrightarrow> rinv (upper (radio_ril w')))"
proof (cases ev)
  case (Rq_step i st)
  show ?thesis
  proof (cases "i < length (queries w) \<and> q_pc (queries w ! i) \<noteq> Rm_over")
    case True
    show ?thesis
    proof (cases "q_pc (queries w ! i)")
      case (Rm_respond m)
      obtain u b where "respond (upper (radio_ril w)) m = Ok (u, b)" "rinv u"
        using respond_returns [OF assms(2)] by blast
      with True Rq_step Rm_respond show ?thesis by simp
    next
      case (Rm_state u s)
      with True Rq_step assms show ?thesis
        by (cases st) (auto simp: radio_mode_of_def radio_ok_def)
    qed (use True Rq_step assms in \<open>auto simp: q_frame_def outcome_simps map_ok_Fault_iff split: if_splits option.splits prod.splits\<close>)
  qed (auto simp: Rq_step)
qed (use assms in \<open>auto simp: getRadioModeV1_def\<close>)

lemma radio_exec_fault:
  assumes "radio_exec respond evs w = Fault e" and "radio_ok w" and "rinv (upper (radio_ril w))"
  shows "\<exists>before i st after w'. evs = before @ Rq_step i st # after \<and> radio_exec respond before w = Ok (Some w')
    \<and> i < length (queries w')
    \<and> ((e = Use_after_free \<and> q_returned (queries w' ! i) \<and> (q_pc (queries w' ! i) = Rm_uid \<or> (\<exists>u. q_pc (queries w' ! i) = Rm_sid u)))
      \<or> (e = Assert_failed \<and> (\<exists>n. st = RADIO_STATE_other n)))"
  using assms
proof (induction evs arbitrary: w)
  case (Cons ev evs)
  note safe = radio_does_safe [OF Cons.prems(2,3), of ev]
  show ?case
  proof (cases "radio_does respond ev w")
    case (Fault e')
    then have "e' = e" using Cons.prems(1) by simp
    with safe Fault show ?thesis by (intro exI [of _ "[]"]) auto
  next
    case (Ok r)
    then obtain w1 where w1: "r = Some w1" "radio_exec respond evs w1 = Fault e"
      using Cons.prems(1) by (auto split: option.splits)
    have "radio_ok w1" "rinv (upper (radio_ril w1))" using radio_does_ok safe Ok w1(1) Cons.prems(2) by blast+
    from Cons.IH [OF w1(2) this] obtain before i st after w' where
      *: "evs = before @ Rq_step i st # after" "radio_exec respond before w1 = Ok (Some w')" "i < length (queries w')"
        "(e = Use_after_free \<and> q_returned (queries w' ! i) \<and> (q_pc (queries w' ! i) = Rm_uid \<or> (\<exists>u. q_pc (queries w' ! i) = Rm_sid u)))
          \<or> (e = Assert_failed \<and> (\<exists>n. st = RADIO_STATE_other n))"
      by blast
    then show ?thesis
      using Ok w1(1) by (intro exI [of _ "ev # before"] exI [of _ i] exI [of _ st] exI [of _ after] exI [of _ w']) simp
  qed
qed simp

end

end
