(* ===== verification/Client_Connector.thy ===== *)
theory Client_Connector
  imports Uril_Protocol
begin

text \<open>
  The socket connectors of the service (\<open>service/src/connection/socks\<close>): the connector with its
  list of connections, the connection objects, the accept loop, and the pump loop that reads the
  messages of one client.

  Connection objects live on a heap, addressed by numbers; pointers to them are kept by the
  connector and by its clients.  \<open>outbox\<close> records the messages sent, each with the connection
  and the socket.  The results of the socket calls are arguments: \<open>net s\<close> says
  whether a \<open>send\<close> on socket \<open>s\<close> succeeds.
\<close>

section \<open>State\<close>

text \<open>The objects that observe a connection.  Only the tracker observes the connector.\<close>

datatype connection_observer = Obs_connector | Obs_tracker
datatype connector_observer = Obs_message_tracker

text \<open>
  A \<open>std::vector\<close> of pointers: the storage and how much of it is in use.  \<open>vec_remove\<close> is the
  erase-remove idiom: the kept elements move to the front, the storage behind them is not
  cleared.
\<close>

record 'o vec =
  storage :: "'o list"
  vsize :: nat

definition vec_elems :: "'o vec \<Rightarrow> 'o list" where
  "vec_elems v = take (vsize v) (storage v)"

definition vec_empty :: "'o vec" where
  "vec_empty = \<lparr>storage = [], vsize = 0\<rparr>"

definition vec_push_back :: "'o \<Rightarrow> 'o vec \<Rightarrow> 'o vec" where
  "vec_push_back x v = \<lparr>storage = vec_elems v @ [x] @ drop (Suc (vsize v)) (storage v), vsize = Suc (vsize v)\<rparr>"

definition vec_remove :: "'o \<Rightarrow> 'o vec \<Rightarrow> 'o vec" where
  "vec_remove x v =
     (let kept = filter (\<lambda>y. y \<noteq> x) (vec_elems v)
      in \<lparr>storage = kept @ drop (length kept) (storage v), vsize = length kept\<rparr>)"

definition vec_wf :: "'o vec \<Rightarrow> bool" where
  "vec_wf v \<longleftrightarrow> vsize v \<le> length (storage v)"

record client_connection =
  mCommSocket :: int
  cObservers :: "connection_observer vec"
  cThread :: bool

record connector =
  mConnections :: "nat list"
  objects :: "nat \<rightharpoonup> client_connection"
  next_object :: nat
  mObservers :: "connector_observer list"
  mListeningSocket :: int
  mIsRunning :: bool
  mThread :: bool
  mMaxClientsCount :: int
  outbox :: "(nat \<times> int \<times> uril_protocol_msg_t) list"

definition new_connector :: "int \<Rightarrow> connector" where
  "new_connector maxClientsCount =
     \<lparr>mConnections = [], objects = Map.empty, next_object = 0, mObservers = [],
      mListeningSocket = -1, mIsRunning = False, mThread = False,
      mMaxClientsCount = maxClientsCount, outbox = []\<rparr>"

section \<open>Connections\<close>

definition with_object ::
    "nat \<Rightarrow> (client_connection \<Rightarrow> client_connection) \<Rightarrow> connector \<Rightarrow> connector outcome" where
  "with_object p f c =
     (case objects c p of
        None \<Rightarrow> Fault Use_after_free
      | Some k \<Rightarrow> Ok (c\<lparr>objects := (objects c)(p \<mapsto> f k)\<rparr>))"

definition connection_registerObserver ::
    "nat \<Rightarrow> connection_observer \<Rightarrow> connector \<Rightarrow> connector outcome" where
  "connection_registerObserver p obs =
     with_object p (\<lambda>k. k\<lparr>cObservers := vec_push_back obs (cObservers k)\<rparr>)"

definition connection_unregisterObserver ::
    "nat \<Rightarrow> connection_observer \<Rightarrow> connector \<Rightarrow> connector outcome" where
  "connection_unregisterObserver p obs =
     with_object p (\<lambda>k. k\<lparr>cObservers := vec_remove obs (cObservers k)\<rparr>)"

definition ignitPump :: "nat \<Rightarrow> connector \<Rightarrow> connector outcome" where
  "ignitPump p = with_object p (\<lambda>k. k\<lparr>cThread := True\<rparr>)"

definition sendMessageToClient ::
    "(int \<Rightarrow> bool) \<Rightarrow> nat \<Rightarrow> uril_protocol_msg_t \<Rightarrow> connector \<Rightarrow> (bool \<times> connector) outcome" where
  "sendMessageToClient net p msg c =
     (case objects c p of
        None \<Rightarrow> Fault Use_after_free
      | Some k \<Rightarrow>
          if net (mCommSocket k)
          then Ok (True, c\<lparr>outbox := outbox c @ [(p, mCommSocket k, msg)]\<rparr>)
          else Ok (False, c))"

text \<open>
  The destructor joins the thread of the pump.  \<open>self\<close> says that it runs on that thread, as it
  does when the pump deletes its own connection: a thread cannot join itself.
\<close>

definition destroy_connection :: "bool \<Rightarrow> nat \<Rightarrow> connector \<Rightarrow> connector outcome" where
  "destroy_connection self p c =
     (case objects c p of
        None \<Rightarrow> Fault Use_after_free
      | Some k \<Rightarrow>
          if cThread k \<and> self then Fault Self_join
          else Ok (c\<lparr>objects := (objects c)(p := None)\<rparr>))"

section \<open>The connector\<close>

definition getConnections :: "connector \<Rightarrow> nat list" where
  "getConnections c = mConnections c"

definition registerObserver :: "connector_observer \<Rightarrow> connector \<Rightarrow> connector" where
  "registerObserver obs c = c\<lparr>mObservers := mObservers c @ [obs]\<rparr>"

definition unregisterObserver :: "connector_observer \<Rightarrow> connector \<Rightarrow> connector" where
  "unregisterObserver obs c = c\<lparr>mObservers := filter (\<lambda>x. x \<noteq> obs) (mObservers c)\<rparr>"

definition connector_onClientDisconnected :: "nat \<Rightarrow> connector \<Rightarrow> connector outcome" where
  "connector_onClientDisconnected p c =
     map_ok (\<lambda>c'. c'\<lparr>mConnections := filter (\<lambda>q. q \<noteq> p) (mConnections c')\<rparr>)
       (connection_unregisterObserver p Obs_connector c)"

text \<open>\<open>MessageTracker::onNewConnection\<close> and \<open>onClientDisconnected\<close>, which only touch the connection.\<close>

definition tracker_onNewConnection :: "nat \<Rightarrow> connector \<Rightarrow> connector outcome" where
  "tracker_onNewConnection p = connection_registerObserver p Obs_tracker"

definition tracker_onClientDisconnected :: "nat \<Rightarrow> connector \<Rightarrow> connector outcome" where
  "tracker_onClientDisconnected p = connection_unregisterObserver p Obs_tracker"

fun notify_new :: "connector_observer list \<Rightarrow> nat \<Rightarrow> connector \<Rightarrow> connector outcome" where
  "notify_new [] p c = Ok c"
| "notify_new (Obs_message_tracker # obs) p c =
     bind_outcome (tracker_onNewConnection p c) (notify_new obs p)"

text \<open>One accepted client: the body of the loop.  The result of \<open>setsockopt\<close> is only logged.\<close>

definition accept_client :: "int \<Rightarrow> connector \<Rightarrow> connector outcome" where
  "accept_client accepted_socket c =
     (let p = next_object c;
          k = \<lparr>mCommSocket = accepted_socket, cObservers = vec_empty, cThread = False\<rparr>;
          c1 = c\<lparr>objects := (objects c)(p \<mapsto> k), next_object := Suc p,
                 mConnections := mConnections c @ [p]\<rparr>
      in bind_outcome (connection_registerObserver p Obs_connector c1) (\<lambda>c2.
         bind_outcome (notify_new (mObservers c2) p c2) (ignitPump p)))"

text \<open>\<open>acceptLoop\<close>: it ends when \<open>accept\<close> fails; \<open>socks\<close> are the results of its calls.\<close>

fun accept_sockets :: "int list \<Rightarrow> connector \<Rightarrow> connector outcome" where
  "accept_sockets [] c = Ok c"
| "accept_sockets (s # socks) c =
     (if s \<ge> 0 then bind_outcome (accept_client s c) (accept_sockets socks) else Ok c)"

definition acceptLoop :: "int \<Rightarrow> int list \<Rightarrow> connector \<Rightarrow> connector outcome" where
  "acceptLoop listen_result socks c =
     (if listen_result < 0 then Ok c else accept_sockets socks c)"

section \<open>Start and stop\<close>

text \<open>\<open>start\<close> of the two kinds of connector, which differ in the address they bind.\<close>

datatype binding = Bind_inet u32 u32 | Bind_unix string

definition start_connector :: "int \<Rightarrow> int \<Rightarrow> connector \<Rightarrow> bool \<times> connector" where
  "start_connector socket_result bind_result c =
     (if \<not> mIsRunning c
      then (if socket_result < 0 then (False, c\<lparr>mListeningSocket := socket_result\<rparr>)
            else if bind_result < 0 then (False, c\<lparr>mListeningSocket := socket_result\<rparr>)
            else (True, c\<lparr>mListeningSocket := socket_result, mThread := True, mIsRunning := True\<rparr>))
      else (False, c))"

definition tcp_start ::
    "(binding \<Rightarrow> int) \<Rightarrow> int \<Rightarrow> u32 \<Rightarrow> u32 \<Rightarrow> connector \<Rightarrow> bool \<times> connector" where
  "tcp_start bind_result socket_result mIpBinding mPort c =
     start_connector socket_result (bind_result (Bind_inet mIpBinding mPort)) c"

definition UNIX_SOCKET_NAME :: string where
  "UNIX_SOCKET_NAME = ''/tmp/uril_sock''"

definition unix_start :: "(binding \<Rightarrow> int) \<Rightarrow> int \<Rightarrow> connector \<Rightarrow> bool \<times> connector" where
  "unix_start bind_result socket_result c =
     start_connector socket_result (bind_result (Bind_unix UNIX_SOCKET_NAME)) c"

text \<open>\<open>stop\<close> never resets \<open>mIsRunning\<close>.\<close>

definition stop_connector :: "int \<Rightarrow> connector \<Rightarrow> (bool \<times> connector) outcome" where
  "stop_connector close_result c =
     (if mIsRunning c
      then (if close_result = 0
            then (if mThread c then Ok (True, c\<lparr>mThread := False\<rparr>) else Fault Null_deref)
            else Ok (False, c))
      else Ok (False, c))"

section \<open>The pump\<close>

text \<open>
  One turn of \<open>pumpLoop\<close>: \<open>recv\<close> fails, finds the client gone, or stores bytes over a zeroed
  message.  The loops over \<open>mObservers\<close> fix their bounds before the first turn and read the
  storage, also when an observer has removed itself meanwhile.
\<close>

datatype recv_result = Recv_error | Recv_closed | Recv_bytes "u8 list"

definition observer_at :: "nat \<Rightarrow> nat \<Rightarrow> connector \<Rightarrow> connection_observer outcome" where
  "observer_at p i c =
     (case objects c p of
        None \<Rightarrow> Fault Use_after_free
      | Some k \<Rightarrow>
          if i < length (storage (cObservers k)) then Ok (storage (cObservers k) ! i)
          else Fault Out_of_bounds_read)"

fun disconnect_observer :: "connection_observer \<Rightarrow> nat \<Rightarrow> connector \<Rightarrow> connector outcome" where
  "disconnect_observer Obs_connector p c = connector_onClientDisconnected p c"
| "disconnect_observer Obs_tracker p c = tracker_onClientDisconnected p c"

fun notify_disconnect :: "nat list \<Rightarrow> nat \<Rightarrow> connector \<Rightarrow> connector outcome" where
  "notify_disconnect [] p c = Ok c"
| "notify_disconnect (i # is) p c =
     bind_outcome (observer_at p i c) (\<lambda>obs.
     bind_outcome (disconnect_observer obs p c) (notify_disconnect is p))"

definition client_gone :: "nat \<Rightarrow> connector \<Rightarrow> connector outcome" where
  "client_gone p c =
     (case objects c p of
        None \<Rightarrow> Fault Use_after_free
      | Some k \<Rightarrow>
          bind_outcome (notify_disconnect [0..<vsize (cObservers k)] p c) (destroy_connection True p))"

definition received_msg :: "u8 list \<Rightarrow> uril_protocol_msg_t" where
  "received_msg bs = msg_of_image (overlay bs (replicate MSG_SIZE 0))"

section \<open>The interface of the connections\<close>

text \<open>
  What the clients of the connections rely on: a send to a live connection returns, adds the
  message to what that connection has been sent when it succeeds, and changes nothing else they
  can see.
\<close>

locale client_connections =
  fixes conns :: "'c \<Rightarrow> nat list"
    and send :: "nat \<Rightarrow> uril_protocol_msg_t \<Rightarrow> 'c \<Rightarrow> (bool \<times> 'c) outcome"
    and live :: "'c \<Rightarrow> nat set"
    and delivered :: "nat \<Rightarrow> 'c \<Rightarrow> uril_protocol_msg_t list"
  assumes send_live: "p \<in> live c \<Longrightarrow> \<exists>b c'. send p m c = Ok (b, c')"
    and send_dead: "p \<notin> live c \<Longrightarrow> send p m c = Fault Use_after_free"
    and send_frame: "send p m c = Ok (b, c') \<Longrightarrow> live c' = live c \<and> conns c' = conns c"
    and send_delivers: "send p m c = Ok (b, c') \<Longrightarrow>
      delivered q c' = delivered q c @ (if b \<and> q = p then [m] else [])"
definition live_connections :: "connector \<Rightarrow> nat set" where
  "live_connections c = dom (objects c)"

definition delivered_to :: "nat \<Rightarrow> connector \<Rightarrow> uril_protocol_msg_t list" where
  "delivered_to q c = map (snd \<circ> snd) (filter (\<lambda>x. fst x = q) (outbox c))"

interpretation sockets: client_connections getConnections "sendMessageToClient net"
    live_connections delivered_to for net
  by unfold_locales
    (auto simp: sendMessageToClient_def live_connections_def delivered_to_def getConnections_def
      split: option.splits if_splits)

section \<open>Accepting\<close>

definition connector_inv :: "connector \<Rightarrow> bool" where
  "connector_inv c \<longleftrightarrow>
     distinct (mConnections c) \<and> set (mConnections c) \<subseteq> dom (objects c)
     \<and> dom (objects c) \<subseteq> {..<next_object c}"

text \<open>An accepted connection: both observers in place and its pump running.\<close>

definition accepted_connection :: "int \<Rightarrow> client_connection" where
  "accepted_connection s =
     \<lparr>mCommSocket = s, cObservers = \<lparr>storage = [Obs_connector, Obs_tracker], vsize = 2\<rparr>,
      cThread = True\<rparr>"

lemma accept_client_result:
  assumes "mObservers c = [Obs_message_tracker]"
  shows "\<exists>c1. accept_client s c = Ok c1
     \<and> objects c1 = (objects c)(next_object c \<mapsto> accepted_connection s)
     \<and> next_object c1 = Suc (next_object c)
     \<and> mConnections c1 = mConnections c @ [next_object c]
     \<and> mObservers c1 = mObservers c \<and> outbox c1 = outbox c \<and> mIsRunning c1 = mIsRunning c"
  using assms
  by (simp add: accept_client_def Let_def connection_registerObserver_def with_object_def
      tracker_onNewConnection_def ignitPump_def vec_push_back_def vec_elems_def vec_empty_def
      accepted_connection_def eval_nat_numeral)

definition accepted_by :: "int list \<Rightarrow> connector \<Rightarrow> connector \<Rightarrow> bool" where
  "accepted_by ss c c' \<longleftrightarrow>
     mConnections c' = mConnections c @ [next_object c..<next_object c + length ss]
     \<and> next_object c' = next_object c + length ss
     \<and> (\<forall>p. objects c' p =
           (if next_object c \<le> p \<and> p < next_object c + length ss
            then Some (accepted_connection (ss ! (p - next_object c))) else objects c p))
     \<and> mObservers c' = mObservers c \<and> outbox c' = outbox c \<and> mIsRunning c' = mIsRunning c"

lemma accepted_by_Cons:
  assumes "objects c1 = (objects c)(next_object c \<mapsto> accepted_connection s)"
    and "next_object c1 = Suc (next_object c)"
    and "mConnections c1 = mConnections c @ [next_object c]"
    and "mObservers c1 = mObservers c" and "outbox c1 = outbox c"
    and "mIsRunning c1 = mIsRunning c" and "accepted_by ss c1 c'"
  shows "accepted_by (s # ss) c c'"
proof -
  let ?n = "next_object c"
  have upt: "[?n..<?n + length (s # ss)] = ?n # [Suc ?n..<Suc ?n + length ss]"
    by (simp add: upt_conv_Cons del: upt_Suc)
  have "objects c' p =
      (if ?n \<le> p \<and> p < ?n + length (s # ss)
       then Some (accepted_connection ((s # ss) ! (p - ?n))) else objects c p)" for p
  proof (cases "p \<le> ?n")
    case True
    then show ?thesis using assms(1,2,7) by (auto simp: accepted_by_def)
  next
    case False
    then have "p - ?n = Suc (p - Suc ?n)" by simp
    with False show ?thesis using assms(1,2,7) by (auto simp: accepted_by_def)
  qed
  then show ?thesis
    using assms(2-7) unfolding accepted_by_def upt by auto
qed

lemma accept_sockets_result:
  assumes "mObservers c = [Obs_message_tracker]"
  shows "\<exists>c'. accept_sockets socks c = Ok c' \<and> accepted_by (takeWhile (\<lambda>s. s \<ge> 0) socks) c c'"
  using assms
proof (induction socks arbitrary: c)
  case Nil
  then show ?case by (auto simp: accepted_by_def)
next
  case (Cons s socks)
  show ?case
  proof (cases "s \<ge> 0")
    case False
    then show ?thesis by (auto simp: accepted_by_def)
  next
    case True
    let ?n = "next_object c" and ?ss = "takeWhile (\<lambda>s. s \<ge> 0) socks"
    obtain c1 where c1: "accept_client s c = Ok c1"
      "objects c1 = (objects c)(?n \<mapsto> accepted_connection s)"
      "next_object c1 = Suc ?n" "mConnections c1 = mConnections c @ [?n]"
      "mObservers c1 = mObservers c" "outbox c1 = outbox c" "mIsRunning c1 = mIsRunning c"
      using accept_client_result [OF Cons.prems, of s] by blast
    obtain c' where c': "accept_sockets socks c1 = Ok c'" "accepted_by ?ss c1 c'"
      using Cons.IH [of c1] c1(5) Cons.prems by auto
    have "accepted_by (s # ?ss) c c'"
      using accepted_by_Cons c1(2-) c'(2) by blast
    with c'(1) c1(1) True show ?thesis by simp
  qed
qed

lemma accepted_dom:
  "accepted_by ss c c'
   \<Longrightarrow> dom (objects c') = dom (objects c) \<union> {next_object c..<next_object c + length ss}"
  by (auto simp: accepted_by_def dom_def)

lemma accepted_inv:
  assumes "accepted_by ss c c'" and "connector_inv c"
  shows "connector_inv c'"
proof -
  have "set (mConnections c) \<subseteq> {..<next_object c}"
    using assms(2) by (auto simp: connector_inv_def)
  moreover have "mConnections c' = mConnections c @ [next_object c..<next_object c + length ss]"
    "next_object c' = next_object c + length ss"
    using assms(1) by (simp_all add: accepted_by_def)
  ultimately show ?thesis
    using assms(2) accepted_dom [OF assms(1)] by (auto simp: connector_inv_def)
qed

section \<open>Clients that leave\<close>

text \<open>
  The loop over the observers of an accepted connection reads the slot behind the end of the
  shrunk vector, where the second observer still is, so both are told.
\<close>

lemma notify_disconnect_accepted:
  assumes "objects c p = Some (accepted_connection s)"
  shows "\<exists>c' k. notify_disconnect [0..<2] p c = Ok c'
     \<and> objects c' = (objects c)(p \<mapsto> k) \<and> vec_elems (cObservers k) = [] \<and> cThread k
     \<and> mConnections c' = filter (\<lambda>q. q \<noteq> p) (mConnections c)"
  using assms
  by (simp add: upt_rec observer_at_def connector_onClientDisconnected_def
      tracker_onClientDisconnected_def connection_unregisterObserver_def with_object_def
      accepted_connection_def vec_remove_def vec_elems_def Let_def)
    (rule exI, intro conjI, rule refl, simp_all)

lemma client_gone_self_join:
  assumes "objects c p = Some (accepted_connection s)"
  shows "client_gone p c = Fault Self_join"
proof -
  obtain c' k where c': "notify_disconnect [0..<2] p c = Ok c'"
    "objects c' = (objects c)(p \<mapsto> k)" "cThread k"
    using notify_disconnect_accepted [OF assms] by blast
  have n: "vsize (cObservers (accepted_connection s)) = 2"
    by (simp add: accepted_connection_def)
  show ?thesis
    unfolding client_gone_def assms option.case n c'(1)
    by (simp add: destroy_connection_def c'(2,3))
qed

section \<open>Starting again\<close>

lemma start_after_stop:
  assumes "stop_connector r c = Ok (True, c')"
  shows "fst (start_connector sock bnd c') = False \<and> snd (start_connector sock bnd c') = c'
     \<and> stop_connector 0 c' = Fault Null_deref"
  using assms by (auto simp: stop_connector_def start_connector_def split: if_splits)

end
