(* ===== verification/Message_Tracker.thy ===== *)
theory Message_Tracker
  imports Client_Connector Request_Processors
begin

text \<open>
  The message tracker (\<open>service/src/MessageTracker.cpp\<close>): it remembers which connection sent the
  request with a unique id, passes requests down to the next processor, sends a response to the
  connection that is remembered for its unique id, and an indication to every connection.

  The connections are an argument (\<open>send\<close>, \<open>conns\<close>); what is proved of the tracker rests on
  the locale \<open>client_connections\<close> and holds of the socket connector by its interpretation.
\<close>

section \<open>State and operations\<close>

record 'c tracker =
  mPendingRequests :: "u32 \<rightharpoonup> nat"
  mConnector :: 'c

definition new_tracker :: "'c \<Rightarrow> 'c tracker" where
  "new_tracker c = \<lparr>mPendingRequests = Map.empty, mConnector = c\<rparr>"

definition track_request :: "nat \<Rightarrow> u32 \<Rightarrow> 'c tracker \<Rightarrow> 'c tracker" where
  "track_request connection uid t =
     t\<lparr>mPendingRequests := (mPendingRequests t)(uid \<mapsto> connection)\<rparr>"

definition trackAndDispatchRequest ::
    "'a request_processor option \<Rightarrow> nat \<Rightarrow> uril_protocol_msg_t option
     \<Rightarrow> 'c tracker \<times> 'a \<Rightarrow> (bool \<times> 'c tracker \<times> 'a) outcome" where
  "trackAndDispatchRequest mNextProcessor connection msg st =
     (case msg of
        None \<Rightarrow> Fault Assert_failed
      | Some m \<Rightarrow>
          let t = track_request connection (unique_id m) (fst st)
          in case mNextProcessor of
               Some process \<Rightarrow> map_ok (\<lambda>(b, a). (b, t, a)) (process (Some m) (snd st))
             | None \<Rightarrow> Ok (False, t, snd st))"

text \<open>The loop over the connections; \<open>ret &= ...\<close> sends to every one of them.\<close>

fun send_to_all ::
    "(nat \<Rightarrow> uril_protocol_msg_t \<Rightarrow> 'c \<Rightarrow> (bool \<times> 'c) outcome) \<Rightarrow> nat list
     \<Rightarrow> uril_protocol_msg_t \<Rightarrow> bool \<Rightarrow> 'c \<Rightarrow> (bool \<times> 'c) outcome" where
  "send_to_all send [] m ret c = Ok (ret, c)"
| "send_to_all send (p # ps) m ret c =
     bind_outcome (send p m c) (\<lambda>(b, c'). send_to_all send ps m (ret \<and> b) c')"

definition processResponse ::
    "(nat \<Rightarrow> uril_protocol_msg_t \<Rightarrow> 'c \<Rightarrow> (bool \<times> 'c) outcome) \<Rightarrow> ('c \<Rightarrow> nat list)
     \<Rightarrow> uril_protocol_msg_t option \<Rightarrow> 'c tracker \<Rightarrow> ('c tracker \<times> bool) outcome" where
  "processResponse send conns msg t =
     (case msg of
        None \<Rightarrow> Ok (t, False)
      | Some m \<Rightarrow>
          if is_indication m \<noteq> 0
          then map_ok (\<lambda>(ret, c). (t\<lparr>mConnector := c\<rparr>, ret))
                 (send_to_all send (conns (mConnector t)) m True (mConnector t))
          else
            let connection = mPendingRequests t (unique_id m);
                t1 = t\<lparr>mPendingRequests := (mPendingRequests t)(unique_id m := None)\<rparr>
            in case connection of
                 None \<Rightarrow> Ok (t1, True)
               | Some p \<Rightarrow>
                   map_ok (\<lambda>(ret, c). (t1\<lparr>mConnector := c\<rparr>, ret)) (send p m (mConnector t1)))"

section \<open>What the tracker relies on and provides\<close>

context client_connections
begin

definition tracker_inv :: "'c tracker \<Rightarrow> bool" where
  "tracker_inv t \<longleftrightarrow>
     set (conns (mConnector t)) \<subseteq> live (mConnector t) \<and> ran (mPendingRequests t) \<subseteq> live (mConnector t)"

lemma send_to_all_returns:
  assumes "set ps \<subseteq> live c"
  shows "\<exists>b c'. send_to_all send ps m ret c = Ok (b, c') \<and> live c' = live c \<and> conns c' = conns c"
  using assms
proof (induction ps arbitrary: ret c)
  case (Cons p ps)
  then obtain b c' where s: "send p m c = Ok (b, c')" using send_live [of p c m] by auto
  with send_frame [OF s] Cons.prems Cons.IH [of c' "ret \<and> b"] show ?case by auto
qed simp

lemma send_to_all_True:
  assumes "send_to_all send ps m ret c = Ok (True, c')"
  shows "ret"
  using assms by (induction ps arbitrary: ret c) (auto simp: outcome_simps)

lemma send_to_all_delivers:
  assumes "send_to_all send ps m ret c = Ok (True, c')" and "distinct ps"
  shows "delivered q c' = delivered q c @ (if q \<in> set ps then [m] else [])"
  using assms
proof (induction ps arbitrary: ret c)
  case (Cons p ps)
  then obtain b c1 where s: "send p m c = Ok (b, c1)" "send_to_all send ps m (ret \<and> b) c1 = Ok (True, c')"
    by (auto simp: outcome_simps)
  from send_to_all_True [OF s(2)] have b by simp
  with send_delivers [OF s(1), of q] Cons.IH [OF s(2)] Cons.prems(2) show ?case by auto
qed simp

lemma processResponse_returns:
  assumes "tracker_inv t"
  shows "\<exists>t' b. processResponse send conns (Some m) t = Ok (t', b) \<and> tracker_inv t'"
proof (cases "is_indication m = 0")
  case False
  from assms send_to_all_returns [of "conns (mConnector t)" "mConnector t" m True]
  show ?thesis using False
    by (auto simp: processResponse_def tracker_inv_def)
next
  case True
  have ran: "ran ((mPendingRequests t)(uid := None)) \<subseteq> ran (mPendingRequests t)" for uid
    by (auto simp: ran_def)
  show ?thesis
  proof (cases "mPendingRequests t (unique_id m)")
    case None
    with True assms ran show ?thesis
      by (auto simp: processResponse_def tracker_inv_def Let_def dest: subsetD)
  next
    case (Some p)
    with assms have "p \<in> live (mConnector t)" by (auto simp: tracker_inv_def ranI)
    then obtain b c' where s: "send p m (mConnector t) = Ok (b, c')"
      using send_live [of p "mConnector t" m] by auto
    with True Some assms ran [of "unique_id m"] send_frame [OF s] show ?thesis
      by (auto simp: processResponse_def tracker_inv_def Let_def)
  qed
qed

lemma response_routed:
  assumes "is_indication m = 0" and "mPendingRequests t (unique_id m) = Some p"
    and "processResponse send conns (Some m) t = Ok (t', b)"
  shows "mPendingRequests t' = (mPendingRequests t)(unique_id m := None)
    \<and> delivered q (mConnector t') = delivered q (mConnector t) @ (if b \<and> q = p then [m] else [])"
  using assms by (auto simp: processResponse_def Let_def outcome_simps send_delivers)

lemma response_unknown:
  assumes "is_indication m = 0" and "mPendingRequests t (unique_id m) = None"
  shows "processResponse send conns (Some m) t = Ok (t, True)"
  using assms by (simp add: processResponse_def Let_def fun_upd_idem)

lemma response_dangling:
  assumes "is_indication m = 0" and "mPendingRequests t (unique_id m) = Some p"
    and "p \<notin> live (mConnector t)"
  shows "processResponse send conns (Some m) t = Fault Use_after_free"
  using assms send_dead by (simp add: processResponse_def Let_def)

lemma indication_broadcast:
  assumes "is_indication m \<noteq> 0" and "distinct (conns (mConnector t))"
    and "processResponse send conns (Some m) t = Ok (t', True)"
  shows "mPendingRequests t' = mPendingRequests t
    \<and> delivered q (mConnector t')
       = delivered q (mConnector t) @ (if q \<in> set (conns (mConnector t)) then [m] else [])"
  using assms by (auto simp: processResponse_def outcome_simps send_to_all_delivers)

end

sublocale client_connections \<subseteq>
  responses: response_handler "\<lambda>t m. processResponse send conns (Some m) t" tracker_inv
  by unfold_locales (rule processResponse_returns)

section \<open>Histories\<close>

text \<open>
  The specification: what the tracker must remember is a function of the history of its calls.
  The owner of a unique id is the connection of the last request with that id, unless a response
  with the id came since.
\<close>

datatype tracker_event =
    Requested nat uril_protocol_msg_t
  | Responded uril_protocol_msg_t

fun concerns :: "u32 \<Rightarrow> tracker_event \<Rightarrow> bool" where
  "concerns uid (Requested p m) \<longleftrightarrow> unique_id m = uid"
| "concerns uid (Responded m) \<longleftrightarrow> is_indication m = 0 \<and> unique_id m = uid"

definition owner_spec :: "tracker_event list \<Rightarrow> u32 \<Rightarrow> nat option" where
  "owner_spec evs uid =
     (case find (concerns uid) (rev evs) of
        Some (Requested p m) \<Rightarrow> Some p
      | _ \<Rightarrow> None)"

fun tracker_run ::
    "(nat \<Rightarrow> uril_protocol_msg_t \<Rightarrow> 'c \<Rightarrow> (bool \<times> 'c) outcome) \<Rightarrow> ('c \<Rightarrow> nat list)
     \<Rightarrow> tracker_event list \<Rightarrow> 'c tracker \<Rightarrow> 'c tracker outcome" where
  "tracker_run send conns [] t = Ok t"
| "tracker_run send conns (Requested p m # evs) t =
     tracker_run send conns evs (track_request p (unique_id m) t)"
| "tracker_run send conns (Responded m # evs) t =
     bind_outcome (processResponse send conns (Some m) t) (\<lambda>(t', b). tracker_run send conns evs t')"

lemma processResponse_pending:
  assumes "processResponse send conns (Some m) t = Ok (t', b)"
  shows "mPendingRequests t' =
    (if is_indication m = 0 then (mPendingRequests t)(unique_id m := None) else mPendingRequests t)"
  using assms
  by (auto simp: processResponse_def Let_def outcome_simps split: option.splits if_splits)

lemma find_append: "find P (xs @ ys) = (case find P xs of None \<Rightarrow> find P ys | Some x \<Rightarrow> Some x)"
  by (induction xs) auto

lemma tracker_run_pending:
  assumes "tracker_run send conns evs t = Ok t'"
  shows "mPendingRequests t' uid =
    (case find (concerns uid) (rev evs) of
       None \<Rightarrow> mPendingRequests t uid | Some (Requested p m) \<Rightarrow> Some p | Some (Responded m) \<Rightarrow> None)"
  using assms
proof (induction evs arbitrary: t)
  case (Cons ev evs)
  show ?case
  proof (cases ev)
    case (Requested p m)
    with Cons.prems Cons.IH [of "track_request p (unique_id m) t"] show ?thesis
      by (auto simp: find_append track_request_def split: option.splits)
  next
    case (Responded m)
    then obtain t1 b where r: "processResponse send conns (Some m) t = Ok (t1, b)"
      "tracker_run send conns evs t1 = Ok t'"
      using Cons.prems by (auto simp: outcome_simps)
    from Cons.IH [OF r(2)] processResponse_pending [OF r(1)] Responded show ?thesis
      by (auto simp: find_append split: option.splits)
  qed
qed simp

lemma bind_outcome_assoc:
  "bind_outcome (bind_outcome m f) g = bind_outcome m (\<lambda>x. bind_outcome (f x) g)"
  by (cases m) auto

lemma tracker_run_append:
  "tracker_run send conns (xs @ ys) t = bind_outcome (tracker_run send conns xs t) (tracker_run send conns ys)"
proof (induction xs arbitrary: t)
  case (Cons x xs)
  then show ?case
    by (cases x) (auto simp: bind_outcome_assoc intro: bind_outcome_cong)
qed simp

end
