(* ===== verification/Uril_Service.thy ===== *)
theory Uril_Service
  imports Ril_Radio Message_Tracker
begin

text \<open>
  The service put together: the configuration, the factory and \<open>main\<close>, the stub adapter, and the
  pump of a connection with everything below it.

  The state of the running service is the Android adapter with the tracker above it, and the
  connector as the tracker's connections.
\<close>

type_synonym service = "connector tracker ril_adapter"

definition tracker_pr :: "(int \<Rightarrow> bool) \<Rightarrow> connector tracker response_processor" where
  "tracker_pr net t m = processResponse (sendMessageToClient net) getConnections (Some m) t"

definition tracker_ok :: "connector tracker \<Rightarrow> bool" where
  "tracker_ok t \<longleftrightarrow>
     set (mConnections (mConnector t)) \<subseteq> dom (objects (mConnector t))
     \<and> ran (mPendingRequests t) \<subseteq> dom (objects (mConnector t))"

lemma tracker_ok_inv: "sockets.tracker_inv t = tracker_ok t"
  by (simp add: sockets.tracker_inv_def tracker_ok_def getConnections_def live_connections_def)

interpretation service_responses: response_handler "tracker_pr net" tracker_ok for net
  by unfold_locales
    (metis tracker_ok_inv tracker_pr_def sockets.processResponse_returns)

section \<open>Configuration\<close>

datatype connector_type_t = LOCAL_UNIX | TCP
datatype modem_adapter_t = RIL_MODEM_ADAPTER | STUB
datatype api_version_t = V1

record uril_config_t =
  local_maxClientsCount :: u32
  tcp_maxClientsCount :: u32
  binding_ip :: u32
  binding_port :: u32
  connector_type :: connector_type_t
  vendor_ril_path :: string
  modem_adapter_type :: modem_adapter_t
  api_version :: api_version_t

text \<open>\<open>getConfig\<close>; the argument is the preprocessor symbol \<open>CONNECTOR_TCP\<close>.\<close>

definition getConfig :: "bool \<Rightarrow> uril_config_t" where
  "getConfig CONNECTOR_TCP =
     \<lparr>local_maxClientsCount = 5, tcp_maxClientsCount = 5, binding_ip = 0, binding_port = 5060,
      connector_type = (if CONNECTOR_TCP then TCP else LOCAL_UNIX),
      vendor_ril_path = ''librpc-ril.so'', modem_adapter_type = RIL_MODEM_ADAPTER,
      api_version = V1\<rparr>"

section \<open>The factory\<close>

datatype connector_kind = Tcp_connector u32 u32 | Unix_connector

definition createClientConnector :: "uril_config_t \<Rightarrow> connector_kind \<times> connector" where
  "createClientConnector mConfig =
     (case connector_type mConfig of
        TCP \<Rightarrow> (Tcp_connector (binding_ip mConfig) (binding_port mConfig),
                new_connector (sint (tcp_maxClientsCount mConfig)))
      | LOCAL_UNIX \<Rightarrow> (Unix_connector, new_connector (sint (local_maxClientsCount mConfig))))"

definition createModemAdapter :: "uril_config_t \<Rightarrow> 'u \<Rightarrow> 'u ril_adapter option" where
  "createModemAdapter mConfig u =
     (case modem_adapter_type mConfig of
        RIL_MODEM_ADAPTER \<Rightarrow> Some (new_adapter u)
      | STUB \<Rightarrow> None)"

section \<open>main\<close>

text \<open>
  What the operating system and the vendor library answer: \<open>dlopen\<close>, \<open>dlsym\<close>, whether
  \<open>RIL_Init\<close> returns a table, \<open>socket\<close>, \<open>bind\<close>.
\<close>

record host =
  dlopen_ok :: "string \<Rightarrow> bool"
  dlsym_ok :: bool
  ril_init_table :: bool
  socket_result :: int
  bind_result :: "binding \<Rightarrow> int"

datatype main_result = Exited int | Running service

definition start_kind :: "host \<Rightarrow> connector_kind \<Rightarrow> connector \<Rightarrow> bool \<times> connector" where
  "start_kind h kind c =
     (case kind of
        Tcp_connector ip port \<Rightarrow> tcp_start (bind_result h) (socket_result h) ip port c
      | Unix_connector \<Rightarrow> unix_start (bind_result h) (socket_result h) c)"

text \<open>
  The constructors of the three processors assert that there is an adapter; the tracker's
  registers it with the connector.
\<close>

definition service_main :: "host \<Rightarrow> uril_config_t \<Rightarrow> main_result outcome" where
  "service_main h config =
     (let (kind, c) = createClientConnector config;
          t = new_tracker (registerObserver Obs_message_tracker c)
      in case createModemAdapter config t of
           None \<Rightarrow> Fault Assert_failed
         | Some modem \<Rightarrow>
             let (inited, modem1) =
                   init_adapter (dlopen_ok h (vendor_ril_path config)) (dlsym_ok h)
                     (ril_init_table h) modem
             in if \<not> inited then Ok (Exited (-1))
                else let (started, c1) = start_kind h kind (mConnector (upper modem1))
                     in if \<not> started then Ok (Exited (-1))
                        else Ok (Running (modem1\<lparr>upper := (upper modem1)\<lparr>mConnector := c1\<rparr>\<rparr>)))"

section \<open>The pump of a connection\<close>

text \<open>
  \<open>MessageTracker::onMessageReceived\<close> with the processors and the adapter below.  The adapter's
  methods never touch the response processor, so the tracker's new state is put back after the
  call.
\<close>

definition service_dispatch ::
    "ril_h \<Rightarrow> nat \<Rightarrow> uril_protocol_msg_t \<Rightarrow> service \<Rightarrow> (bool \<times> service) outcome" where
  "service_dispatch H p m a =
     map_ok (\<lambda>(b, t, a'). (b, a'\<lparr>upper := t\<rparr>))
       (trackAndDispatchRequest (Some (uril_processRequest (android_call H))) p (Some m) (upper a, a))"

fun receive_observer ::
    "ril_h \<Rightarrow> connection_observer \<Rightarrow> nat \<Rightarrow> uril_protocol_msg_t \<Rightarrow> service \<Rightarrow> service outcome" where
  "receive_observer H Obs_connector p m a = Ok a"
| "receive_observer H Obs_tracker p m a = map_ok snd (service_dispatch H p m a)"

fun notify_message ::
    "ril_h \<Rightarrow> nat list \<Rightarrow> nat \<Rightarrow> uril_protocol_msg_t \<Rightarrow> service \<Rightarrow> service outcome" where
  "notify_message H [] p m a = Ok a"
| "notify_message H (i # is) p m a =
     bind_outcome (observer_at p i (mConnector (upper a))) (\<lambda>obs.
     bind_outcome (receive_observer H obs p m a) (notify_message H is p m))"

text \<open>One turn of \<open>pumpLoop\<close>, with whether the loop goes on.\<close>

definition pump_turn :: "ril_h \<Rightarrow> nat \<Rightarrow> recv_result \<Rightarrow> service \<Rightarrow> (bool \<times> service) outcome" where
  "pump_turn H p received a =
     (case objects (mConnector (upper a)) p of
        None \<Rightarrow> Fault Use_after_free
      | Some k \<Rightarrow>
          (case received of
             Recv_error \<Rightarrow> Ok (False, a)
           | Recv_closed \<Rightarrow>
               map_ok (\<lambda>c. (False, a\<lparr>upper := (upper a)\<lparr>mConnector := c\<rparr>\<rparr>))
                 (client_gone p (mConnector (upper a)))
           | Recv_bytes bs \<Rightarrow>
               map_ok (\<lambda>a'. (True, a'))
                 (notify_message H [0..<vsize (cObservers k)] p (received_msg bs) a)))"

fun pumpLoop :: "ril_h \<Rightarrow> nat \<Rightarrow> recv_result list \<Rightarrow> service \<Rightarrow> service outcome" where
  "pumpLoop H p [] a = Ok a"
| "pumpLoop H p (r # rs) a =
     bind_outcome (pump_turn H p r a) (\<lambda>(again, a'). if again then pumpLoop H p rs a' else Ok a')"

section \<open>The stub adapter\<close>

text \<open>
  \<open>StubAdapter::handleRequest\<close> answers a request with a message of the same ids: only the
  result is written, the message id is the request's, the length and the SIM id stay zero.
\<close>

definition stub_response :: "uril_protocol_msg_t \<Rightarrow> uril_protocol_msg_t" where
  "stub_response req =
     \<lparr>is_indication = 0, unique_id = unique_id req, sim_id = 0, msg_id = msg_id req, plen = 0,
      payload = overlay (le32 (uril_result_t_v01_code URIL_RESULT_SUCCESS_V01)) zero_payload\<rparr>"

definition stub_handleRequest ::
    "'u response_processor option \<Rightarrow> uril_protocol_msg_t \<Rightarrow> 'u \<Rightarrow> (bool \<times> 'u) outcome" where
  "stub_handleRequest mResponseProcessor req u =
     (case mResponseProcessor of
        None \<Rightarrow> Ok (False, u)
      | Some pr \<Rightarrow> map_ok (\<lambda>(u', b). (True, u')) (pr u (stub_response req)))"

section \<open>From the socket to the vendor RIL and back\<close>

lemma service_dispatch_table:
  "service_dispatch H p m a =
     (let t = track_request p (unique_id m) (upper a)
      in case map_of op_table (msg_id m) of
           None \<Rightarrow> Ok (False, a\<lparr>upper := t\<rparr>)
         | Some op \<Rightarrow> map_ok (\<lambda>(b, a'). (b, a'\<lparr>upper := t\<rparr>))
                        (android_call H op (payload m) (unique_id m) (sim_id m) a))"
  by (simp add: service_dispatch_def trackAndDispatchRequest_def uril_processRequest_table_aux
      Let_def call_op_def map_ok_map_ok split_def split: option.split)

lemma received_msg_image:
  "msg_wf m \<Longrightarrow> padding_wf pad \<Longrightarrow> received_msg (msg_image pad m) = m"
  using msg_of_image_image [of m pad "[]"]
  by (simp add: received_msg_def overlay_def length_msg_image)

lemma pump_turn_accepted:
  assumes "objects (mConnector (upper a)) p = Some (accepted_connection s)"
  shows "pump_turn H p (Recv_bytes bs) a =
    map_ok (\<lambda>(b, a'). (True, a')) (service_dispatch H p (received_msg bs) a)"
proof -
  have "[0..<2] = [0, Suc 0]" by (simp add: upt_rec)
  with assms show ?thesis
    by (cases "service_dispatch H p (received_msg bs) a")
      (auto simp: pump_turn_def observer_at_def accepted_connection_def)
qed

lemma pump_request:
  assumes "objects (mConnector (upper a)) p = Some (accepted_connection s)"
    and "msg_wf m" and "padding_wf pad" and "map_of op_table (msg_id m) = Some op"
    and "pump_turn H p (Recv_bytes (msg_image pad m)) a = Ok (True, a1)"
    and "next_token a1 \<noteq> next_token a"
  shows "\<exists>r data. r \<in> first_request op
    \<and> a1 = a\<lparr>heap := (heap a)(next_token a \<mapsto> new_context r (unique_id m) (sim_id m)),
             next_token := Suc (next_token a),
             on_requests := on_requests a @
               [\<lparr>vc_request = r, vc_data = data, vc_token = next_token a\<rparr>],
             upper := track_request p (unique_id m) (upper a)\<rparr>"
proof -
  obtain b a' where call: "android_call H op (payload m) (unique_id m) (sim_id m) a = Ok (b, a')"
    and a1: "a1 = a'\<lparr>upper := track_request p (unique_id m) (upper a)\<rparr>"
    using assms(5) unfolding pump_turn_accepted [OF assms(1)] received_msg_image [OF assms(2,3)]
    by (auto simp: service_dispatch_table assms(4) outcome_simps)
  from request_effect [OF call] assms(6) show ?thesis
    by (auto simp: a1)
qed

text \<open>The answer to such a request.\<close>

lemma answer_to_sender:
  assumes "objects (mConnector (upper a)) p = Some (accepted_connection s)"
    and "msg_wf m" and "padding_wf pad" and "map_of op_table (msg_id m) = Some op"
    and "pump_turn H p (Recv_bytes (msg_image pad m)) a = Ok (True, a1)"
    and "next_token a1 \<noteq> next_token a"
    and "handleRilResponse H (tracker_pr net) (Some (next_token a)) e data a1 = Ok (b, a2)"
  shows "(\<exists>r. heap a2 (next_token a) = None \<and> is_indication r = 0 \<and> msg_wf r
        \<and> unique_id r = unique_id m \<and> sim_id r = sim_id m
        \<and> mPendingRequests (upper a2) (unique_id m) = None
        \<and> (\<forall>q. delivered_to q (mConnector (upper a2)) = delivered_to q (mConnector (upper a))
                @ (if b \<and> q = p then [r] else [])))
    \<or> (\<exists>ctx. heap a2 (next_token a) = Some ctx \<and> ctx_ok ctx
        \<and> threads a2 = threads a @ [(rilReqId ctx, next_token a)]
        \<and> mConnector (upper a2) = mConnector (upper a))"
proof -
  obtain r vd where r: "r \<in> first_request op"
    and a1: "a1 = a\<lparr>heap := (heap a)(next_token a \<mapsto> new_context r (unique_id m) (sim_id m)),
             next_token := Suc (next_token a),
             on_requests := on_requests a @
               [\<lparr>vc_request = r, vc_data = vd, vc_token = next_token a\<rparr>],
             upper := track_request p (unique_id m) (upper a)\<rparr>"
    using pump_request [OF assms(1-6)] by blast
  let ?ctx = "new_context r (unique_id m) (sim_id m)"
  have ctx: "heap a1 (next_token a) = Some ?ctx" "ctx_ok ?ctx"
    using ctx_ok_new [OF r] by (simp_all add: a1)
  from answer_cases [OF ctx assms(7)] show ?thesis
  proof (elim disjE exE conjE)
    fix rsp u assume o: "same_owner ?ctx rsp" and pr: "tracker_pr net (upper a1) (msg_of_rsp rsp) = Ok (u, b)"
      and a2: "a2 = a1\<lparr>heap := (heap a1)(next_token a := None), upper := u\<rparr>"
    let ?m = "msg_of_rsp rsp"
    have ids: "is_indication ?m = 0" "unique_id ?m = unique_id m" "sim_id ?m = sim_id m"
      using o by (simp_all add: same_owner_def msg_of_rsp_def new_context_def)
    have "mPendingRequests (upper a1) (unique_id ?m) = Some p"
      by (simp add: a1 track_request_def ids(2))
    from sockets.response_routed [OF ids(1) this, of net u b] pr
    have "mPendingRequests u = (mPendingRequests (upper a1))(unique_id m := None)"
      "\<forall>q. delivered_to q (mConnector u) = delivered_to q (mConnector (upper a1))
         @ (if b \<and> q = p then [?m] else [])"
      by (simp_all add: tracker_pr_def ids(2))
    then show ?thesis
      using ids by (intro disjI1 exI [of _ ?m]) (simp add: a2 a1 track_request_def msg_of_rsp_wf)
  next
    fix ctx' assume "ctx_ok ctx'"
      and "a2 = a1\<lparr>heap := (heap a1)(next_token a \<mapsto> ctx'),
                   threads := threads a1 @ [(rilReqId ctx', next_token a)]\<rparr>"
    then show ?thesis by (intro disjI2 exI [of _ ctx']) (simp add: a1 track_request_def)
  qed
qed

end
