(* ===== verification/Service_System.thy ===== *)
theory Service_System
  imports Uril_Service
begin

text \<open>
  The running service as one transition system: clients connect and send bytes, the vendor RIL answers,
  detached threads run, indications arrive, in any order.  The world is the world of the adapter with
  the tracker and the connector above it, and a history of who asked what.  Runs end where a client
  leaves, which the service does not survive.  A client does not use a unique id that is pending for
  another one; \<open>unique_id_collision\<close> in \<open>Service_Properties\<close> is what happens otherwise.
\<close>

section \<open>The world and its steps\<close>

record service_world =
  ril :: "connector tracker ril_world"
  asked :: "(nat \<times> u32 \<times> u8) list"

abbreviation the_tracker :: "service_world \<Rightarrow> connector tracker" where
  "the_tracker w \<equiv> upper (adapter (ril w))"

definition start_service :: "service \<Rightarrow> service_world" where
  "start_service a = \<lparr>ril = \<lparr>adapter = a, owed = [], radio = [], accepted = []\<rparr>, asked = []\<rparr>"

datatype service_event = Receive nat "u8 list" | Accept int | Internal ril_event

text \<open>
  The ids a message adds to the requests that wait: those of a message the adapter accepted, which
  is one that went to the vendor RIL or that reads the radio mode.
\<close>

definition taken :: "uril_protocol_msg_t \<Rightarrow> service \<Rightarrow> service \<Rightarrow> (u32 \<times> u8) list" where
  "taken m a a' =
     (if sent_tokens a a' \<noteq> [] \<or> map_of op_table (msg_id m) = Some Op_getRadioModeV1
      then [(unique_id m, sim_id m)] else [])"

inductive service_step ::
    "ril_h \<Rightarrow> (int \<Rightarrow> bool) \<Rightarrow> service_event \<Rightarrow> service_world \<Rightarrow> service_world \<Rightarrow> bool"
  for H net where
  receive: "p \<in> set (mConnections (mConnector (the_tracker w))) \<Longrightarrow>
     unique_id (received_msg bs) \<notin> dom (mPendingRequests (the_tracker w)) \<Longrightarrow>
     pump_turn H p (Recv_bytes bs) (adapter (ril w)) = Ok (True, a') \<Longrightarrow>
     ids = taken (received_msg bs) (adapter (ril w)) a' \<Longrightarrow>
     service_step H net (Receive p bs) w
       \<lparr>ril = (ril w)\<lparr>adapter := a', owed := owed (ril w) @ sent_tokens (adapter (ril w)) a',
                radio := radio (ril w) @
                  (if map_of op_table (msg_id (received_msg bs)) = Some Op_getRadioModeV1 then ids else []),
                accepted := accepted (ril w) @ ids\<rparr>,
        asked = asked w @ map (Pair p) ids\<rparr>"
| accept: "accept_client s (mConnector (the_tracker w)) = Ok c \<Longrightarrow>
     service_step H net (Accept s) w
       (w\<lparr>ril := (ril w)\<lparr>adapter := (adapter (ril w))\<lparr>upper := (the_tracker w)\<lparr>mConnector := c\<rparr>\<rparr>\<rparr>\<rparr>)"
| internal: "ril_step H (tracker_pr net) ev (ril w) v \<Longrightarrow> (\<forall>op uid sid. ev \<noteq> Ev_request op uid sid) \<Longrightarrow>
     service_step H net (Internal ev) w (w\<lparr>ril := v\<rparr>)"

inductive service_run ::
    "ril_h \<Rightarrow> (int \<Rightarrow> bool) \<Rightarrow> service_event list \<Rightarrow> service_world \<Rightarrow> service_world \<Rightarrow> bool"
  for H net where
  service_none: "service_run H net [] w w"
| service_more: "service_run H net evs w w1 \<Longrightarrow> service_step H net ev w1 w2
     \<Longrightarrow> service_run H net (evs @ [ev]) w w2"

section \<open>The invariant\<close>

definition connections_ok :: "connector \<Rightarrow> bool" where
  "connections_ok c \<longleftrightarrow>
     connector_inv c \<and> mObservers c = [Obs_message_tracker]
     \<and> (\<forall>p k. objects c p = Some k \<longrightarrow> (\<exists>s. k = accepted_connection s))"

lemma connection_accepted:
  assumes "connections_ok c" and "p \<in> set (mConnections c)"
  shows "\<exists>s. objects c p = Some (accepted_connection s)"
proof -
  have "set (mConnections c) \<subseteq> dom (objects c)" using assms(1) by (simp add: connections_ok_def connector_inv_def)
  then obtain k where k: "objects c p = Some k" using assms(2) by blast
  then obtain s where "k = accepted_connection s" using assms(1) unfolding connections_ok_def by blast
  with k show ?thesis by blast
qed

text \<open>The requests of connection \<open>q\<close>, and those of them that wait for an answer.\<close>

definition asked_by :: "nat \<Rightarrow> (nat \<times> u32 \<times> u8) list \<Rightarrow> (u32 \<times> u8) multiset" where
  "asked_by q xs = mset (map snd (filter (\<lambda>x. fst x = q) xs))"

definition waits_for :: "nat \<Rightarrow> connector tracker \<Rightarrow> (u32 \<times> u8) multiset \<Rightarrow> (u32 \<times> u8) multiset" where
  "waits_for q t W = filter_mset (\<lambda>x. mPendingRequests t (fst x) = Some q) W"

text \<open>
  Every request that waits is remembered for its connection, no two of them with the same unique id, and
  each connection's requests are those answered to it, those that wait and those whose answer could
  not be sent.
\<close>

definition routed ::
    "(int \<Rightarrow> bool) \<Rightarrow> connector tracker \<Rightarrow> (u32 \<times> u8) multiset \<Rightarrow> (nat \<times> u32 \<times> u8) list \<Rightarrow> bool" where
  "routed net t W xs \<longleftrightarrow>
     connections_ok (mConnector t)
     \<and> ran (mPendingRequests t) \<subseteq> dom (objects (mConnector t))
     \<and> (\<forall>u. count (image_mset fst W) u \<le> (if u \<in> dom (mPendingRequests t) then 1 else 0))
     \<and> (\<forall>q. \<exists>lost. asked_by q xs = mset (answered (delivered_to q (mConnector t))) + waits_for q t W + lost
          \<and> ((\<forall>s. net s) \<longrightarrow> lost = {#}))"

definition service_inv :: "(int \<Rightarrow> bool) \<Rightarrow> service_world \<Rightarrow> bool" where
  "service_inv net w \<longleftrightarrow> ril_inv (ril w) \<and> routed net (the_tracker w) (waiting (ril w)) (asked w)"

section \<open>What the tracker does to it\<close>

lemma send_effect:
  assumes "sendMessageToClient net p m c = Ok (b, c')"
  shows "\<exists>out. c' = c\<lparr>outbox := out\<rparr>" and "(\<forall>s. net s) \<Longrightarrow> b"
  using assms
  by (auto simp: sendMessageToClient_def intro!: exI [of _ "outbox c'"] split: option.splits if_splits)

lemma send_to_all_frame:
  "send_to_all (sendMessageToClient net) ps m ret c = Ok (b, c') \<Longrightarrow> is_indication m \<noteq> 0 \<Longrightarrow>
   \<exists>out. c' = c\<lparr>outbox := out\<rparr> \<and> (\<forall>q. answered (delivered_to q c') = answered (delivered_to q c))"
proof (induction ps arbitrary: ret c)
  case Nil
  then show ?case by (auto intro: exI [of _ "outbox c"])
next
  case (Cons p ps)
  then obtain b1 c1 where s: "sendMessageToClient net p m c = Ok (b1, c1)"
    "send_to_all (sendMessageToClient net) ps m (ret \<and> b1) c1 = Ok (b, c')"
    by (auto simp: outcome_simps)
  have "answered (delivered_to q c1) = answered (delivered_to q c)" for q
    using sockets.send_delivers [OF s(1), of q] Cons.prems(2) by (auto simp: answered_snoc)
  with Cons.IH [OF s(2) Cons.prems(2)] send_effect(1) [OF s(1)] show ?case by auto
qed

lemma connections_ok_outbox [simp]: "connections_ok (c\<lparr>outbox := out\<rparr>) = connections_ok c"
  by (simp add: connections_ok_def connector_inv_def)

lemma routed_notice:
  assumes "routed net t W xs" and "is_indication m \<noteq> 0" and "tracker_pr net t m = Ok (t', b)"
  shows "routed net t' W xs"
proof -
  obtain c where c: "send_to_all (sendMessageToClient net) (getConnections (mConnector t)) m True (mConnector t)
      = Ok (b, c)" "t' = t\<lparr>mConnector := c\<rparr>"
    using assms(2,3) by (auto simp: tracker_pr_def processResponse_def outcome_simps)
  obtain out where out: "c = (mConnector t)\<lparr>outbox := out\<rparr>"
    "\<forall>q. answered (delivered_to q c) = answered (delivered_to q (mConnector t))"
    using send_to_all_frame [OF c(1) assms(2)] by blast
  have "connections_ok c" "objects c = objects (mConnector t)"
    using assms(1) by (simp_all add: routed_def out(1))
  with assms(1) out(2) show ?thesis by (simp add: routed_def c(2) waits_for_def)
qed

lemma no_id_waits: "count (image_mset fst W) u = 0 \<longleftrightarrow> u \<notin> fst ` set_mset W"
  using count_eq_zero_iff [of "image_mset fst W" u] by (simp del: count_image_mset)

lemma waits_for_other:
  assumes "\<And>x. x \<in># W \<Longrightarrow> mPendingRequests t' (fst x) = mPendingRequests t (fst x)"
  shows "waits_for q t' W = waits_for q t W"
  using assms unfolding waits_for_def by (intro filter_mset_cong) simp_all

lemma routed_reply:
  assumes r: "routed net t (add_mset (unique_id m, sim_id m) W) xs" and m: "is_indication m = 0"
    and pr: "tracker_pr net t m = Ok (t', b)"
  shows "routed net t' W xs"
proof -
  let ?u = "unique_id m"
  have cnt: "count (image_mset fst (add_mset (?u, sim_id m) W)) u \<le> (if u \<in> dom (mPendingRequests t) then 1 else 0)" for u
    using r by (simp only: routed_def)
  have "?u \<in> dom (mPendingRequests t)" using cnt [of ?u] by (simp split: if_splits)
  then obtain p where p: "mPendingRequests t ?u = Some p" by blast
  have fresh: "?u \<notin> fst ` set_mset W"
    using cnt [of ?u] by (subst no_id_waits [symmetric]) (simp split: if_splits)
  obtain c where c: "sendMessageToClient net p m (mConnector t) = Ok (b, c)"
    "t' = t\<lparr>mPendingRequests := (mPendingRequests t)(?u := None), mConnector := c\<rparr>"
    using pr m p by (auto simp: tracker_pr_def processResponse_def outcome_simps Let_def)
  obtain out where out: "c = (mConnector t)\<lparr>outbox := out\<rparr>" using send_effect(1) [OF c(1)] by blast
  have "connections_ok c" "ran (mPendingRequests t') \<subseteq> dom (objects c)"
    using r by (auto simp: routed_def out c(2) ran_def split: if_splits)
  moreover have "count (image_mset fst W) u \<le> (if u \<in> dom (mPendingRequests t') then 1 else 0)" for u
  proof (cases "u = ?u")
    case True
    with fresh show ?thesis by (simp add: no_id_waits [THEN iffD2])
  next
    case False
    with cnt [of u] show ?thesis by (simp add: c(2) split: if_splits)
  qed
  moreover have "\<exists>lost. asked_by q xs = mset (answered (delivered_to q c)) + waits_for q t' W + lost
      \<and> ((\<forall>s. net s) \<longrightarrow> lost = {#})" for q
  proof -
    obtain lost where l: "asked_by q xs = mset (answered (delivered_to q (mConnector t)))
        + waits_for q t (add_mset (?u, sim_id m) W) + lost" "(\<forall>s. net s) \<longrightarrow> lost = {#}"
      using r unfolding routed_def by blast
    have same: "waits_for q t' W = waits_for q t W"
      using fresh by (intro waits_for_other) (force simp: c(2))
    have sent: "delivered_to q c = delivered_to q (mConnector t) @ (if b \<and> q = p then [m] else [])"
      using sockets.send_delivers [OF c(1)] .
    show ?thesis
    proof (cases "q = p \<and> \<not> b")
      case True
      with l same sent p send_effect(2) [OF c(1)] show ?thesis
        by (intro exI [of _ "add_mset (?u, sim_id m) lost"]) (auto simp: waits_for_def)
    next
      case False
      with l same sent p m show ?thesis
        by (intro exI [of _ lost]) (auto simp: waits_for_def answered_snoc)
    qed
  qed
  ultimately show ?thesis by (simp add: routed_def c(2))
qed

lemma routed_request:
  assumes r: "routed net t W xs" and p: "p \<in> dom (objects (mConnector t))"
    and u: "u \<notin> dom (mPendingRequests t)" and ids: "ids \<in> {[], [(u, s)]}"
  shows "routed net (track_request p u t) (W + mset ids) (xs @ map (Pair p) ids)"
proof -
  have cnt: "count (image_mset fst W) v \<le> (if v \<in> dom (mPendingRequests t) then 1 else 0)" for v
    using r by (simp only: routed_def)
  have none: "count (image_mset fst W) u = 0" using cnt [of u] u by simp
  then have fresh: "u \<notin> fst ` set_mset W" by (rule no_id_waits [THEN iffD1])
  have old: "waits_for q (track_request p u t) W = waits_for q t W" for q
    using fresh by (intro waits_for_other) (auto simp: track_request_def)
  have "\<exists>lost. asked_by q (xs @ map (Pair p) ids) = mset (answered (delivered_to q (mConnector t)))
        + waits_for q (track_request p u t) (W + mset ids) + lost \<and> ((\<forall>s. net s) \<longrightarrow> lost = {#})" for q
  proof -
    obtain lost where l: "asked_by q xs = mset (answered (delivered_to q (mConnector t))) + waits_for q t W + lost"
      "(\<forall>s. net s) \<longrightarrow> lost = {#}"
      using r unfolding routed_def by blast
    have "asked_by q (xs @ map (Pair p) ids) = asked_by q xs + (if q = p then mset ids else {#})"
      using ids by (auto simp: asked_by_def)
    moreover have "waits_for q (track_request p u t) (W + mset ids)
        = waits_for q t W + (if q = p then mset ids else {#})"
      using ids old [of q] by (auto simp: waits_for_def track_request_def)
    ultimately show ?thesis using l by (intro exI [of _ lost]) auto
  qed
  moreover have "count (image_mset fst (W + mset ids)) v
      \<le> (if v \<in> dom (mPendingRequests (track_request p u t)) then 1 else 0)" for v
    using cnt [of v] ids none by (auto simp: track_request_def split: if_splits)
  moreover have "ran (mPendingRequests (track_request p u t)) \<subseteq> dom (objects (mConnector t))"
    using r p by (auto simp: routed_def track_request_def ran_def split: if_splits)
  moreover have "mConnector (track_request p u t) = mConnector t" by (simp add: track_request_def)
  ultimately show ?thesis using r unfolding routed_def by simp
qed

lemma routed_accept:
  assumes r: "routed net t W xs" and c: "accept_client s (mConnector t) = Ok c"
  shows "routed net (t\<lparr>mConnector := c\<rparr>) W xs"
proof -
  let ?c = "mConnector t"
  have ok: "connections_ok ?c" using r by (simp add: routed_def)
  then have "mObservers ?c = [Obs_message_tracker]" by (simp add: connections_ok_def)
  from accept_client_result [OF this, of s] c
  have e: "objects c = (objects ?c)(next_object ?c \<mapsto> accepted_connection s)"
    "next_object c = Suc (next_object ?c)" "mConnections c = mConnections ?c @ [next_object ?c]"
    "mObservers c = mObservers ?c" "outbox c = outbox ?c"
    by auto
  have "set (mConnections ?c) \<subseteq> {..<next_object ?c}"
    using ok by (auto simp: connections_ok_def connector_inv_def)
  then have "connector_inv c"
    using ok by (auto simp: connections_ok_def connector_inv_def e less_Suc_eq dest: subsetD)
  then have "connections_ok c" using ok by (auto simp: connections_ok_def e split: if_splits)
  moreover have "delivered_to q c = delivered_to q ?c" for q by (simp add: delivered_to_def e)
  ultimately show ?thesis using r by (auto simp: routed_def e waits_for_def)
qed

section \<open>Every step keeps the invariant\<close>

lemma pump_accepted_message:
  assumes "objects (mConnector (upper a)) p = Some (accepted_connection s)"
    and "pump_turn H p (Recv_bytes bs) a = Ok (True, a')" and "m = received_msg bs"
  shows "(map_of op_table (msg_id m) = None \<and> a' = a\<lparr>upper := track_request p (unique_id m) (upper a)\<rparr>)
    \<or> (\<exists>op b a1. map_of op_table (msg_id m) = Some op
        \<and> android_call H op (payload m) (unique_id m) (sim_id m) a = Ok (b, a1)
        \<and> a' = a1\<lparr>upper := track_request p (unique_id m) (upper a)\<rparr>
        \<and> taken m a a' = (if b then [(unique_id m, sim_id m)] else []))"
proof (cases "map_of op_table (msg_id m)")
  case None
  then show ?thesis
    using assms by (auto simp: pump_turn_accepted [OF assms(1)] service_dispatch_table Let_def)
next
  case (Some op)
  then obtain b a1 where call: "android_call H op (payload m) (unique_id m) (sim_id m) a = Ok (b, a1)"
    and a': "a' = a1\<lparr>upper := track_request p (unique_id m) (upper a)\<rparr>"
    using assms by (auto simp: pump_turn_accepted [OF assms(1)] service_dispatch_table outcome_simps)
  have "sent_tokens a a' = sent_tokens a a1" by (simp add: sent_tokens_def a')
  with request_effect [OF call] Some have "taken m a a' = (if b then [(unique_id m, sim_id m)] else [])"
    by (auto simp: taken_def)
  with Some call a' show ?thesis by blast
qed

lemma service_step_inv:
  assumes "service_step H net ev w w'" and inv: "service_inv net w"
  shows "service_inv net w'"
  using assms(1)
proof cases
  case (accept s c)
  then show ?thesis
    using inv inv_same_adapter [of "ril w"] routed_accept by (auto simp: service_inv_def)
next
  case (internal ev v)
  have ok: "ril_inv (ril w)" and r: "routed net (the_tracker w) (waiting (ril w)) (asked w)"
    using inv by (simp_all add: service_inv_def)
  have "routed net (upper (adapter v)) (waiting v) (asked w)"
    using internal(3) ok
  proof (cases rule: step_effect)
    case (taken op uid sid)
    with internal(4) show ?thesis by simp
  qed (use r in \<open>auto intro: routed_reply routed_notice\<close>)
  with internal(2) inv_step [OF internal(3) ok] show ?thesis by (simp add: service_inv_def)
next
  case (receive p bs a' ids)
  let ?m = "received_msg bs" and ?a = "adapter (ril w)"
  have ok: "ril_inv (ril w)" and r: "routed net (the_tracker w) (waiting (ril w)) (asked w)"
    using inv by (simp_all add: service_inv_def)
  from r have "connections_ok (mConnector (the_tracker w))" by (simp add: routed_def)
  then obtain s where s: "objects (mConnector (the_tracker w)) p = Some (accepted_connection s)"
    using connection_accepted receive(3) by blast
  have ids: "ids \<in> {[], [(unique_id ?m, sim_id ?m)]}" by (simp add: receive(6) taken_def)
  have "p \<in> dom (objects (mConnector (the_tracker w)))" using s by blast
  from routed_request [OF r this receive(4) ids]
  have r': "routed net (track_request p (unique_id ?m) (the_tracker w)) (waiting (ril w) + mset ids)
      (asked w @ map (Pair p) ids)" .
  from pump_accepted_message [OF s receive(5) refl] show ?thesis
  proof (elim disjE exE conjE)
    assume none: "map_of op_table (msg_id ?m) = None"
      and a': "a' = ?a\<lparr>upper := track_request p (unique_id ?m) (the_tracker w)\<rparr>"
    have "sent_tokens ?a a' = []" by (simp add: sent_tokens_def a')
    then have "ids = []" using none by (simp add: receive(6) taken_def)
    with r' show ?thesis
      using inv_same_adapter [OF ok a'] \<open>sent_tokens ?a a' = []\<close>
      by (simp add: receive(2) service_inv_def) (simp add: a')
  next
    fix op b a1
    assume op: "map_of op_table (msg_id ?m) = Some op"
      and call: "android_call H op (payload ?m) (unique_id ?m) (sim_id ?m) ?a = Ok (b, a1)"
      and a': "a' = a1\<lparr>upper := track_request p (unique_id ?m) (the_tracker w)\<rparr>"
      and b: "taken ?m ?a a' = (if b then [(unique_id ?m, sim_id ?m)] else [])"
    let ?v = "(ril w)\<lparr>adapter := a1, owed := owed (ril w) @ sent_tokens ?a a1,
        radio := radio (ril w) @ (if op = Op_getRadioModeV1 then [(unique_id ?m, sim_id ?m)] else []),
        accepted := accepted (ril w) @ ids\<rparr>"
    have v: "ril_inv ?v" "waiting ?v = waiting (ril w) + mset ids" "upper a1 = the_tracker w"
      using inv_request [OF ok call] waiting_request [OF ok call] b by (simp_all add: receive(6))
    have sent: "sent_tokens ?a a' = sent_tokens ?a a1" by (simp add: sent_tokens_def a')
    have "op = Op_getRadioModeV1 \<Longrightarrow> ids = [(unique_id ?m, sim_id ?m)]"
      using op by (simp add: receive(6) taken_def)
    then have w': "ril w' = ?v\<lparr>adapter := (adapter ?v)\<lparr>upper := track_request p (unique_id ?m) (the_tracker w)\<rparr>\<rparr>"
      by (simp add: receive(2) sent op) (simp add: a')
    have "ril_inv (ril w')" unfolding w' by (rule inv_same_adapter [OF v(1) refl])
    moreover have "waiting (ril w') = waiting (ril w) + mset ids" unfolding w' waiting_upper v(2) ..
    moreover have "the_tracker w' = track_request p (unique_id ?m) (the_tracker w)" by (simp add: w')
    moreover have "asked w' = asked w @ map (Pair p) ids" by (simp add: receive(2))
    ultimately show ?thesis using r' by (simp add: service_inv_def)
  qed
qed

lemma service_run_inv: "service_run H net evs w w' \<Longrightarrow> service_inv net w \<Longrightarrow> service_inv net w'"
  by (induction rule: service_run.induct) (auto intro: service_step_inv)

text \<open>A service that \<open>main\<close> has started.\<close>

definition unused_connector :: "connector \<Rightarrow> bool" where
  "unused_connector c \<longleftrightarrow> objects c = Map.empty \<and> mConnections c = [] \<and> outbox c = []"

lemma start_kind_frame:
  assumes "start_kind h kind c = (b, c')"
  shows "unused_connector c' = unused_connector c" and "mObservers c' = mObservers c"
  using assms
  by (auto simp: start_kind_def tcp_start_def unix_start_def start_connector_def unused_connector_def
      split: connector_kind.splits if_splits)

lemma factory_connector: "unused_connector (snd (createClientConnector config))
    \<and> mObservers (snd (createClientConnector config)) = []"
  by (simp add: createClientConnector_def new_connector_def unused_connector_def split: connector_type_t.split)

lemma started_service:
  assumes "service_main h config = Ok (Running a)"
  shows "\<exists>c. a = (new_adapter (new_tracker c))\<lparr>funcs := ril_init_table h\<rparr>
    \<and> mObservers c = [Obs_message_tracker] \<and> unused_connector c"
proof -
  obtain kind c0 where k: "createClientConnector config = (kind, c0)" by fastforce
  let ?c = "registerObserver Obs_message_tracker c0"
  let ?a = "(new_adapter (new_tracker ?c))\<lparr>funcs := ril_init_table h\<rparr>"
  have c0: "unused_connector ?c" "mObservers ?c = [Obs_message_tracker]"
    using factory_connector [of config] k by (simp_all add: registerObserver_def unused_connector_def)
  have "createModemAdapter config (new_tracker ?c) = Some (new_adapter (new_tracker ?c))"
    using assms k by (auto simp: service_main_def createModemAdapter_def split: modem_adapter_t.splits)
  then obtain c1 where c1: "start_kind h kind ?c = (True, c1)"
    "a = ?a\<lparr>upper := (new_tracker ?c)\<lparr>mConnector := c1\<rparr>\<rparr>"
    using assms k
    by (cases "start_kind h kind ?c")
      (auto simp: service_main_def init_adapter_def new_adapter_def new_tracker_def split: if_splits)
  have "a = (new_adapter (new_tracker c1))\<lparr>funcs := ril_init_table h\<rparr>"
    by (simp add: c1(2) new_adapter_def new_tracker_def)
  with start_kind_frame [OF c1(1)] c0 show ?thesis by auto
qed

lemma start_service_inv:
  assumes "service_main h config = Ok (Running a)" and "ril_init_table h"
  shows "service_inv net (start_service a)"
proof -
  obtain c where c: "a = (new_adapter (new_tracker c))\<lparr>funcs := True\<rparr>" "mObservers c = [Obs_message_tracker]"
    "unused_connector c"
    using started_service [OF assms(1)] assms(2) by auto
  have "ril (start_service a) = new_world (new_tracker c)"
    by (simp add: start_service_def new_world_def c(1))
  moreover have "waiting (new_world (new_tracker c)) = {#}"
    by (simp add: waiting_def tokens_def new_world_def new_adapter_def)
  moreover have "routed net (new_tracker c) {#} []"
    using c(2-) by (simp add: routed_def new_tracker_def connections_ok_def connector_inv_def asked_by_def
        answered_def delivered_to_def waits_for_def unused_connector_def)
  moreover have "upper (adapter (new_world (new_tracker c))) = new_tracker c" "asked (start_service a) = []"
    by (simp_all add: new_world_def new_adapter_def start_service_def)
  ultimately show ?thesis using inv_new [of "new_tracker c"] by (simp add: service_inv_def)
qed

end
