(* ===== verification/Service_Properties.thy ===== *)
theory Service_Properties
  imports Uril_Service
begin

text \<open>
  What the service promises its clients, from the socket to the vendor RIL and back, and where it
  does not keep it: requests are dispatched once, responses reach the connection that asked as
  long as no other client uses the same unique id and the client stays connected.
\<close>

section \<open>Dispatch\<close>

text \<open>
  C22: The three processors together call exactly one method of the adapter, the one the table of
  message ids names, with the fields of the message, and none for an unknown id; a refusal is
  passed on without trying another method.
\<close>

lemma one_call_per_request:
  "uril_processRequest call (Some m) a =
     (case map_of op_table (msg_id m) of
        None \<Rightarrow> Ok (False, a)
      | Some op \<Rightarrow> call op (payload m) (unique_id m) (sim_id m) a)"
  by (simp add: uril_processRequest_table_aux call_op_def split: option.split)

text \<open>
  A request the service refuses leaves the Android adapter as it was: no context is allocated and
  nothing is sent to the vendor RIL.
\<close>

lemma refused_request_no_effect:
  assumes "contexts_ok a" and "uril_processRequest (android_call H) msg a = Ok (False, a')"
  shows "a' = a"
  using assms by (rule android.uril.process_refused)

definition msg_with_id :: "u32 \<Rightarrow> uril_protocol_msg_t" where
  "msg_with_id i = \<lparr>is_indication = 0, unique_id = 7, sim_id = 1, msg_id = i, plen = 0,
     payload = zero_payload\<rparr>"

lemma refused_request_no_effect_witness:
  "\<exists>a' :: unit ril_adapter.
     uril_processRequest (android_call sample_h)
       (Some (msg_with_id URIL_NW_GET_CELL_ACCESS_STATE_REQ_V01)) (new_adapter ()) = Ok (False, a')
     \<and> a' = new_adapter ()"
proof -
  have "contexts_ok (new_adapter ())" by (simp add: contexts_ok_def new_adapter_def)
  moreover have "map_of op_table URIL_NW_GET_CELL_ACCESS_STATE_REQ_V01 = Some Op_getCellAccessV1"
    by (simp add: op_table_def code_simps)
  then have "uril_processRequest (android_call sample_h)
      (Some (msg_with_id URIL_NW_GET_CELL_ACCESS_STATE_REQ_V01)) (new_adapter ())
      = Ok (False, new_adapter ())"
    by (simp add: uril_processRequest_table_aux msg_with_id_def call_op_def getCellAccessV1_def)
  ultimately show ?thesis using refused_request_no_effect by blast
qed

section \<open>The tracker\<close>

text \<open>
  The tracker's table refines its specification: after any sequence of requests and responses that
  returns, the connection remembered for a unique id is the one that last used the id in a
  request, unless a response with the id came since.
\<close>

lemma tracker_refines_history:
  assumes "tracker_run send conns evs (new_tracker c) = Ok t"
  shows "mPendingRequests t = owner_spec evs"
proof
  fix uid
  show "mPendingRequests t uid = owner_spec evs uid"
    using tracker_run_pending [OF assms, of uid]
    by (auto simp: owner_spec_def new_tracker_def split: option.splits tracker_event.splits)
qed

lemma tracker_refines_history_witness:
  "\<exists>t. tracker_run (\<lambda>p m c. Ok (True, c)) (\<lambda>c. []) [Requested 3 (msg_with_id 5), Requested 4 (msg_with_id 6)]
        (new_tracker ()) = Ok t
     \<and> mPendingRequests t 7 = Some 4"
proof -
  let ?evs = "[Requested 3 (msg_with_id 5), Requested 4 (msg_with_id 6)]"
  obtain t where t: "tracker_run (\<lambda>p m c. Ok (True, c)) (\<lambda>c. []) ?evs (new_tracker ()) = Ok t"
    by simp
  from tracker_refines_history [OF t] t show ?thesis
    by (auto simp: owner_spec_def msg_with_id_def)
qed

text \<open>
  A response goes to the connection remembered for its unique id and to no other, whatever the
  connections are, and its id is forgotten; sent or not, the tracker keeps its invariant.
\<close>

lemma response_to_owner:
  assumes "tracker_ok t" and "is_indication m = 0" and "mPendingRequests t (unique_id m) = Some p"
  shows "\<exists>t' b. tracker_pr net t m = Ok (t', b) \<and> tracker_ok t'
    \<and> mPendingRequests t' = (mPendingRequests t)(unique_id m := None)
    \<and> (\<forall>q. delivered_to q (mConnector t')
           = delivered_to q (mConnector t) @ (if b \<and> q = p then [m] else []))"
proof -
  obtain t' b where r: "tracker_pr net t m = Ok (t', b)" "tracker_ok t'"
    using service_responses.respond_returns [OF assms(1)] by blast
  then show ?thesis
    using sockets.response_routed [OF assms(2,3), of net t' b] by (auto simp: tracker_pr_def)
qed

definition two_clients :: connector where
  "two_clients =
     (new_connector 5)\<lparr>objects := [0 \<mapsto> accepted_connection 10, 1 \<mapsto> accepted_connection 11],
                       next_object := 2, mConnections := [0, 1]\<rparr>"

definition two_clients_tracker :: "connector tracker" where
  "two_clients_tracker = track_request 1 7 (new_tracker two_clients)"

lemma two_clients_ok: "tracker_ok two_clients_tracker"
  by (auto simp: tracker_ok_def two_clients_tracker_def two_clients_def track_request_def
      new_tracker_def split: if_splits)

lemma response_to_owner_witness:
  "\<exists>t' b. tracker_pr (\<lambda>s. True) two_clients_tracker (msg_with_id 5) = Ok (t', b) \<and> tracker_ok t'
    \<and> mPendingRequests t' = (mPendingRequests two_clients_tracker)(7 := None)"
proof -
  have "mPendingRequests two_clients_tracker (unique_id (msg_with_id 5)) = Some 1"
    by (simp add: two_clients_tracker_def track_request_def msg_with_id_def)
  from response_to_owner [OF two_clients_ok _ this, of "\<lambda>s. True"] show ?thesis
    by (auto simp: msg_with_id_def)
qed

text \<open>
  An indication whose broadcast succeeds has been sent once to every connection and to nobody
  else, and the table of pending requests is untouched.
\<close>

lemma indication_to_all:
  assumes "distinct (mConnections (mConnector t))" and "is_indication m \<noteq> 0"
    and "tracker_pr net t m = Ok (t', True)"
  shows "mPendingRequests t' = mPendingRequests t
    \<and> (\<forall>q. delivered_to q (mConnector t') = delivered_to q (mConnector t)
           @ (if q \<in> set (mConnections (mConnector t)) then [m] else []))"
proof -
  have "distinct (getConnections (mConnector t))" using assms(1) by (simp add: getConnections_def)
  from sockets.indication_broadcast [OF assms(2) this] assms(3) show ?thesis
    by (simp add: tracker_pr_def getConnections_def)
qed

lemma indication_to_all_witness:
  "\<exists>t'. tracker_pr (\<lambda>s. True) two_clients_tracker (unsol_msg RIL_UNSOL_SIGNAL_STRENGTH) = Ok (t', True)
    \<and> (\<forall>q. delivered_to q (mConnector t') = (if q \<in> {0, 1} then [unsol_msg RIL_UNSOL_SIGNAL_STRENGTH] else []))"
proof -
  obtain t' where t': "tracker_pr (\<lambda>s. True) two_clients_tracker (unsol_msg RIL_UNSOL_SIGNAL_STRENGTH)
      = Ok (t', True)"
    by (simp add: tracker_pr_def processResponse_def unsol_msg_def two_clients_tracker_def
        track_request_def new_tracker_def two_clients_def getConnections_def sendMessageToClient_def)
  have "distinct (mConnections (mConnector two_clients_tracker))"
    "is_indication (unsol_msg RIL_UNSOL_SIGNAL_STRENGTH) \<noteq> 0"
    by (simp_all add: two_clients_tracker_def two_clients_def track_request_def new_tracker_def
        unsol_msg_def)
  from indication_to_all [OF this t'] t' show ?thesis
    by (auto simp: delivered_to_def two_clients_tracker_def two_clients_def track_request_def
        new_tracker_def new_connector_def)
qed

text \<open>
  C40: Unique ids are only unique per client, the tracker's table is not: when a second client sends a
  request with an id that is still pending, the answer to the first client's request goes to the
  second one, and the other answer to nobody.
\<close>

lemma unique_id_collision:
  assumes "tracker_ok t" and "p \<in> dom (objects (mConnector t))" and "q \<in> dom (objects (mConnector t))"
    and "p \<noteq> q" and "is_indication m1 = 0" and "is_indication m2 = 0"
    and "unique_id m1 = uid" and "unique_id m2 = uid"
  shows "\<exists>t1 b1. tracker_pr net (track_request q uid (track_request p uid t)) m1 = Ok (t1, b1)
    \<and> delivered_to p (mConnector t1) = delivered_to p (mConnector t)
    \<and> delivered_to q (mConnector t1) = delivered_to q (mConnector t) @ (if b1 then [m1] else [])
    \<and> tracker_pr net t1 m2 = Ok (t1, True)"
proof -
  let ?t = "track_request q uid (track_request p uid t)"
  have conn: "mConnector ?t = mConnector t" and own: "mPendingRequests ?t uid = Some q"
    by (simp_all add: track_request_def)
  obtain k where k: "objects (mConnector t) q = Some k" using assms(3) by blast
  then obtain b c where s: "sendMessageToClient net q m1 (mConnector t) = Ok (b, c)"
    by (cases "net (mCommSocket k)") (auto simp: sendMessageToClient_def)
  let ?t1 = "(?t\<lparr>mPendingRequests := (mPendingRequests ?t)(uid := None)\<rparr>)\<lparr>mConnector := c\<rparr>"
  have r: "tracker_pr net ?t m1 = Ok (?t1, b)"
    using assms(5,7) own s conn by (simp add: tracker_pr_def processResponse_def Let_def)
  have "mPendingRequests ?t1 (unique_id m2) = None" using assms(8) by simp
  then have "tracker_pr net ?t1 m2 = Ok (?t1, True)"
    using assms(6) by (simp add: tracker_pr_def sockets.response_unknown)
  with r sockets.send_delivers [OF s] assms(4) show ?thesis by (intro exI [of _ ?t1] exI [of _ b]) simp
qed

lemma unique_id_collision_witness:
  "\<exists>t1 b1. tracker_pr (\<lambda>s. True) (track_request 1 7 (track_request 0 7 (new_tracker two_clients)))
        (msg_with_id 5) = Ok (t1, b1)
    \<and> delivered_to 0 (mConnector t1) = [] \<and> tracker_pr (\<lambda>s. True) t1 (msg_with_id 6) = Ok (t1, True)"
  using unique_id_collision [of "new_tracker two_clients" 0 1 "msg_with_id 5" "msg_with_id 6" 7 "\<lambda>s. True"]
  by (auto simp: tracker_ok_def new_tracker_def two_clients_def msg_with_id_def delivered_to_def
      new_connector_def)

text \<open>
  Pending requests outlive their connection: an answer to a client whose connection object has been
  deleted is sent through the dangling pointer.
\<close>

lemma answer_after_disconnect:
  assumes "mPendingRequests t (unique_id m) = Some p" and "objects (mConnector t) p = None"
    and "is_indication m = 0"
  shows "tracker_pr net t m = Fault Use_after_free"
  using sockets.response_dangling [OF assms(3,1), of net] assms(2)
  by (auto simp: tracker_pr_def live_connections_def)

lemma answer_after_disconnect_witness:
  "\<exists>c. destroy_connection False 1 two_clients = Ok c
     \<and> tracker_pr (\<lambda>s. True) (two_clients_tracker\<lparr>mConnector := c\<rparr>) (msg_with_id 5) = Fault Use_after_free"
proof -
  obtain c where c: "destroy_connection False 1 two_clients = Ok c" "objects c 1 = None"
    by (simp add: destroy_connection_def two_clients_def)
  have "mPendingRequests (two_clients_tracker\<lparr>mConnector := c\<rparr>) (unique_id (msg_with_id 5)) = Some 1"
    by (simp add: two_clients_tracker_def track_request_def msg_with_id_def)
  from answer_after_disconnect [OF this] c show ?thesis by (simp add: msg_with_id_def)
qed

section \<open>Connections\<close>

text \<open>
  The accept loop of a service whose tracker is registered: it never fails, each socket accepted
  before the first failure becomes one new connection, in order, served by its pump and observed
  by connector and tracker, and the connections that were there are untouched.
\<close>

lemma accept_loop_connections:
  assumes "mObservers c = [Obs_message_tracker]" and "connector_inv c" and "listen_result \<ge> 0"
  shows "\<exists>c'. acceptLoop listen_result socks c = Ok c' \<and> connector_inv c'
    \<and> (let ss = takeWhile (\<lambda>s. s \<ge> 0) socks; n = next_object c
       in mConnections c' = mConnections c @ [n..<n + length ss]
        \<and> (\<forall>i < length ss. objects c' (n + i) = Some (accepted_connection (ss ! i)))
        \<and> (\<forall>p < n. objects c' p = objects c p))"
proof -
  obtain c' where c': "accept_sockets socks c = Ok c'" "accepted_by (takeWhile (\<lambda>s. s \<ge> 0) socks) c c'"
    using accept_sockets_result [OF assms(1)] by blast
  have "acceptLoop listen_result socks c = Ok c'" using assms(3) c'(1) by (simp add: acceptLoop_def)
  with c'(2) accepted_inv [OF c'(2) assms(2)] show ?thesis
    by (auto simp: accepted_by_def Let_def)
qed

definition listening :: connector where
  "listening = registerObserver Obs_message_tracker (new_connector 5)"

lemma accept_loop_connections_witness:
  "\<exists>c'. acceptLoop 0 [10, 11, -1, 12] listening = Ok c' \<and> mConnections c' = [0, 1]
     \<and> objects c' 1 = Some (accepted_connection 11)"
proof -
  have "mObservers listening = [Obs_message_tracker]" "connector_inv listening" "(0::int) \<le> 0"
    by (simp_all add: listening_def registerObserver_def new_connector_def connector_inv_def)
  from accept_loop_connections [OF this, of "[10, 11, -1, 12]"] show ?thesis
    by (auto simp: Let_def listening_def registerObserver_def new_connector_def upt_rec)
qed

text \<open>
  A client that closes its socket takes the service down: the pump of an accepted connection
  deletes the connection, whose destructor joins the very thread it runs on.
\<close>

lemma disconnect_joins_itself:
  assumes "objects (mConnector (upper a)) p = Some (accepted_connection s)"
  shows "pump_turn H p Recv_closed a = Fault Self_join"
  using assms client_gone_self_join [OF assms] by (simp add: pump_turn_def)

definition two_clients_service :: service where
  "two_clients_service = (new_adapter two_clients_tracker)\<lparr>funcs := True\<rparr>"

lemma disconnect_joins_itself_witness:
  "pump_turn sample_h 1 Recv_closed two_clients_service = Fault Self_join"
  by (rule disconnect_joins_itself [of _ _ 11])
    (simp add: two_clients_service_def new_adapter_def two_clients_tracker_def track_request_def
      new_tracker_def two_clients_def)

text \<open>
  A connector that was stopped cannot be started again, and stopping it a second time dereferences
  the thread it has already deleted.
\<close>

lemma stop_is_final:
  assumes "stop_connector r c = Ok (True, c')"
  shows "start_connector sock bnd c' = (False, c') \<and> stop_connector 0 c' = Fault Null_deref"
  using start_after_stop [OF assms, of sock bnd] by (metis prod.collapse)

lemma stop_is_final_witness:
  "\<exists>c c'. unix_start (\<lambda>b. 0) 4 listening = (True, c) \<and> stop_connector 0 c = Ok (True, c')
     \<and> start_connector 5 0 c' = (False, c')"
proof -
  obtain c where c: "unix_start (\<lambda>b. 0) 4 listening = (True, c)" "mIsRunning c" "mThread c"
    by (simp add: unix_start_def start_connector_def listening_def registerObserver_def
        new_connector_def)
  then have "stop_connector 0 c = Ok (True, c\<lparr>mThread := False\<rparr>)" by (simp add: stop_connector_def)
  with c stop_is_final [OF this, of 5 0] show ?thesis by blast
qed

section \<open>Start up\<close>

text \<open>
  \<open>main\<close> with the static configuration: the service runs exactly when the vendor library loads,
  exports \<open>RIL_Init\<close>, and the listening socket of the configured kind is created and bound;
  otherwise the process exits with -1.  A null table from \<open>RIL_Init\<close> goes unnoticed.
\<close>

lemma main_starts:
  "(\<exists>a. service_main h (getConfig tcp) = Ok (Running a)
        \<and> funcs a = ril_init_table h \<and> mObservers (mConnector (upper a)) = [Obs_message_tracker]
        \<and> mIsRunning (mConnector (upper a)))
   \<longleftrightarrow> dlopen_ok h ''librpc-ril.so'' \<and> dlsym_ok h \<and> socket_result h \<ge> 0
       \<and> bind_result h (if tcp then Bind_inet 0 5060 else Bind_unix ''/tmp/uril_sock'') \<ge> 0"
  by (cases tcp)
    (auto simp: service_main_def getConfig_def createClientConnector_def createModemAdapter_def
      init_adapter_def new_adapter_def start_kind_def tcp_start_def unix_start_def
      start_connector_def registerObserver_def new_connector_def new_tracker_def
      UNIX_SOCKET_NAME_def Let_def split: if_splits prod.splits)

section \<open>Safety of the vendor's answers\<close>

text \<open>
  With the tracker above it, the adapter never touches a freed context when the vendor RIL answers
  a token it owes; an answer to a token that is no longer in flight does touch one.
\<close>

lemma owed_answers_safe:
  assumes "ril_run H (tracker_pr net) evs (new_world t) w" and "tracker_ok t"
  shows "(\<forall>p \<in> set (owed w). handleRilResponse H (tracker_pr net) (Some p) e data (adapter w)
            \<noteq> Fault Use_after_free)
    \<and> (\<forall>p. p \<notin> set (owed w) \<union> snd ` set (threads (adapter w)) \<longrightarrow>
          handleRilResponse H (tracker_pr net) (Some p) e data (adapter w) = Fault Use_after_free)"
proof -
  have "set (owed w) \<union> snd ` set (threads (adapter w)) = dom (heap (adapter w))"
    using inv_run [OF assms(1) inv_new] by (auto simp: ril_inv_def tokens_def)
  then show ?thesis
    using service_responses.owed_no_uaf [OF assms]
    by (auto simp: no_uaf_def intro!: not_in_flight_uaf)
qed

lemma owed_answers_safe_witness:
  "\<exists>w. ril_run sample_h (tracker_pr (\<lambda>s. True)) [Ev_request Op_scanNetworkV1 7 1]
         (new_world two_clients_tracker) w
     \<and> owed w = [0]
     \<and> handleRilResponse sample_h (tracker_pr (\<lambda>s. True)) (Some 0) RIL_E_SUCCESS Data_null (adapter w)
       \<noteq> Fault Use_after_free
     \<and> handleRilResponse sample_h (tracker_pr (\<lambda>s. True)) (Some 9) RIL_E_SUCCESS Data_null (adapter w)
       = Fault Use_after_free"
proof -
  let ?w0 = "new_world two_clients_tracker"
  obtain a1 where a1: "android_call sample_h Op_scanNetworkV1 [] 7 1 (adapter ?w0) = Ok (True, a1)"
    "sent_tokens (adapter ?w0) a1 = [0]" "threads a1 = []"
    by (simp add: scanNetworkV1_def send_request_Ok_iff new_world_def new_adapter_def sent_tokens_def)
  let ?v = "?w0\<lparr>adapter := a1, owed := [0], radio := [], accepted := [(7, 1)]\<rparr>"
  have "ril_step sample_h (tracker_pr (\<lambda>s. True)) (Ev_request Op_scanNetworkV1 7 1) ?w0 ?v"
    using ril_step.request [OF a1(1)] a1(2) by (simp add: new_world_def)
  from run_snoc [OF run_nil this] have
    run: "ril_run sample_h (tracker_pr (\<lambda>s. True)) [Ev_request Op_scanNetworkV1 7 1] ?w0 ?v" by simp
  from owed_answers_safe [OF run two_clients_ok, of RIL_E_SUCCESS Data_null] run a1(3)
  show ?thesis by (intro exI [of _ ?v]) simp
qed

section \<open>From the socket to the vendor RIL and back\<close>

text \<open>
  A request that a connected client sends and the service passes to the vendor RIL, once answered,
  comes back to that client alone: either the answer has freed the context and put one response
  with the request's unique id and SIM id on that connection (unless the send failed), or one
  follow-up is to be sent and nobody has been told anything.
\<close>

lemma request_answered_to_sender:
  assumes "objects (mConnector (upper a)) p = Some (accepted_connection s)"
    and "msg_wf m" and "padding_wf pad" and "map_of op_table (msg_id m) = Some op"
    and "pump_turn H p (Recv_bytes (msg_image pad m)) a = Ok (True, a1)"
    and "next_token a1 \<noteq> next_token a"
    and "handleRilResponse H (tracker_pr net) (Some (next_token a)) e data a1 = Ok (b, a2)"
  shows "(\<exists>r. heap a2 (next_token a) = None \<and> is_indication r = 0
        \<and> unique_id r = unique_id m \<and> sim_id r = sim_id m
        \<and> mPendingRequests (upper a2) (unique_id m) = None
        \<and> (\<forall>q. delivered_to q (mConnector (upper a2)) = delivered_to q (mConnector (upper a))
                @ (if b \<and> q = p then [r] else [])))
    \<or> (\<exists>ctx. heap a2 (next_token a) = Some ctx \<and> ctx_ok ctx
        \<and> threads a2 = threads a @ [(rilReqId ctx, next_token a)]
        \<and> mConnector (upper a2) = mConnector (upper a))"
  using answer_to_sender [OF assms] by blast

lemma request_answered_to_sender_witness:
  "\<exists>a1 a2 r. pump_turn sample_h 1 (Recv_bytes (msg_image zero_padding (msg_with_id URIL_NW_SET_SCREEN_REQ_V01)))
        two_clients_service = Ok (True, a1)
    \<and> handleRilResponse sample_h (tracker_pr (\<lambda>s. True)) (Some 0) RIL_E_SUCCESS Data_null a1 = Ok (True, a2)
    \<and> delivered_to 1 (mConnector (upper a2)) = [r] \<and> delivered_to 0 (mConnector (upper a2)) = []
    \<and> unique_id r = 7"
proof -
  let ?m = "msg_with_id URIL_NW_SET_SCREEN_REQ_V01" and ?a = two_clients_service
  have wf: "msg_wf ?m" "padding_wf zero_padding"
    by (simp_all add: msg_wf_def msg_with_id_def padding_wf_def zero_padding_def)
  have op: "map_of op_table (msg_id ?m) = Some Op_setScreenStateV1"
    by (simp add: op_table_def code_simps msg_with_id_def)
  have conn: "objects (mConnector (upper ?a)) 1 = Some (accepted_connection 11)"
    by (simp add: two_clients_service_def new_adapter_def two_clients_tracker_def track_request_def
        new_tracker_def two_clients_def)
  obtain a1 where a1: "pump_turn sample_h 1 (Recv_bytes (msg_image zero_padding ?m)) ?a = Ok (True, a1)"
    "heap a1 0 = Some (new_context RIL_REQUEST_SCREEN_STATE 7 1)" "next_token a1 = 1"
    "mConnector (upper a1) = two_clients" "mPendingRequests (upper a1) 7 = Some 1"
    unfolding pump_turn_accepted [OF conn] received_msg_image [OF wf]
    unfolding service_dispatch_table op
    by (simp add: setScreenStateV1_def send_request_def Let_def
        makeTokenForMessage_def sendToVendorRil_def two_clients_service_def new_adapter_def
        track_request_def msg_with_id_def two_clients_tracker_def new_tracker_def)
  have nt: "next_token ?a = 0" by (simp add: two_clients_service_def new_adapter_def)
  obtain a2 where a2: "handleRilResponse sample_h (tracker_pr (\<lambda>s. True)) (Some 0) RIL_E_SUCCESS Data_null a1
      = Ok (True, a2)" "heap a2 0 = None"
    using a1(2,4,5)
    by (simp add: handleRilResponse_def Let_def with_rsp_def new_context_def
        handleRilSetScreenStateResponseV1_def complete_with_def put_rsp_def fresh_rsp_def
        msg_of_rsp_def tracker_pr_def processResponse_def sendMessageToClient_def two_clients_def)
  have empty: "delivered_to q (mConnector (upper ?a)) = []" for q
    by (simp add: two_clients_service_def new_adapter_def two_clients_tracker_def track_request_def
        new_tracker_def two_clients_def delivered_to_def new_connector_def)
  have ne: "next_token a1 \<noteq> next_token ?a" and gone: "heap a2 (next_token ?a) = None"
    using a1(3) a2(2) nt by simp_all
  have "handleRilResponse sample_h (tracker_pr (\<lambda>s. True)) (Some (next_token ?a)) RIL_E_SUCCESS
      Data_null a1 = Ok (True, a2)"
    using a2(1) nt by simp
  from request_answered_to_sender [OF conn wf op a1(1) ne this] gone
  have "\<exists>r. unique_id r = unique_id ?m
    \<and> (\<forall>q. delivered_to q (mConnector (upper a2)) = delivered_to q (mConnector (upper ?a))
            @ (if True \<and> q = 1 then [r] else []))"
    by (elim disjE exE conjE) (intro exI conjI, assumption+, simp)
  then obtain r where r: "unique_id r = unique_id ?m"
    "\<forall>q. delivered_to q (mConnector (upper a2)) = delivered_to q (mConnector (upper ?a))
            @ (if True \<and> q = 1 then [r] else [])"
    by blast
  have "unique_id ?m = 7" by (simp add: msg_with_id_def)
  with r a1(1) a2(1) show ?thesis
    by (intro exI [of _ a1] exI [of _ a2] exI [of _ r]) (simp add: empty)
qed

end
