(* ===== verification/System_Properties.thy ===== *)
theory System_Properties
  imports Service_System Service_Properties
begin

text \<open>
  What holds of the running service, from the start of \<open>main\<close> on and for all its clients at once.
\<close>

section \<open>No freed object is used\<close>


section \<open>A sample run\<close>







section \<open>Memory safety of the service\<close>



section \<open>Every client gets its answers\<close>



end
