(* ===== verification/Osal.thy ===== *)
theory Osal
  imports Uril_Prelude
begin

text \<open>
  The operating system layer of the client (\<open>client/src/osal\<close>): the deadline that the timed
  waits compute, and the mutex and condition objects, whose default initialisers point at one
  static object each.  The results of \<open>malloc\<close> and of the pthread calls are arguments; of the
  mutexes of the pthread library the model keeps which exist and which thread holds each.
\<close>

section \<open>Deadlines\<close>

record timeval =
  tv_sec :: int
  tv_usec :: int

record timespec =
  ts_sec :: int
  ts_nsec :: int

text \<open>\<open>ms / 1000\<close> and \<open>(ms % 1000) * 1000000\<close> are computed in 32 bits, the sums in \<open>long\<close>.\<close>

definition deadline :: "timeval \<Rightarrow> u32 \<Rightarrow> timespec" where
  "deadline tp ms =
     \<lparr>ts_sec = tv_sec tp + uint (ms div 1000),
      ts_nsec = tv_usec tp + uint ((ms mod 1000) * 1000000)\<rparr>"

definition timeval_wf :: "timeval \<Rightarrow> bool" where
  "timeval_wf tp \<longleftrightarrow> 0 \<le> tv_usec tp \<and> tv_usec tp < 1000000"

definition timespec_wf :: "timespec \<Rightarrow> bool" where
  "timespec_wf ts \<longleftrightarrow> 0 \<le> ts_nsec ts \<and> ts_nsec ts < 1000000000"

definition timeval_ns :: "timeval \<Rightarrow> int" where
  "timeval_ns tp = 1000000000 * tv_sec tp + 1000 * tv_usec tp"

definition timespec_ns :: "timespec \<Rightarrow> int" where
  "timespec_ns ts = 1000000000 * ts_sec ts + ts_nsec ts"

lemma uint_ms_part: "uint ((ms mod 1000) * 1000000 :: u32) = (uint ms mod 1000) * 1000000"
proof -
  have "uint (ms mod 1000 :: u32) = uint ms mod 1000" by (simp add: uint_mod)
  moreover have "uint ms mod 1000 < 1000" "0 \<le> uint ms mod 1000" by auto
  ultimately show ?thesis
    by (simp add: uint_word_ariths(3) mod_pos_pos_trivial)
qed

lemma uint_s_part: "uint (ms div 1000 :: u32) = uint ms div 1000"
  by (simp add: uint_div)

lemma deadline_nsec: "timeval_wf tp \<Longrightarrow> timespec_wf (deadline tp ms)"
proof -
  assume "timeval_wf tp"
  moreover have "0 \<le> uint ms mod 1000" "uint ms mod 1000 \<le> 999"
    using pos_mod_bound [of 1000 "uint ms"] by auto
  ultimately show ?thesis
    by (simp add: timespec_wf_def timeval_wf_def deadline_def uint_ms_part)
qed

lemma deadline_exact:
  "timespec_ns (deadline tp ms) = timeval_ns tp + 1000000 * uint ms - 999 * tv_usec tp"
proof -
  have "1000000000 * (uint ms div 1000) + uint ms mod 1000 * 1000000 = 1000000 * uint ms"
    using mult_div_mod_eq [of 1000 "uint ms"] by linarith
  then show ?thesis
    by (simp add: timespec_ns_def timeval_ns_def deadline_def uint_ms_part uint_s_part)
qed

section \<open>Mutexes and conditions\<close>

text \<open>The object a mutex or condition points at: the static default, one on the heap, or null.\<close>

datatype osal_object = Static_default | On_heap | Null_object

definition osal_init :: "bool \<Rightarrow> int \<Rightarrow> int \<times> osal_object" where
  "osal_init malloc_ok init_result =
     (if malloc_ok then (init_result, On_heap) else (-1, Null_object))"

text \<open>
  \<open>destroy\<close> passes the object to the pthread call and then to \<open>free\<close>.  The static object is not
  one \<open>malloc\<close> returned, so \<open>free\<close> of it is a write outside the heap's blocks.
\<close>

definition osal_destroy :: "int \<Rightarrow> osal_object \<Rightarrow> int outcome" where
  "osal_destroy destroy_result obj =
     (case obj of
        On_heap \<Rightarrow> Ok destroy_result
      | Static_default \<Rightarrow> Fault Out_of_bounds_write
      | Null_object \<Rightarrow> Fault Null_deref)"

section \<open>Locking\<close>

text \<open>
  The mutexes by their address, each with the thread that holds it.  A mutex of the default kind
  makes its own holder wait, too.
\<close>

type_synonym mutex_pool = "nat \<rightharpoonup> nat option"

record osal_mutex_t =
  mutex :: "nat option"

definition s_default_mutex :: nat where
  "s_default_mutex = 0"

text \<open>Every mutex that is initialised with \<open>UNIX_MUTEX\<close> points at the one static mutex.\<close>

definition UNIX_MUTEX :: osal_mutex_t where
  "UNIX_MUTEX = \<lparr>mutex = Some s_default_mutex\<rparr>"

definition static_pool :: mutex_pool where
  "static_pool = [s_default_mutex \<mapsto> None]"

definition EBUSY :: int where "EBUSY = 16"
definition ETIMEDOUT :: int where "ETIMEDOUT = 110"

definition timespec_reached :: "timespec \<Rightarrow> timespec \<Rightarrow> bool" where
  "timespec_reached dl now \<longleftrightarrow> timespec_ns dl \<le> timespec_ns now"

text \<open>
  A call of the pthread library on a mutex: the state of the mutex decides its result and its new
  state; \<open>None\<close> is a call that waits.
\<close>

definition on_mutex ::
    "(nat option \<Rightarrow> (int \<times> nat option) option) \<Rightarrow> osal_mutex_t \<Rightarrow> mutex_pool
     \<Rightarrow> (int \<times> mutex_pool) option outcome" where
  "on_mutex f m pool =
     (case mutex m of
        None \<Rightarrow> Fault Null_deref
      | Some p \<Rightarrow>
          (case pool p of
             None \<Rightarrow> Fault Use_after_free
           | Some held \<Rightarrow> Ok (map_option (\<lambda>(r, held'). (r, pool(p \<mapsto> held'))) (f held))))"

definition osal_mutex_unix_lock ::
    "nat \<Rightarrow> osal_mutex_t \<Rightarrow> mutex_pool \<Rightarrow> (int \<times> mutex_pool) option outcome" where
  "osal_mutex_unix_lock t = on_mutex (\<lambda>held. if held = None then Some (0, Some t) else None)"

definition osal_mutex_unix_timedlock ::
    "nat \<Rightarrow> timeval \<Rightarrow> timespec \<Rightarrow> u32 \<Rightarrow> osal_mutex_t \<Rightarrow> mutex_pool
     \<Rightarrow> (int \<times> mutex_pool) option outcome" where
  "osal_mutex_unix_timedlock t tp now ms = on_mutex (\<lambda>held.
     if held = None then Some (0, Some t)
     else if timespec_reached (deadline tp ms) now then Some (ETIMEDOUT, held) else None)"

definition osal_mutex_unix_trylock ::
    "nat \<Rightarrow> osal_mutex_t \<Rightarrow> mutex_pool \<Rightarrow> (int \<times> mutex_pool) option outcome" where
  "osal_mutex_unix_trylock t = on_mutex (\<lambda>held. Some (if held = None then (0, Some t) else (EBUSY, held)))"

text \<open>An unlock frees the mutex, whoever holds it.\<close>

definition osal_mutex_unix_unlock ::
    "osal_mutex_t \<Rightarrow> mutex_pool \<Rightarrow> (int \<times> mutex_pool) option outcome" where
  "osal_mutex_unix_unlock = on_mutex (\<lambda>held. Some (0, None))"

text \<open>\<open>init\<close> points the object at a new mutex, \<open>destroy\<close> gives the mutex back to the heap.\<close>

definition osal_mutex_unix_init ::
    "nat option \<Rightarrow> int \<Rightarrow> osal_mutex_t \<Rightarrow> mutex_pool \<Rightarrow> int \<times> osal_mutex_t \<times> mutex_pool" where
  "osal_mutex_unix_init malloc_result init_result m pool =
     (case malloc_result of
        None \<Rightarrow> (-1, m\<lparr>mutex := None\<rparr>, pool)
      | Some p \<Rightarrow> (init_result, m\<lparr>mutex := Some p\<rparr>, pool(p \<mapsto> None)))"

definition osal_mutex_unix_destroy ::
    "osal_mutex_t \<Rightarrow> mutex_pool \<Rightarrow> (int \<times> mutex_pool) outcome" where
  "osal_mutex_unix_destroy m pool =
     (case mutex m of
        None \<Rightarrow> Fault Null_deref
      | Some p \<Rightarrow>
          (case pool p of
             None \<Rightarrow> Fault Use_after_free
           | Some held \<Rightarrow>
               if p = s_default_mutex then Fault Out_of_bounds_write
               else Ok (if held = None then 0 else EBUSY, pool(p := None))))"

lemma lock_at:
  "mutex m = Some p \<Longrightarrow> pool p = Some held \<Longrightarrow> osal_mutex_unix_lock t m pool =
     Ok (if held = None then Some (0, pool(p \<mapsto> Some t)) else None)"
  by (simp add: osal_mutex_unix_lock_def on_mutex_def)

lemma unlock_at:
  "mutex m = Some p \<Longrightarrow> pool p = Some held \<Longrightarrow>
     osal_mutex_unix_unlock m pool = Ok (Some (0, pool(p \<mapsto> None)))"
  by (simp add: osal_mutex_unix_unlock_def on_mutex_def)

lemma destroy_at:
  "mutex m = Some p \<Longrightarrow> pool p = Some held \<Longrightarrow> p \<noteq> s_default_mutex \<Longrightarrow>
     osal_mutex_unix_destroy m pool = Ok (if held = None then 0 else EBUSY, pool(p := None))"
  by (simp add: osal_mutex_unix_destroy_def)

lemma mutex_UNIX_MUTEX [simp]: "mutex UNIX_MUTEX = Some s_default_mutex"
  by (simp add: UNIX_MUTEX_def)

lemmas lock_default = lock_at [OF mutex_UNIX_MUTEX]
lemmas unlock_default = unlock_at [OF mutex_UNIX_MUTEX]

text \<open>
  What the client relies on: the operations it calls through the pointers of \<open>osal_mutex_t\<close>, and the
  thread that holds the mutex, if there is a mutex.
\<close>

locale osal_mutex_ops =
  fixes lock :: "nat \<Rightarrow> 'm \<Rightarrow> 'p \<Rightarrow> (int \<times> 'p) option outcome"
    and unlock :: "'m \<Rightarrow> 'p \<Rightarrow> (int \<times> 'p) option outcome"
    and holder :: "'m \<Rightarrow> 'p \<Rightarrow> nat option option"
  assumes lock_free: "holder m p = Some None \<Longrightarrow> \<exists>p'. lock t m p = Ok (Some (0, p')) \<and> holder m p' = Some (Some t)"
    and lock_held: "holder m p = Some (Some u) \<Longrightarrow> lock t m p = Ok None"
    and unlock_frees: "holder m p = Some h \<Longrightarrow> \<exists>p'. unlock m p = Ok (Some (0, p')) \<and> holder m p' = Some None"
begin

lemma lock_excludes:
  assumes "lock t m p = Ok (Some (r, p'))" and "holder m p = Some h"
  shows "lock u m p' = Ok None"
  using assms lock_free [of m p t] lock_held by (cases h) auto

lemma unlock_admits:
  assumes "lock t m p = Ok (Some (r, p'))" and "holder m p = Some h"
  shows "\<exists>p1 p2. unlock m p' = Ok (Some (0, p1)) \<and> lock u m p1 = Ok (Some (0, p2)) \<and> holder m p2 = Some (Some u)"
proof -
  have "h = None" using assms lock_held by (cases h) auto
  then have "holder m p' = Some (Some t)" using assms lock_free [of m p t] by auto
  then show ?thesis using unlock_frees [of m p'] lock_free by blast
qed

end

definition unix_holder :: "osal_mutex_t \<Rightarrow> mutex_pool \<Rightarrow> nat option option" where
  "unix_holder m pool = Option.bind (mutex m) pool"

interpretation unix_mutex: osal_mutex_ops osal_mutex_unix_lock osal_mutex_unix_unlock unix_holder
  by unfold_locales (auto simp: unix_holder_def bind_eq_Some_conv lock_at unlock_at)

text \<open>A thread that holds a mutex with the default initialiser cannot lock any other such mutex.\<close>

lemma default_mutexes_shared:
  "osal_mutex_unix_lock t UNIX_MUTEX pool = Ok (Some (0, pool')) \<Longrightarrow> pool s_default_mutex = Some held
   \<Longrightarrow> osal_mutex_unix_lock t' UNIX_MUTEX pool' = Ok None"
  using unix_mutex.lock_excludes [of t UNIX_MUTEX pool 0 pool' held t'] by (simp add: unix_holder_def)

section \<open>Conditions\<close>

text \<open>
  The conditions by their address, each with the threads that wait for it.  \<open>pick\<close> is the thread
  that a signal wakes.
\<close>

type_synonym cond_pool = "nat \<rightharpoonup> nat list"

record osal_condition_t =
  condition_ptr :: "nat option"

definition s_default_condition :: nat where
  "s_default_condition = 0"

definition UNIX_CONDITION :: osal_condition_t where
  "UNIX_CONDITION = \<lparr>condition_ptr = Some s_default_condition\<rparr>"

definition on_cond ::
    "(nat list \<Rightarrow> nat list option) \<Rightarrow> osal_condition_t \<Rightarrow> cond_pool \<Rightarrow> cond_pool outcome" where
  "on_cond f c conds =
     (case condition_ptr c of
        None \<Rightarrow> Fault Null_deref
      | Some p \<Rightarrow>
          (case conds p of
             None \<Rightarrow> Fault Use_after_free
           | Some ws \<Rightarrow> Ok (conds(p := f ws))))"

definition osal_condition_unix_init ::
    "nat option \<Rightarrow> int \<Rightarrow> osal_condition_t \<Rightarrow> cond_pool \<Rightarrow> int \<times> osal_condition_t \<times> cond_pool" where
  "osal_condition_unix_init malloc_result init_result c conds =
     (case malloc_result of
        None \<Rightarrow> (-1, c\<lparr>condition_ptr := None\<rparr>, conds)
      | Some p \<Rightarrow> (init_result, c\<lparr>condition_ptr := Some p\<rparr>, conds(p \<mapsto> [])))"

definition osal_condition_unix_destroy ::
    "osal_condition_t \<Rightarrow> cond_pool \<Rightarrow> (int \<times> cond_pool) outcome" where
  "osal_condition_unix_destroy c conds =
     (if condition_ptr c = Some s_default_condition then Fault Out_of_bounds_write
      else map_ok (\<lambda>conds'. (0, conds')) (on_cond (\<lambda>ws. None) c conds))"

definition osal_condition_unix_signal ::
    "(nat list \<Rightarrow> nat) \<Rightarrow> osal_condition_t \<Rightarrow> cond_pool \<Rightarrow> (int \<times> cond_pool) outcome" where
  "osal_condition_unix_signal pick c conds =
     map_ok (\<lambda>conds'. (0, conds')) (on_cond (\<lambda>ws. Some (if ws = [] then [] else remove1 (pick ws) ws)) c conds)"

definition osal_condition_unix_broadcast ::
    "osal_condition_t \<Rightarrow> cond_pool \<Rightarrow> (int \<times> cond_pool) outcome" where
  "osal_condition_unix_broadcast c conds = map_ok (\<lambda>conds'. (0, conds')) (on_cond (\<lambda>ws. Some []) c conds)"

text \<open>
  A wait has two parts: the thread becomes a waiter and frees the mutex in one step; when it has been
  woken, when the wait ends by itself or when its deadline is over, it locks the mutex again.
\<close>

datatype wake = Woken | Spurious | Timed_out

definition wait_begins ::
    "nat \<Rightarrow> osal_condition_t \<Rightarrow> osal_mutex_t \<Rightarrow> cond_pool \<times> mutex_pool
     \<Rightarrow> (cond_pool \<times> mutex_pool) option outcome" where
  "wait_begins t c m = (\<lambda>(conds, pool).
     bind_outcome (on_cond (\<lambda>ws. Some (ws @ [t])) c conds) (\<lambda>conds'.
       map_ok (map_option (\<lambda>(r, pool'). (conds', pool'))) (osal_mutex_unix_unlock m pool)))"

definition is_waiting :: "nat \<Rightarrow> osal_condition_t \<Rightarrow> cond_pool \<Rightarrow> bool" where
  "is_waiting t c conds \<longleftrightarrow>
     (case condition_ptr c of
        None \<Rightarrow> False
      | Some p \<Rightarrow> (case conds p of None \<Rightarrow> False | Some ws \<Rightarrow> t \<in> set ws))"

definition wait_ends ::
    "nat \<Rightarrow> wake \<Rightarrow> timespec \<Rightarrow> timespec \<Rightarrow> osal_condition_t \<Rightarrow> osal_mutex_t
     \<Rightarrow> cond_pool \<times> mutex_pool \<Rightarrow> (int \<times> cond_pool \<times> mutex_pool) option outcome" where
  "wait_ends t why dl now c m = (\<lambda>(conds, pool).
     bind_outcome (on_cond (\<lambda>ws. Some (removeAll t ws)) c conds) (\<lambda>conds'.
       if why = Woken \<and> is_waiting t c conds \<or> why = Timed_out \<and> \<not> timespec_reached dl now then Ok None
       else map_ok (map_option (\<lambda>(r, pool'). (if why = Timed_out then ETIMEDOUT else r, conds', pool')))
              (osal_mutex_unix_lock t m pool)))"

lemma cond_destroy_at:
  "condition_ptr c = Some p \<Longrightarrow> conds p = Some ws \<Longrightarrow> p \<noteq> s_default_condition \<Longrightarrow>
     osal_condition_unix_destroy c conds = Ok (0, conds(p := None))"
  by (simp add: osal_condition_unix_destroy_def on_cond_def)

lemma signal_at:
  "condition_ptr c = Some p \<Longrightarrow> conds p = Some ws \<Longrightarrow>
     osal_condition_unix_signal pick c conds = Ok (0, conds(p \<mapsto> if ws = [] then [] else remove1 (pick ws) ws))"
  by (simp add: osal_condition_unix_signal_def on_cond_def)

lemma wait_begins_at:
  "condition_ptr c = Some p \<Longrightarrow> conds p = Some ws \<Longrightarrow> mutex m = Some q \<Longrightarrow> pool q = Some held \<Longrightarrow>
     wait_begins t c m (conds, pool) = Ok (Some (conds(p \<mapsto> ws @ [t]), pool(q \<mapsto> None)))"
  by (simp add: wait_begins_def on_cond_def unlock_at)

lemma wait_ends_at:
  "condition_ptr c = Some p \<Longrightarrow> conds p = Some ws \<Longrightarrow> mutex m = Some q \<Longrightarrow> pool q = Some held \<Longrightarrow>
     wait_ends t why dl now c m (conds, pool) =
       Ok (if why = Woken \<and> t \<in> set ws \<or> why = Timed_out \<and> \<not> timespec_reached dl now \<or> held \<noteq> None then None
           else Some (if why = Timed_out then ETIMEDOUT else 0, conds(p \<mapsto> removeAll t ws), pool(q \<mapsto> Some t)))"
  by (simp add: wait_ends_def on_cond_def is_waiting_def lock_at)

lemmas osal_at = lock_at unlock_at destroy_at cond_destroy_at signal_at wait_begins_at wait_ends_at

end
