(* ===== verification/Service_Connector.thy ===== *)
theory Service_Connector
  imports Uril_Protocol
begin

text \<open>
  The client's connection to the service
  (\<open>client/src/service_connector/unix_socket_service_connector.c\<close>): connect with its error
  branches, disconnect, send, and the receive routine that runs on the connector's thread.

  The contexts the connector points at live on a heap; the results of the system calls are
  arguments.
\<close>

section \<open>State\<close>

record unix_socket_connector_ctx_t =
  sock_fd :: int
  has_thread :: bool

record service_connector_t =
  ctx :: "nat option"
  callbacks_set :: bool
  ctxs :: "nat \<rightharpoonup> unix_socket_connector_ctx_t"
  next_ctx :: nat
  open_fds :: "int set"
  wire :: "(int \<times> uril_protocol_msg_t) list"

definition unix_service_connector_create :: service_connector_t where
  "unix_service_connector_create =
     \<lparr>ctx = None, callbacks_set = False, ctxs = Map.empty, next_ctx = 0, open_fds = {}, wire = []\<rparr>"

text \<open>The results of the calls of one connect: the socket, and whether each later call succeeds.\<close>

record connect_env =
  ce_sock :: int
  ce_malloc :: bool
  ce_connect :: bool
  ce_setsockopt :: bool
  ce_thread :: bool

section \<open>Operations\<close>

definition free_ctx :: "nat \<Rightarrow> int \<Rightarrow> service_connector_t \<Rightarrow> service_connector_t" where
  "free_ctx p fd s = s\<lparr>ctxs := (ctxs s)(p := None), open_fds := open_fds s - {fd}\<rparr>"

text \<open>The error branches free the context that \<open>connector->ctx\<close> still points at.\<close>

definition connect_routine :: "connect_env \<Rightarrow> service_connector_t \<Rightarrow> int \<times> service_connector_t" where
  "connect_routine env s =
     (if ce_sock env < 0 then (-1, s)
      else
        let fd = ce_sock env; s0 = s\<lparr>open_fds := insert fd (open_fds s)\<rparr>
        in if \<not> ce_malloc env then (-1, s0\<lparr>open_fds := open_fds s0 - {fd}\<rparr>)
           else
             let p = next_ctx s0;
                 s1 = s0\<lparr>ctxs := (ctxs s0)(p \<mapsto> \<lparr>sock_fd = fd, has_thread = False\<rparr>),
                         next_ctx := Suc p, ctx := Some p, callbacks_set := True\<rparr>
             in if \<not> ce_connect env then (-1, free_ctx p fd s1)
                else if \<not> ce_setsockopt env then (-1, free_ctx p fd s1)
                else if \<not> ce_thread env then (-1, free_ctx p fd s1)
                else (0, s1\<lparr>ctxs := (ctxs s1)(p \<mapsto> \<lparr>sock_fd = fd, has_thread = True\<rparr>)\<rparr>))"

definition deref_ctx ::
    "service_connector_t \<Rightarrow> (nat \<times> unix_socket_connector_ctx_t) outcome" where
  "deref_ctx s =
     (case ctx s of
        None \<Rightarrow> Fault Assert_failed
      | Some p \<Rightarrow> (case ctxs s p of None \<Rightarrow> Fault Use_after_free | Some k \<Rightarrow> Ok (p, k)))"

definition disconnect_routine :: "service_connector_t \<Rightarrow> (int \<times> service_connector_t) outcome" where
  "disconnect_routine s =
     map_ok (\<lambda>(p, k).
        if sock_fd k \<ge> 0
        then (0, (free_ctx p (sock_fd k) s)\<lparr>ctx := None, callbacks_set := False\<rparr>)
        else (-1, s)) (deref_ctx s)"

definition send_routine ::
    "(int \<Rightarrow> bool) \<Rightarrow> uril_protocol_msg_t \<Rightarrow> service_connector_t \<Rightarrow> (int \<times> service_connector_t) outcome"
  where
  "send_routine net m s =
     map_ok (\<lambda>(p, k).
        if net (sock_fd k) then (0, s\<lparr>wire := wire s @ [(sock_fd k, m)]\<rparr>) else (-1, s)) (deref_ctx s)"

text \<open>
  \<open>receive_routine\<close>: the results of \<open>recv\<close> one after the other, and the calls of \<open>on_receive\<close>
  (the length and the bytes of the message buffer, which was filled with \<open>0xff\<close>) and of
  \<open>on_disconnect\<close> it makes.
\<close>

datatype client_recv = Crecv_error | Crecv_closed | Crecv_bytes "u8 list"
datatype upcall = On_receive nat "u8 list" | On_disconnect u32

fun receive_routine :: "client_recv list \<Rightarrow> upcall list" where
  "receive_routine [] = []"
| "receive_routine (Crecv_error # rs) = []"
| "receive_routine (Crecv_closed # rs) = [On_disconnect (-1)]"
| "receive_routine (Crecv_bytes bs # rs) =
     On_receive (length bs) (overlay bs (replicate MSG_SIZE 0xff)) # receive_routine rs"

section \<open>Connected and dangling connectors\<close>

text \<open>Connected: the context is live, its socket open and its thread running.\<close>

definition connected :: "service_connector_t \<Rightarrow> bool" where
  "connected s \<longleftrightarrow>
     (\<exists>p k. ctx s = Some p \<and> ctxs s p = Some k \<and> sock_fd k \<ge> 0 \<and> sock_fd k \<in> open_fds s
        \<and> has_thread k) \<and> callbacks_set s"

definition ctxs_wf :: "service_connector_t \<Rightarrow> bool" where
  "ctxs_wf s \<longleftrightarrow> (\<forall>p \<in> dom (ctxs s). p < next_ctx s)"

lemma connect_succeeds_iff:
  "fst (connect_routine env s) = 0 \<longleftrightarrow>
     ce_sock env \<ge> 0 \<and> ce_malloc env \<and> ce_connect env \<and> ce_setsockopt env \<and> ce_thread env"
  by (auto simp: connect_routine_def Let_def)

lemma connect_connected:
  "connect_routine env s = (0, s') \<Longrightarrow> connected s'"
  by (auto simp: connect_routine_def Let_def connected_def split: if_splits)

lemma connect_failure_effect:
  assumes "connect_routine env s = (r, s')" and "r \<noteq> 0" and "ctxs_wf s"
  shows "ctxs s' = ctxs s \<and> open_fds s' = open_fds s - {ce_sock env} \<or> ce_sock env < 0 \<and> s' = s"
proof -
  have "ctxs s (next_ctx s) = None" using assms(3) by (force simp: ctxs_wf_def)
  with assms(1,2) show ?thesis
    by (auto simp: connect_routine_def Let_def free_ctx_def fun_upd_idem split: if_splits)
qed

text \<open>After a connect that got as far as its context and failed, the connector dangles.\<close>

lemma connect_failure_dangles:
  assumes "connect_routine env s = (r, s')" and "r \<noteq> 0" and "ce_sock env \<ge> 0" and "ce_malloc env"
  shows "send_routine net m s' = Fault Use_after_free \<and> disconnect_routine s' = Fault Use_after_free"
  using assms
  by (auto simp: connect_routine_def Let_def free_ctx_def send_routine_def disconnect_routine_def
      deref_ctx_def split: if_splits)

lemma send_connected:
  assumes "connected s"
  shows "\<exists>fd \<in> open_fds s. send_routine net m s =
     Ok (if net fd then (0, s\<lparr>wire := wire s @ [(fd, m)]\<rparr>) else (-1, s))"
  using assms by (auto simp: connected_def send_routine_def deref_ctx_def)

lemma disconnect_connected:
  assumes "connected s"
  shows "\<exists>s'. disconnect_routine s = Ok (0, s') \<and> ctx s' = None \<and> \<not> callbacks_set s'
     \<and> send_routine net m s' = Fault Assert_failed"
  using assms by (auto simp: connected_def disconnect_routine_def send_routine_def deref_ctx_def free_ctx_def)

end
