(* ===== verification/Uril_Client.thy ===== *)
theory Uril_Client
  imports Osal Service_Connector
begin

text \<open>
  The client library (\<open>client/src/uril_client.c\<close>): its context with the table of pending
  operations, the receive callbacks that run on the connector's thread, and the functions of
  the interface.

  The connector is an argument (\<open>send\<close>, \<open>connect\<close>); what is proved rests on the locale
  \<open>service_link\<close>, which the Unix socket connector provides.  The results of the mutex calls are
  the record \<open>locks\<close>.  A synchronous command is split where the receive thread can run: the call
  up to the wait, the check of the condition, and the return.
\<close>

section \<open>State\<close>

definition URIL_MAX_PENDING_OPS :: nat where
  "URIL_MAX_PENDING_OPS = 16"

definition URIL_CONNECT_ATTEMPTS_COUNT :: nat where
  "URIL_CONNECT_ATTEMPTS_COUNT = 20"

text \<open>
  \<open>client_data\<close> is null, a pointer of the caller, or the \<open>async_params\<close> in the stack frame of
  a synchronous command; a callback is one of the caller or \<open>async_cb\<close>.
\<close>

datatype client_ptr = Cd_null | Cd_user nat | Cd_frame nat
datatype uril_client_async_cb = Cb_user nat | Cb_async_cb

record uril_cli_pending_op_t =
  busy :: u8
  op_unique_id :: u32
  client_data :: client_ptr
  async_resp_cb :: "uril_client_async_cb option"

record async_params =
  success :: bool
  condition :: bool
  resp :: "u8 list"
  resp_len :: nat
  waiting_op :: bool

text \<open>The calls of the caller's functions, as a history.\<close>

datatype user_call =
    Resp_call nat u32 u8 u32 "u8 list" client_ptr
  | Ind_call nat u32 u8 u32

record 's client =
  handle :: u32
  initialized :: u8
  ind_cb :: "nat option"
  default_async_cb :: "uril_client_async_cb option"
  pending_ops :: "uril_cli_pending_op_t list"
  s_unique_handle :: u32
  s_unique_msg_id :: u32
  frames :: "nat \<rightharpoonup> async_params"
  next_frame :: nat
  user_calls :: "user_call list"
  link :: 's

record locks =
  init_lock :: bool
  gen_lock :: bool
  cmd_lock :: bool
  cmd_unlock :: bool

definition zero_op :: uril_cli_pending_op_t where
  "zero_op = \<lparr>busy = 0, op_unique_id = 0, client_data = Cd_null, async_resp_cb = None\<rparr>"

text \<open>Static storage is zero; \<open>uril_client_init\<close> clears \<open>context\<close> again, not the two counters.\<close>

definition clear_context :: "'s client \<Rightarrow> 's client" where
  "clear_context c =
     c\<lparr>handle := 0, initialized := 0, ind_cb := None, default_async_cb := None,
       pending_ops := replicate URIL_MAX_PENDING_OPS zero_op\<rparr>"

definition new_client :: "'s \<Rightarrow> 's client" where
  "new_client s =
     \<lparr>handle = 0, initialized = 0, ind_cb = None, default_async_cb = None,
      pending_ops = replicate URIL_MAX_PENDING_OPS zero_op,
      s_unique_handle = 0, s_unique_msg_id = 0, frames = Map.empty, next_frame = 0,
      user_calls = [], link = s\<rparr>"

section \<open>The table of pending operations\<close>

fun find_slot :: "(uril_cli_pending_op_t \<Rightarrow> bool) \<Rightarrow> uril_cli_pending_op_t list \<Rightarrow> nat \<Rightarrow> nat option"
  where
  "find_slot P [] i = None"
| "find_slot P (x # xs) i = (if P x then Some i else find_slot P xs (Suc i))"

definition acquire_free_op_slot :: "'s client \<Rightarrow> nat option \<times> 's client" where
  "acquire_free_op_slot c =
     (case find_slot (\<lambda>x. busy x = 0) (pending_ops c) 0 of
        None \<Rightarrow> (None, c)
      | Some i \<Rightarrow>
          (Some i, c\<lparr>pending_ops := (pending_ops c)[i := (pending_ops c ! i)\<lparr>busy := 1\<rparr>]\<rparr>))"

text \<open>The lookup compares the unique ids of all slots, busy or not.\<close>

definition lookup_pending_op :: "u32 \<Rightarrow> 's client \<Rightarrow> nat option" where
  "lookup_pending_op uid c = find_slot (\<lambda>x. op_unique_id x = uid) (pending_ops c) 0"

section \<open>Receiving\<close>

text \<open>\<open>async_cb\<close>, the callback of synchronous commands, writes to the frame of the command.\<close>

definition async_cb :: "u8 list \<Rightarrow> client_ptr \<Rightarrow> 's client \<Rightarrow> 's client outcome" where
  "async_cb data cd c =
     (case cd of
        Cd_null \<Rightarrow> Ok c
      | Cd_user n \<Rightarrow> Fault Type_confusion
      | Cd_frame f \<Rightarrow>
          (case frames c f of
             None \<Rightarrow> Fault Use_after_free
           | Some params \<Rightarrow>
               Ok (c\<lparr>frames := (frames c)(f \<mapsto>
                    params\<lparr>resp := overlay (take (min (resp_len params) (length data)) data)
                                     (resp params),
                           success := True, condition := True\<rparr>)\<rparr>)))"

definition invoke_cb ::
    "uril_client_async_cb \<Rightarrow> uril_protocol_msg_t \<Rightarrow> client_ptr \<Rightarrow> 's client \<Rightarrow> 's client outcome"
  where
  "invoke_cb cb m cd c =
     (case cb of
        Cb_user n \<Rightarrow>
          Ok (c\<lparr>user_calls := user_calls c @
                [Resp_call n (handle c) (sim_id m) (msg_id m) (payload m) cd]\<rparr>)
      | Cb_async_cb \<Rightarrow> async_cb (payload m) cd c)"

definition handle_receive_ind :: "uril_protocol_msg_t \<Rightarrow> 's client \<Rightarrow> int \<times> 's client" where
  "handle_receive_ind ind c =
     (-1,
      case ind_cb c of
        None \<Rightarrow> c
      | Some n \<Rightarrow>
          c\<lparr>user_calls := user_calls c @ [Ind_call n (handle c) (sim_id ind) (msg_id ind)]\<rparr>)"

definition handle_receive_rsp ::
    "locks \<Rightarrow> uril_protocol_msg_t \<Rightarrow> 's client \<Rightarrow> (int \<times> 's client) outcome" where
  "handle_receive_rsp l m c =
     (if \<not> cmd_lock l then Ok (-1, c)
      else
        let (cb, cd, c1) =
              (case lookup_pending_op (unique_id m) c of
                 None \<Rightarrow> (None, Cd_null, c)
               | Some i \<Rightarrow>
                   (async_resp_cb (pending_ops c ! i), client_data (pending_ops c ! i),
                    c\<lparr>pending_ops := (pending_ops c)[i := (pending_ops c ! i)\<lparr>busy := 0\<rparr>]\<rparr>))
        in if \<not> cmd_unlock l then Ok (-1, c1)
           else (case cb of
                   None \<Rightarrow> Ok (-1, c1)
                 | Some f \<Rightarrow> map_ok (\<lambda>c2. (0, c2)) (invoke_cb f m cd c1)))"

definition connector_on_receive ::
    "locks \<Rightarrow> nat \<Rightarrow> u8 list \<Rightarrow> 's client \<Rightarrow> (int \<times> 's client) outcome" where
  "connector_on_receive l len data c =
     (if len < MSG_SIZE then Ok (-1, c)
      else bind_outcome (uril_protocol_msg_from_buffer (replicate MSG_SIZE 0) data len) (\<lambda>bs.
             let m = msg_of_image bs
             in if is_indication m \<noteq> 0 then Ok (handle_receive_ind m c)
                else handle_receive_rsp l m c))"

text \<open>The connector's thread: each upcall of the receive routine in turn.\<close>

fun run_upcall :: "locks \<Rightarrow> upcall \<Rightarrow> 's client \<Rightarrow> 's client outcome" where
  "run_upcall l (On_receive len data) c = map_ok snd (connector_on_receive l len data c)"
| "run_upcall l (On_disconnect err) c = Ok c"

fun run_upcalls :: "locks \<Rightarrow> upcall list \<Rightarrow> 's client \<Rightarrow> 's client outcome" where
  "run_upcalls l [] c = Ok c"
| "run_upcalls l (u # us) c = bind_outcome (run_upcall l u c) (run_upcalls l us)"

section \<open>Initialisation and release\<close>

text \<open>At most \<open>attempts\<close> further connects; the environments of the attempts are \<open>envs k\<close>.\<close>

fun connect_loop ::
    "('e \<Rightarrow> 's \<Rightarrow> int \<times> 's) \<Rightarrow> (nat \<Rightarrow> 'e) \<Rightarrow> nat \<Rightarrow> nat \<Rightarrow> 's \<Rightarrow> bool \<times> 's" where
  "connect_loop connect envs k 0 s = (False, s)"
| "connect_loop connect envs k (Suc attempts) s =
     (let (r, s') = connect (envs k) s
      in if r = 0 then (True, s') else connect_loop connect envs (Suc k) attempts s')"

text \<open>
  \<open>conn_ok\<close> says that there is a connector: one was set (\<open>uril_client_set_service_connector\<close>),
  or the allocation in \<open>unix_service_connector_create\<close> succeeds.
\<close>

definition uril_client_set_service_connector :: "'s \<Rightarrow> 's client \<Rightarrow> 's client" where
  "uril_client_set_service_connector connector c = c\<lparr>link := connector\<rparr>"

definition uril_client_init ::
    "('e \<Rightarrow> 's \<Rightarrow> int \<times> 's) \<Rightarrow> locks \<Rightarrow> (nat \<Rightarrow> 'e) \<Rightarrow> bool \<Rightarrow> bool \<Rightarrow> nat option
     \<Rightarrow> uril_client_async_cb option \<Rightarrow> 's client \<Rightarrow> u32 \<times> u32 option \<times> 's client" where
  "uril_client_init connect l envs hndl_valid conn_ok icb dcb c =
     (if \<not> hndl_valid then (-1, None, c)
      else if \<not> conn_ok then (-1, None, c)
      else
        let c1 = (clear_context c)\<lparr>ind_cb := icb, default_async_cb := dcb\<rparr>;
            (ok, s) = connect_loop connect envs 0 URIL_CONNECT_ATTEMPTS_COUNT (link c1);
            c2 = c1\<lparr>link := s\<rparr>
        in if \<not> ok then (-1, None, c2)
           else
             let c3 = c2\<lparr>initialized := 1\<rparr>
             in if init_lock l
                then let h = s_unique_handle c3 + 1
                     in (0, Some h, c3\<lparr>s_unique_handle := h, handle := h\<rparr>)
                else (-1, None, c3))"

text \<open>\<open>uril_client_release\<close> does not look at the handle it is given.\<close>

definition uril_client_release :: "u32 \<Rightarrow> 's client \<Rightarrow> u32 \<times> 's client" where
  "uril_client_release hndl c =
     (if initialized c \<noteq> 0
      then (0, c\<lparr>ind_cb := None, default_async_cb := None, initialized := 0\<rparr>)
      else (-1, c))"

section \<open>Commands\<close>

text \<open>The message of a request: \<open>memcpy\<close> of \<open>req_len\<close> bytes over a zero payload.\<close>

definition request_msg :: "u8 \<Rightarrow> u32 \<Rightarrow> u32 \<Rightarrow> u8 list \<Rightarrow> uril_protocol_msg_t" where
  "request_msg sid mid uid req =
     \<lparr>is_indication = 0, unique_id = uid, sim_id = sid, msg_id = mid,
      plen = of_nat (length req), payload = overlay req zero_payload\<rparr>"

definition uril_client_execute_command_async ::
    "(uril_protocol_msg_t \<Rightarrow> 's \<Rightarrow> (int \<times> 's) outcome) \<Rightarrow> locks \<Rightarrow> u32 \<Rightarrow> u8 \<Rightarrow> u32
     \<Rightarrow> u8 list option \<Rightarrow> uril_client_async_cb option \<Rightarrow> client_ptr \<Rightarrow> 's client
     \<Rightarrow> (u32 \<times> 's client) outcome" where
  "uril_client_execute_command_async send l hndl sid mid req cb cd c =
     (if initialized c = 0 then Ok (-1, c)
      else if hndl \<noteq> handle c then Ok (-1, c)
      else case req of
        None \<Rightarrow> Ok (-1, c)
      | Some r \<Rightarrow>
          if length r > MAX_URIL_PAYLOAD_SIZE then Fault Out_of_bounds_write
          else if \<not> gen_lock l then Ok (-1, c)
          else
            let uid = s_unique_msg_id c + 1; c1 = c\<lparr>s_unique_msg_id := uid\<rparr>
            in if \<not> cmd_lock l then Ok (-1, c1)
               else
                 let (slot, c2) = acquire_free_op_slot c1
                 in if \<not> cmd_unlock l then Ok (-1, c2)
                    else case slot of
                      None \<Rightarrow> Ok (-1, c2)
                    | Some i \<Rightarrow>
                        let f = (case cb of Some g \<Rightarrow> Some g | None \<Rightarrow> default_async_cb c2);
                            c3 = c2\<lparr>pending_ops := (pending_ops c2)[i := (pending_ops c2 ! i)
                                      \<lparr>async_resp_cb := f, client_data := cd, op_unique_id := uid\<rparr>]\<rparr>
                        in map_ok (\<lambda>(ret, s). (word_of_int ret, c3\<lparr>link := s\<rparr>))
                             (send (request_msg sid mid uid r) (link c3)))"

text \<open>
  A synchronous command up to its wait: \<open>Inl ret\<close> when it has returned, \<open>Inr f\<close> when it is
  about to wait in frame \<open>f\<close>.  The two objects start as the static ones; the exit destroys both.
\<close>

record sync_env =
  mutex_malloc :: bool
  mutex_init_result :: int
  cond_malloc :: bool
  cond_init_result :: int

definition sync_exit :: "osal_object \<Rightarrow> osal_object \<Rightarrow> 'a \<Rightarrow> 'a outcome" where
  "sync_exit cond_obj mutex_obj x =
     bind_outcome (osal_destroy 0 cond_obj) (\<lambda>_. map_ok (\<lambda>_. x) (osal_destroy 0 mutex_obj))"

definition sync_start ::
    "(uril_protocol_msg_t \<Rightarrow> 's \<Rightarrow> (int \<times> 's) outcome) \<Rightarrow> locks \<Rightarrow> sync_env \<Rightarrow> u32 \<Rightarrow> u8 \<Rightarrow> u32
     \<Rightarrow> u8 list option \<Rightarrow> u8 list \<Rightarrow> 's client \<Rightarrow> ((u32 + nat) \<times> 's client) outcome" where
  "sync_start send l env hndl sid mid req buf c =
     (let (mret, mobj) = osal_init (mutex_malloc env) (mutex_init_result env)
      in if mret \<noteq> 0 then sync_exit Static_default mobj (Inl (-1), c)
         else
           let (cret, cobj) = osal_init (cond_malloc env) (cond_init_result env)
           in if cret \<noteq> 0 then sync_exit cobj mobj (Inl (-1), c)
              else
                let f = next_frame c;
                    c1 = c\<lparr>next_frame := Suc f, frames := (frames c)(f \<mapsto>
                           \<lparr>success = False, condition = False, resp = buf, resp_len = length buf,
                            waiting_op = False\<rparr>)\<rparr>
                in bind_outcome
                     (uril_client_execute_command_async send l hndl sid mid req (Some Cb_async_cb)
                        (Cd_frame f) c1)
                     (\<lambda>(ret, c2).
                        if ret \<noteq> 0 then Ok (Inl (-1), c2\<lparr>frames := (frames c2)(f := None)\<rparr>)
                        else Ok (Inr f, c2)))"

definition sync_check :: "nat \<Rightarrow> 's client \<Rightarrow> 's client outcome" where
  "sync_check f c =
     (case frames c f of
        None \<Rightarrow> Fault Use_after_free
      | Some params \<Rightarrow>
          Ok (c\<lparr>frames := (frames c)(f \<mapsto> params\<lparr>waiting_op := \<not> condition params\<rparr>)\<rparr>))"

text \<open>The return: \<open>cond_ret\<close> is the result of the timed wait, when there was one.\<close>

definition sync_return :: "bool \<Rightarrow> int \<Rightarrow> nat \<Rightarrow> 's client \<Rightarrow> (u32 \<times> u8 list \<times> 's client) outcome" where
  "sync_return lock_ok cond_ret f c =
     (case frames c f of
        None \<Rightarrow> Fault Use_after_free
      | Some params \<Rightarrow>
          let c' = c\<lparr>frames := (frames c)(f := None)\<rparr>
          in if \<not> lock_ok then Ok (-1, resp params, c')
             else if waiting_op params \<and> cond_ret \<noteq> 0 then Ok (-1, resp params, c')
             else if condition params then Ok (0, resp params, c')
             else Ok (-1, resp params, c'))"

text \<open>
  The macros of \<open>inc/uril_client.h\<close>: the sizes are those of the structures the pointers point at; a
  command without payload passes a null pointer.
\<close>

definition URIL_CLIENT_EXECUTE_COMMAND_ASYNC ::
    "(uril_protocol_msg_t \<Rightarrow> 's \<Rightarrow> (int \<times> 's) outcome) \<Rightarrow> locks \<Rightarrow> u32 \<Rightarrow> u8 \<Rightarrow> u32 \<Rightarrow> u8 list
     \<Rightarrow> uril_client_async_cb option \<Rightarrow> client_ptr \<Rightarrow> 's client \<Rightarrow> (u32 \<times> 's client) outcome" where
  "URIL_CLIENT_EXECUTE_COMMAND_ASYNC send l hndl sid mid req cb cd =
     uril_client_execute_command_async send l hndl sid mid (Some req) cb cd"

definition URIL_CLIENT_EXECUTE_COMMAND_NO_PAYLOAD_ASYNC ::
    "(uril_protocol_msg_t \<Rightarrow> 's \<Rightarrow> (int \<times> 's) outcome) \<Rightarrow> locks \<Rightarrow> u32 \<Rightarrow> u8 \<Rightarrow> u32
     \<Rightarrow> uril_client_async_cb option \<Rightarrow> client_ptr \<Rightarrow> 's client \<Rightarrow> (u32 \<times> 's client) outcome" where
  "URIL_CLIENT_EXECUTE_COMMAND_NO_PAYLOAD_ASYNC send l hndl sid mid cb cd =
     uril_client_execute_command_async send l hndl sid mid None cb cd"

definition URIL_CLIENT_EXECUTE_COMMAND_SYNC ::
    "(uril_protocol_msg_t \<Rightarrow> 's \<Rightarrow> (int \<times> 's) outcome) \<Rightarrow> locks \<Rightarrow> sync_env \<Rightarrow> u32 \<Rightarrow> u8 \<Rightarrow> u32
     \<Rightarrow> u8 list \<Rightarrow> u8 list \<Rightarrow> 's client \<Rightarrow> ((u32 + nat) \<times> 's client) outcome" where
  "URIL_CLIENT_EXECUTE_COMMAND_SYNC send l env hndl sid mid req buf =
     sync_start send l env hndl sid mid (Some req) buf"

definition URIL_CLIENT_EXECUTE_COMMAND_NO_PAYLOAD_SYNC ::
    "(uril_protocol_msg_t \<Rightarrow> 's \<Rightarrow> (int \<times> 's) outcome) \<Rightarrow> locks \<Rightarrow> sync_env \<Rightarrow> u32 \<Rightarrow> u8 \<Rightarrow> u32
     \<Rightarrow> u8 list \<Rightarrow> 's client \<Rightarrow> ((u32 + nat) \<times> 's client) outcome" where
  "URIL_CLIENT_EXECUTE_COMMAND_NO_PAYLOAD_SYNC send l env hndl sid mid buf =
     sync_start send l env hndl sid mid None buf"

text \<open>A command without payload is never sent.\<close>

lemma no_payload_async:
  "URIL_CLIENT_EXECUTE_COMMAND_NO_PAYLOAD_ASYNC send l hndl sid mid cb cd c = Ok (-1, c)"
  by (simp add: URIL_CLIENT_EXECUTE_COMMAND_NO_PAYLOAD_ASYNC_def uril_client_execute_command_async_def)

lemma no_payload_sync:
  "URIL_CLIENT_EXECUTE_COMMAND_NO_PAYLOAD_SYNC send l env hndl sid mid buf c \<noteq> Ok (Inr f, c')"
  by (auto simp: URIL_CLIENT_EXECUTE_COMMAND_NO_PAYLOAD_SYNC_def sync_start_def sync_exit_def
      uril_client_execute_command_async_def Let_def outcome_simps split: prod.splits if_splits)

section \<open>Slots\<close>

lemma find_slot_Suc: "find_slot P xs (Suc k) = map_option Suc (find_slot P xs k)"
  by (induction xs arbitrary: k) auto

lemma find_slot_0_Some:
  "find_slot P xs 0 = Some i \<longleftrightarrow> i < length xs \<and> P (xs ! i) \<and> (\<forall>j < i. \<not> P (xs ! j))"
proof (induction xs arbitrary: i)
  case (Cons x xs)
  show ?case
    by (cases i) (auto simp: find_slot_Suc Cons.IH All_less_Suc2)
qed simp

lemma find_slot_None: "find_slot P xs k = None \<longleftrightarrow> (\<forall>x \<in> set xs. \<not> P x)"
  by (induction xs arbitrary: k) auto

text \<open>
  The table's invariant: the nonzero unique ids in it are distinct and at most the last one
  given out, and a slot that was never used has no callback.
\<close>

definition ops_inv :: "uril_cli_pending_op_t list \<Rightarrow> u32 \<Rightarrow> bool" where
  "ops_inv ops newest \<longleftrightarrow>
     length ops = URIL_MAX_PENDING_OPS
     \<and> (\<forall>i < length ops. op_unique_id (ops ! i) \<le> newest)
     \<and> (\<forall>i < length ops. op_unique_id (ops ! i) = 0 \<longrightarrow> async_resp_cb (ops ! i) = None)
     \<and> (\<forall>i < length ops. \<forall>j < i.
          op_unique_id (ops ! j) = op_unique_id (ops ! i) \<longrightarrow> op_unique_id (ops ! i) = 0)"

definition client_inv :: "'s client \<Rightarrow> bool" where
  "client_inv c \<longleftrightarrow> ops_inv (pending_ops c) (s_unique_msg_id c)"

lemma nth_upd: "xs[i := x] ! j = (if j = i \<and> i < length xs then x else xs ! j)"
  by (cases "i < length xs") (auto simp: nth_list_update list_update_beyond)

lemma ops_inv_zero: "ops_inv (replicate URIL_MAX_PENDING_OPS zero_op) newest"
  by (auto simp: ops_inv_def zero_op_def)

lemma ops_inv_busy:
  "ops_inv ops newest \<Longrightarrow> ops_inv (ops[i := (ops ! i)\<lparr>busy := b\<rparr>]) newest"
  by (auto simp: ops_inv_def nth_upd)

lemma ops_inv_mono: "ops_inv ops newest \<Longrightarrow> newest \<le> newest' \<Longrightarrow> ops_inv ops newest'"
  by (auto simp: ops_inv_def intro: order_trans)

lemma ops_inv_new:
  assumes "ops_inv ops newest" and "newest < newest'"
  shows "ops_inv (ops[i := x\<lparr>async_resp_cb := f, client_data := cd, op_unique_id := newest'\<rparr>]) newest'"
proof -
  have "newest' \<noteq> 0" using assms(2) by auto
  moreover have "\<forall>j < length ops. op_unique_id (ops ! j) < newest'"
    using assms by (auto simp: ops_inv_def intro: le_less_trans)
  ultimately show ?thesis
    using assms(1) by (auto simp: ops_inv_def nth_upd intro: less_imp_le dest: less_trans)
qed

lemma lookup_unique:
  assumes "client_inv c" and "i < length (pending_ops c)" and "uid \<noteq> 0"
    and "op_unique_id (pending_ops c ! i) = uid"
  shows "lookup_pending_op uid c = Some i"
proof -
  have "\<forall>j < i. op_unique_id (pending_ops c ! j) \<noteq> uid"
    using assms by (fastforce simp: client_inv_def ops_inv_def)
  with assms show ?thesis by (simp add: lookup_pending_op_def find_slot_0_Some)
qed

section \<open>The link to the service\<close>

locale service_link =
  fixes send :: "uril_protocol_msg_t \<Rightarrow> 's \<Rightarrow> (int \<times> 's) outcome"
    and connect :: "'e \<Rightarrow> 's \<Rightarrow> int \<times> 's"
    and up :: "'s \<Rightarrow> bool"
  assumes connect_up: "connect env s = (0, s') \<Longrightarrow> up s'"
    and send_up: "up s \<Longrightarrow> \<exists>r s'. send m s = Ok (r, s') \<and> up s' \<and> r \<in> {0, -1}"

interpretation unix_link: service_link "send_routine net" connect_routine connected for net
proof unfold_locales
  fix env s s' assume "connect_routine env s = (0, s')"
  then show "connected s'" by (rule connect_connected)
next
  fix s m assume c: "connected s"
  with send_connected [OF this, of net m] show
    "\<exists>r s'. send_routine net m s = Ok (r, s') \<and> connected s' \<and> r \<in> {0, -1}"
    by (auto simp: connected_def)
qed

section \<open>Commands and their effect on the table\<close>

definition all_locks :: locks where
  "all_locks = \<lparr>init_lock = True, gen_lock = True, cmd_lock = True, cmd_unlock = True\<rparr>"

text \<open>What a command that gets a slot leaves in the table, whatever the send returns.\<close>

definition slot_for ::
    "uril_cli_pending_op_t \<Rightarrow> uril_client_async_cb option \<Rightarrow> client_ptr \<Rightarrow> u32
     \<Rightarrow> uril_cli_pending_op_t" where
  "slot_for old f cd uid =
     old\<lparr>busy := 1, async_resp_cb := f, client_data := cd, op_unique_id := uid\<rparr>"

lemma execute_async_cases:
  assumes "uril_client_execute_command_async send l hndl sid mid req cb cd c = Ok (r, c')"
  shows "(r = -1 \<and> link c' = link c \<and> s_unique_msg_id c' \<in> {s_unique_msg_id c, s_unique_msg_id c + 1}
           \<and> (pending_ops c' = pending_ops c
              \<or> (\<exists>i. pending_ops c' = (pending_ops c)[i := (pending_ops c ! i)\<lparr>busy := 1\<rparr>]))
           \<and> frames c' = frames c \<and> user_calls c' = user_calls c \<and> handle c' = handle c
           \<and> initialized c' = initialized c)
       \<or> (\<exists>i bs ret. req = Some bs \<and> length bs \<le> MAX_URIL_PAYLOAD_SIZE
           \<and> initialized c \<noteq> 0 \<and> hndl = handle c
           \<and> find_slot (\<lambda>x. busy x = 0) (pending_ops c) 0 = Some i
           \<and> send (request_msg sid mid (s_unique_msg_id c + 1) bs) (link c) = Ok (ret, link c')
           \<and> r = word_of_int ret
           \<and> s_unique_msg_id c' = s_unique_msg_id c + 1
           \<and> pending_ops c' = (pending_ops c)[i := slot_for (pending_ops c ! i)
                (case cb of Some g \<Rightarrow> Some g | None \<Rightarrow> default_async_cb c) cd
                (s_unique_msg_id c + 1)]
           \<and> frames c' = frames c \<and> user_calls c' = user_calls c \<and> handle c' = handle c
           \<and> initialized c' = initialized c)"
  using assms
  by (auto simp: uril_client_execute_command_async_def acquire_free_op_slot_def Let_def
      outcome_simps slot_for_def find_slot_0_Some
      split: if_splits option.splits)

end
