(* ===== verification/Client_Steps.thy ===== *)
theory Client_Steps
  imports Uril_Client
begin

text \<open>
  The client in operation: commands, messages from the service and synchronous calls as the
  steps of one relation, in any order; the invariant of the table of pending operations; which
  callback a response reaches; and what becomes of slots that are never answered.
\<close>

section \<open>Steps\<close>

datatype client_event =
    Cl_async u32 u8 u32 "u8 list option" "uril_client_async_cb option" client_ptr
  | Cl_sync u32 u8 u32 "u8 list option" "u8 list"
  | Cl_check nat
  | Cl_return nat
  | Cl_response uril_protocol_msg_t
  | Cl_indication uril_protocol_msg_t
  | Cl_release u32

inductive client_step ::
    "(uril_protocol_msg_t \<Rightarrow> 's \<Rightarrow> (int \<times> 's) outcome) \<Rightarrow> client_event \<Rightarrow> 's client \<Rightarrow> 's client \<Rightarrow> bool"
  for send where
  async: "uril_client_execute_command_async send l h sid mid req cb cd c = Ok (r, c') \<Longrightarrow>
     client_step send (Cl_async h sid mid req cb cd) c c'"
| sync: "sync_start send l env h sid mid req buf c = Ok (r, c') \<Longrightarrow>
     client_step send (Cl_sync h sid mid req buf) c c'"
| check: "sync_check f c = Ok c' \<Longrightarrow> client_step send (Cl_check f) c c'"
| return_: "sync_return lock_ok cond_ret f c = Ok (r, buf, c') \<Longrightarrow>
     client_step send (Cl_return f) c c'"
| response: "handle_receive_rsp l m c = Ok (r, c') \<Longrightarrow> client_step send (Cl_response m) c c'"
| indication: "handle_receive_ind m c = (r, c') \<Longrightarrow> client_step send (Cl_indication m) c c'"
| release: "uril_client_release h c = (r, c') \<Longrightarrow> client_step send (Cl_release h) c c'"

text \<open>What a step can do to the table and the last unique id.\<close>

inductive table_change ::
    "uril_cli_pending_op_t list \<Rightarrow> u32 \<Rightarrow> uril_cli_pending_op_t list \<Rightarrow> u32 \<Rightarrow> bool"
  where
  same: "table_change ops u ops u"
| skipped: "table_change ops u ops (u + 1)"
| taken: "i < length ops \<Longrightarrow> busy (ops ! i) = 0 \<Longrightarrow>
     table_change ops u (ops[i := (ops ! i)\<lparr>busy := 1\<rparr>]) (u + 1)"
| filled: "i < length ops \<Longrightarrow> busy (ops ! i) = 0 \<Longrightarrow>
     table_change ops u (ops[i := slot_for (ops ! i) f cd (u + 1)]) (u + 1)"

abbreviation client_change :: "'s client \<Rightarrow> 's client \<Rightarrow> bool" where
  "client_change c c' \<equiv>
     table_change (pending_ops c) (s_unique_msg_id c) (pending_ops c') (s_unique_msg_id c')"

lemma slot_for_simp:
  "(x\<lparr>busy := 1\<rparr>)\<lparr>async_resp_cb := f, client_data := cd, op_unique_id := u\<rparr> = slot_for x f cd u"
  by (simp add: slot_for_def)

lemma change_async:
  assumes "uril_client_execute_command_async send l h sid mid req cb cd c = Ok (r, c')"
  shows "client_change c c'"
proof -
  have filled: "table_change ops u (ops[i := (ops ! i)\<lparr>busy := 1, async_resp_cb := f,
      client_data := cd, op_unique_id := u + 1\<rparr>]) (u + 1)"
    if "i < length ops" "busy (ops ! i) = 0" for ops u i f
    using filled [OF that, of u f cd] by (simp add: slot_for_def)
  show ?thesis
    using assms
    by (auto simp: uril_client_execute_command_async_def acquire_free_op_slot_def Let_def
        outcome_simps find_slot_0_Some intro: table_change.intros filled
        split: if_splits option.splits)
qed

lemma change_sync:
  assumes "sync_start send l env h sid mid req buf c = Ok (r, c')"
  shows "client_change c c'"
  using assms
  by (auto simp: sync_start_def sync_exit_def Let_def outcome_simps intro: table_change.same
      dest!: change_async split: if_splits prod.splits)

lemma less_add_one:
  assumes "(u :: u32) \<noteq> -1"
  shows "u < u + 1"
proof -
  have "1 + u \<noteq> 0" using assms by (metis add.commute eq_neg_iff_add_eq_0)
  then show ?thesis using unatSuc [of u] by (simp add: word_less_nat_alt add.commute)
qed

lemma table_change_counter: "table_change ops u ops' u' \<Longrightarrow> unat u' \<le> unat u + 1"
proof (cases "u = -1")
  case False
  then have "unat (u + 1) = Suc (unat u)"
    using unatSuc [of u] by (metis add.commute eq_neg_iff_add_eq_0)
  then show "table_change ops u ops' u' \<Longrightarrow> unat u' \<le> unat u + 1"
    by (auto elim: table_change.cases)
qed (auto elim: table_change.cases)

lemma change_inv:
  assumes "table_change ops u ops' u'" and "ops_inv ops u" and "u \<noteq> -1"
  shows "ops_inv ops' u'"
proof -
  have less: "u < u + 1" using assms(3) by (rule less_add_one)
  from assms(1) show ?thesis
  proof cases
    case (filled i f cd)
    with assms(2) less show ?thesis
      using ops_inv_new [OF assms(2) less, where i = i and x = "(ops ! i)\<lparr>busy := 1\<rparr>"
        and f = f and cd = cd]
      by (simp add: slot_for_def)
  qed (use assms(2) less in \<open>auto intro: ops_inv_mono ops_inv_busy less_imp_le\<close>)
qed

text \<open>A slot that is waiting for its response is left alone.\<close>

lemma change_keeps_busy:
  assumes "table_change ops u ops' u'" and "busy (ops ! i) \<noteq> 0"
  shows "ops' ! i = ops ! i"
  using assms by cases (auto simp: nth_upd)

lemma async_cb_table:
  "async_cb data cd c = Ok c' \<Longrightarrow> pending_ops c' = pending_ops c \<and> s_unique_msg_id c' = s_unique_msg_id c"
  by (auto simp: async_cb_def split: client_ptr.splits option.splits)

lemma invoke_cb_table:
  "invoke_cb cb m cd c = Ok c' \<Longrightarrow> pending_ops c' = pending_ops c \<and> s_unique_msg_id c' = s_unique_msg_id c"
  by (auto simp: invoke_cb_def dest: async_cb_table split: uril_client_async_cb.splits)

text \<open>A response touches the one slot it is looked up in, and there only the busy flag.\<close>

lemma response_table:
  assumes "handle_receive_rsp l m c = Ok (r, c')"
  shows "s_unique_msg_id c' = s_unique_msg_id c
    \<and> (pending_ops c' = pending_ops c
       \<or> (\<exists>i. lookup_pending_op (unique_id m) c = Some i
            \<and> pending_ops c' = (pending_ops c)[i := (pending_ops c ! i)\<lparr>busy := 0\<rparr>]))"
  using assms
  by (auto simp: handle_receive_rsp_def outcome_simps dest!: invoke_cb_table
      split: if_splits option.splits)

lemma step_counter:
  assumes "client_step send ev c c'"
  shows "s_unique_msg_id c' = s_unique_msg_id c \<or> s_unique_msg_id c' = s_unique_msg_id c + 1"
  using assms
proof cases
  case (async h sid mid req cb cd r)
  then show ?thesis using change_async by (blast elim: table_change.cases)
next
  case (sync l env h sid mid req buf r)
  then show ?thesis using change_sync by (blast elim: table_change.cases)
qed (auto simp: sync_check_def sync_return_def handle_receive_ind_def uril_client_release_def Let_def
    dest: response_table split: option.splits if_splits)

lemma step_inv:
  assumes "client_step send ev c c'" and "client_inv c" and "s_unique_msg_id c \<noteq> -1"
  shows "client_inv c'"
  using assms(1)
proof cases
  case (async h sid mid req cb cd r)
  then show ?thesis using change_inv [OF change_async] assms(2,3) by (auto simp: client_inv_def)
next
  case (sync l env h sid mid req buf r)
  then show ?thesis using change_inv [OF change_sync] assms(2,3) by (auto simp: client_inv_def)
next
  case (response l m r)
  then show ?thesis using response_table assms(2) by (fastforce simp: client_inv_def intro: ops_inv_busy)
qed (use assms(2) in \<open>auto simp: client_inv_def sync_check_def sync_return_def handle_receive_ind_def
    uril_client_release_def Let_def split: option.splits if_splits\<close>)

text \<open>A slot that waits stays as it is until a response with its unique id.\<close>

fun answers :: "u32 \<Rightarrow> client_event \<Rightarrow> bool" where
  "answers uid (Cl_response m) \<longleftrightarrow> unique_id m = uid"
| "answers uid ev \<longleftrightarrow> False"

lemma step_keeps_slot:
  assumes "client_step send ev c c'" and "i < length (pending_ops c)"
    and "busy (pending_ops c ! i) \<noteq> 0" and "\<not> answers (op_unique_id (pending_ops c ! i)) ev"
  shows "pending_ops c' ! i = pending_ops c ! i"
  using assms(1)
proof cases
  case (async h sid mid req cb cd r)
  then show ?thesis using change_keeps_busy [OF change_async] assms(3) by blast
next
  case (sync l env h sid mid req buf r)
  then show ?thesis using change_keeps_busy [OF change_sync] assms(3) by blast
next
  case (response l m r)
  then have "lookup_pending_op (unique_id m) c \<noteq> Some i"
    using assms(4) by (auto simp: lookup_pending_op_def find_slot_0_Some)
  then show ?thesis using response_table [OF response(2)] by (auto simp: nth_upd)
qed (auto simp: sync_check_def sync_return_def handle_receive_ind_def uril_client_release_def Let_def
    split: option.splits if_splits)

inductive client_run ::
    "(uril_protocol_msg_t \<Rightarrow> 's \<Rightarrow> (int \<times> 's) outcome) \<Rightarrow> client_event list \<Rightarrow> 's client \<Rightarrow> 's client \<Rightarrow> bool"
  for send where
  run_none: "client_run send [] c c"
| run_more: "client_run send evs c c1 \<Longrightarrow> client_step send ev c1 c2 \<Longrightarrow> client_run send (evs @ [ev]) c c2"

lemma run_inv:
  assumes "client_run send evs c c'" and "client_inv c"
    and "unat (s_unique_msg_id c) + length evs < 2 ^ 32"
  shows "client_inv c' \<and> unat (s_unique_msg_id c') \<le> unat (s_unique_msg_id c) + length evs"
  using assms
proof (induction rule: client_run.induct)
  case (run_more evs c c1 ev c2)
  then have c1: "client_inv c1" "unat (s_unique_msg_id c1) \<le> unat (s_unique_msg_id c) + length evs"
    by simp_all
  have "unat (- 1 :: u32) = 2 ^ 32 - 1" by (simp add: unsigned_minus_1_eq_mask mask_eq_exp_minus_1)
  with c1(2) run_more.prems(2) have ne: "s_unique_msg_id c1 \<noteq> -1" by auto
  have "unat (s_unique_msg_id c1 + 1) = Suc (unat (s_unique_msg_id c1))"
    using unatSuc [of "s_unique_msg_id c1"] ne by (metis add.commute eq_neg_iff_add_eq_0)
  with step_inv [OF run_more.hyps(2) c1(1) ne] step_counter [OF run_more.hyps(2)] c1(2)
  show ?case by auto
qed simp

lemma run_keeps_slot:
  assumes "client_run send evs c c'" and "client_inv c"
    and "unat (s_unique_msg_id c) + length evs < 2 ^ 32"
    and "i < URIL_MAX_PENDING_OPS" and "busy (pending_ops c ! i) \<noteq> 0"
    and "\<forall>ev \<in> set evs. \<not> answers (op_unique_id (pending_ops c ! i)) ev"
  shows "pending_ops c' ! i = pending_ops c ! i"
  using assms
proof (induction rule: client_run.induct)
  case (run_more evs c c1 ev c2)
  have "client_inv c1" using run_inv [OF run_more.hyps(1) run_more.prems(1)] run_more.prems(2) by simp
  then have "i < length (pending_ops c1)" using run_more.prems(3) by (simp add: client_inv_def ops_inv_def)
  moreover have "pending_ops c1 ! i = pending_ops c ! i" using run_more by simp
  ultimately show ?case
    using step_keeps_slot [OF run_more.hyps(2), of i] run_more.prems(4,5) by simp
qed simp

section \<open>Responses reach their callback\<close>

lemma response_dispatch:
  assumes "client_inv c" and "i < URIL_MAX_PENDING_OPS" and "unique_id m \<noteq> 0"
    and "op_unique_id (pending_ops c ! i) = unique_id m"
    and "async_resp_cb (pending_ops c ! i) = Some cb"
  shows "handle_receive_rsp all_locks m c =
    map_ok (\<lambda>c'. (0, c'))
      (invoke_cb cb m (client_data (pending_ops c ! i))
         (c\<lparr>pending_ops := (pending_ops c)[i := (pending_ops c ! i)\<lparr>busy := 0\<rparr>]\<rparr>))"
proof -
  have "i < length (pending_ops c)" using assms(1,2) by (simp add: client_inv_def ops_inv_def)
  then have "lookup_pending_op (unique_id m) c = Some i"
    using lookup_unique assms(1,3,4) by blast
  with assms(5) show ?thesis
    by (simp add: handle_receive_rsp_def all_locks_def)
qed

text \<open>What a command that was sent leaves behind.\<close>

lemma async_sent:
  assumes "uril_client_execute_command_async send l h sid mid req cb cd c = Ok (0, c')"
    and "client_inv c" and "s_unique_msg_id c \<noteq> -1"
  obtains i where "i < URIL_MAX_PENDING_OPS" and "busy (pending_ops c' ! i) = 1"
    and "op_unique_id (pending_ops c' ! i) = s_unique_msg_id c'" and "s_unique_msg_id c' \<noteq> 0"
    and "async_resp_cb (pending_ops c' ! i)
         = (case cb of Some g \<Rightarrow> Some g | None \<Rightarrow> default_async_cb c)"
    and "client_data (pending_ops c' ! i) = cd" and "client_inv c'"
proof -
  have ne: "s_unique_msg_id c + 1 \<noteq> 0"
    using assms(3) by (metis eq_neg_iff_add_eq_0)
  have inv: "client_inv c'"
    using change_inv [OF change_async [OF assms(1)]] assms(2,3) by (simp add: client_inv_def)
  obtain i where "i < length (pending_ops c)" "s_unique_msg_id c' = s_unique_msg_id c + 1"
      "pending_ops c' = (pending_ops c)[i := slot_for (pending_ops c ! i)
         (case cb of Some g \<Rightarrow> Some g | None \<Rightarrow> default_async_cb c) cd (s_unique_msg_id c + 1)]"
    using execute_async_cases [OF assms(1)] by (auto simp: find_slot_0_Some)
  then show thesis
    using that ne inv assms(2)
    by (simp add: client_inv_def ops_inv_def slot_for_def)
qed

text \<open>The slot of a command that was sent, after the client has gone on without its response.\<close>

lemma async_waits:
  assumes "client_inv c"
    and "uril_client_execute_command_async send l h sid mid req cb cd c = Ok (0, c1)"
    and "client_run send evs c1 c2"
    and "\<forall>ev \<in> set evs. \<not> answers (s_unique_msg_id c1) ev"
    and "unat (s_unique_msg_id c) + length evs + 1 < 2 ^ 32"
  obtains i where "i < URIL_MAX_PENDING_OPS" and "busy (pending_ops c2 ! i) = 1"
    and "op_unique_id (pending_ops c2 ! i) = s_unique_msg_id c1" and "s_unique_msg_id c1 \<noteq> 0"
    and "async_resp_cb (pending_ops c2 ! i)
         = (case cb of Some g \<Rightarrow> Some g | None \<Rightarrow> default_async_cb c)"
    and "client_data (pending_ops c2 ! i) = cd" and "client_inv c2"
proof -
  have "unat (- 1 :: u32) = 2 ^ 32 - 1" by (simp add: unsigned_minus_1_eq_mask mask_eq_exp_minus_1)
  with assms(5) have ne: "s_unique_msg_id c \<noteq> -1" by auto
  obtain i where i: "i < URIL_MAX_PENDING_OPS" "busy (pending_ops c1 ! i) = 1"
    "op_unique_id (pending_ops c1 ! i) = s_unique_msg_id c1" "s_unique_msg_id c1 \<noteq> 0"
    "async_resp_cb (pending_ops c1 ! i) = (case cb of Some g \<Rightarrow> Some g | None \<Rightarrow> default_async_cb c)"
    "client_data (pending_ops c1 ! i) = cd" "client_inv c1"
    using async_sent [OF assms(2,1) ne] by blast
  have bound: "unat (s_unique_msg_id c1) + length evs < 2 ^ 32"
    using table_change_counter [OF change_async [OF assms(2)]] assms(5) by simp
  have "pending_ops c2 ! i = pending_ops c1 ! i"
    using run_keeps_slot [OF assms(3) i(7) bound i(1)] i(2,3) assms(4) by simp
  moreover have "client_inv c2" using run_inv [OF assms(3) i(7) bound] by blast
  ultimately show thesis using that i by simp
qed

section \<open>Bytes to and from the socket\<close>

text \<open>The message of a command that was sent.\<close>

lemma async_wire:
  assumes "uril_client_execute_command_async (send_routine net) l h sid mid req cb cd c = Ok (0, c')"
    and "connected (link c)"
  obtains bs fd where "req = Some bs" and "length bs \<le> MAX_URIL_PAYLOAD_SIZE"
    and "wire (link c') = wire (link c) @ [(fd, request_msg sid mid (s_unique_msg_id c') bs)]"
    and "s_unique_msg_id c' = s_unique_msg_id c + 1"
proof -
  obtain bs ret where bs: "req = Some bs" "length bs \<le> MAX_URIL_PAYLOAD_SIZE"
    "send_routine net (request_msg sid mid (s_unique_msg_id c + 1) bs) (link c) = Ok (ret, link c')"
    "(0 :: u32) = word_of_int ret" "s_unique_msg_id c' = s_unique_msg_id c + 1"
    using execute_async_cases [OF assms(1)] by auto
  let ?m = "request_msg sid mid (s_unique_msg_id c + 1) bs"
  obtain fd where fd: "send_routine net ?m (link c)
      = Ok (if net fd then (0, (link c)\<lparr>wire := wire (link c) @ [(fd, ?m)]\<rparr>) else (-1, link c))"
    using send_connected [OF assms(2)] by blast
  have "net fd" using fd bs(3,4) by (auto split: if_splits)
  then have "wire (link c') = wire (link c) @ [(fd, ?m)]" using fd bs(3) by simp
  with that bs(1,2,5) show thesis by simp
qed

lemma request_msg_wf: "length bs \<le> MAX_URIL_PAYLOAD_SIZE \<Longrightarrow> msg_wf (request_msg sid mid uid bs)"
  by (simp add: request_msg_def msg_wf_def)

lemma upcall_of_image:
  assumes "msg_wf m" and "padding_wf pad"
  shows "run_upcalls l (receive_routine [Crecv_bytes (msg_image pad m)]) c
      = (if is_indication m \<noteq> 0 then Ok (snd (handle_receive_ind m c))
         else map_ok snd (handle_receive_rsp l m c))"
proof -
  have len: "length (msg_image pad m) = MSG_SIZE" using length_msg_image [OF assms] .
  have buf: "overlay (msg_image pad m) (replicate MSG_SIZE 255) = msg_image pad m"
    by (simp add: overlay_def len)
  have from_buf: "uril_protocol_msg_from_buffer (replicate MSG_SIZE 0) (msg_image pad m) MSG_SIZE
      = Ok (msg_image pad m)"
    using from_buffer_full [of "replicate MSG_SIZE 0" MSG_SIZE "msg_image pad m"] len by simp
  have msg: "msg_of_image (msg_image pad m) = m" using msg_of_image_image [OF assms, of "[]"] by simp
  show ?thesis
    by (cases "handle_receive_rsp l m c")
      (auto simp: len buf connector_on_receive_def from_buf msg)
qed

end
