(* ===== verification/Client_Sync.thy ===== *)
theory Client_Sync
  imports Client_Steps
begin

text \<open>
  Synchronous commands: the frame of the caller that the callback writes to, who else may write to
  it while the caller waits, and what is left of it when the caller has returned.
\<close>

section \<open>Frames\<close>

text \<open>The caller of the library passes pointers of his own, never a frame of the library.\<close>

fun user_event :: "client_event \<Rightarrow> bool" where
  "user_event (Cl_async h sid mid req cb cd) \<longleftrightarrow> (\<forall>f. cd \<noteq> Cd_frame f)"
| "user_event ev \<longleftrightarrow> True"

text \<open>The frames the table points at have existed.\<close>

definition frames_ok :: "'s client \<Rightarrow> bool" where
  "frames_ok c \<longleftrightarrow>
     (\<forall>i < length (pending_ops c). \<forall>f. client_data (pending_ops c ! i) = Cd_frame f \<longrightarrow> f < next_frame c)"

text \<open>Which slots get new client data in a step, and what it is.\<close>

definition data_change :: "client_ptr set \<Rightarrow> 's client \<Rightarrow> 's client \<Rightarrow> bool" where
  "data_change ds c c' \<longleftrightarrow>
     length (pending_ops c') = length (pending_ops c)
     \<and> (\<forall>i < length (pending_ops c). client_data (pending_ops c' ! i) = client_data (pending_ops c ! i)
          \<or> client_data (pending_ops c' ! i) \<in> ds)"

lemma async_data:
  assumes "uril_client_execute_command_async send l h sid mid req cb cd c = Ok (r, c')"
  shows "data_change {cd} c c' \<and> frames c' = frames c \<and> next_frame c' = next_frame c"
  using assms
  by (auto simp: uril_client_execute_command_async_def acquire_free_op_slot_def Let_def data_change_def
      outcome_simps nth_upd split: if_splits option.splits)

text \<open>What the start of a synchronous command does to the frames.\<close>

lemma sync_start_data:
  assumes "sync_start send l env h sid mid req buf c = Ok (r, c')"
  shows "data_change {Cd_frame (next_frame c)} c c' \<and> next_frame c \<le> next_frame c'
    \<and> (\<forall>f. f \<noteq> next_frame c \<longrightarrow> frames c' f = frames c f)
    \<and> (next_frame c' = next_frame c \<longrightarrow> pending_ops c' = pending_ops c)"
proof (cases "mutex_malloc env \<and> mutex_init_result env = 0 \<and> cond_malloc env \<and> cond_init_result env = 0")
  case True
  with assms show ?thesis
    by (auto simp: sync_start_def osal_init_def Let_def outcome_simps data_change_def
        dest!: async_data split: if_splits)
next
  case False
  with assms show ?thesis
    by (auto simp: sync_start_def sync_exit_def osal_init_def osal_destroy_def Let_def outcome_simps
        data_change_def split: if_splits osal_object.splits)
qed

lemma sync_start_waits:
  assumes "sync_start send l env h sid mid req buf c = Ok (Inr f, c')"
  shows "f = next_frame c \<and> next_frame c' = Suc f
    \<and> frames c' f = Some \<lparr>success = False, condition = False, resp = buf, resp_len = length buf,
                          waiting_op = False\<rparr>
    \<and> (\<exists>c1. pending_ops c1 = pending_ops c \<and> s_unique_msg_id c1 = s_unique_msg_id c \<and> link c1 = link c
         \<and> uril_client_execute_command_async send l h sid mid req (Some Cb_async_cb) (Cd_frame f) c1
           = Ok (0, c'))"
proof (cases "mutex_malloc env \<and> mutex_init_result env = 0 \<and> cond_malloc env \<and> cond_init_result env = 0")
  case True
  let ?c1 = "c\<lparr>next_frame := Suc (next_frame c), frames := (frames c)(next_frame c \<mapsto>
      \<lparr>success = False, condition = False, resp = buf, resp_len = length buf, waiting_op = False\<rparr>)\<rparr>"
  from True assms have "f = next_frame c" and r: "uril_client_execute_command_async send l h sid mid req
      (Some Cb_async_cb) (Cd_frame f) ?c1 = Ok (0, c')"
    by (auto simp: sync_start_def osal_init_def Let_def outcome_simps split: if_splits)
  with async_data [OF r] show ?thesis by (auto intro!: exI [of _ ?c1])
next
  case False
  with assms show ?thesis
    by (auto simp: sync_start_def sync_exit_def osal_init_def osal_destroy_def Let_def outcome_simps
        split: if_splits osal_object.splits)
qed

lemma data_change_refl: "pending_ops c' = pending_ops c \<Longrightarrow> data_change ds c c'"
  by (simp add: data_change_def)

lemma data_change_busy:
  "pending_ops c' = (pending_ops c)[i := (pending_ops c ! i)\<lparr>busy := b\<rparr>] \<Longrightarrow> data_change ds c c'"
  by (auto simp: data_change_def nth_upd)

text \<open>New client data in a step is the caller's own pointer or a frame that did not exist before.\<close>

definition fresh_data :: "nat \<Rightarrow> client_ptr set" where
  "fresh_data k = {d. \<forall>f < k. d \<noteq> Cd_frame f}"

lemma async_cb_frames:
  "async_cb data cd c = Ok c' \<Longrightarrow>
     next_frame c' = next_frame c \<and> (\<forall>f. frames c' f = None \<longleftrightarrow> frames c f = None)
     \<and> (\<forall>f. cd \<noteq> Cd_frame f \<longrightarrow> frames c' f = frames c f)"
  by (auto simp: async_cb_def split: client_ptr.splits option.splits if_splits)

lemma response_frames:
  assumes "handle_receive_rsp l m c = Ok (r, c')"
  shows "next_frame c' = next_frame c \<and> (\<forall>f. frames c' f = None \<longleftrightarrow> frames c f = None)
    \<and> (\<forall>f. (\<forall>i. lookup_pending_op (unique_id m) c = Some i
              \<longrightarrow> client_data (pending_ops c ! i) \<noteq> Cd_frame f) \<longrightarrow> frames c' f = frames c f)"
  using assms
  by (auto simp: handle_receive_rsp_def invoke_cb_def outcome_simps dest!: async_cb_frames
      split: if_splits option.splits uril_client_async_cb.splits)

lemma response_data:
  assumes "handle_receive_rsp l m c = Ok (r, c')"
  shows "data_change ds c c'"
  using response_table [OF assms] data_change_refl data_change_busy by blast

lemma step_data:
  assumes "client_step send ev c c'" and "user_event ev" and "frames_ok c"
  shows "data_change (fresh_data (next_frame c)) c c' \<and> frames_ok c' \<and> next_frame c \<le> next_frame c'"
  using assms(1)
proof cases
  case (async h sid mid req cb cd r)
  with async_data [OF async(2)] assms(2,3) show ?thesis
    by (fastforce simp: data_change_def fresh_data_def frames_ok_def)
next
  case (sync l env h sid mid req buf r)
  from sync_start_data [OF sync(2)]
  have d: "data_change {Cd_frame (next_frame c)} c c'" "next_frame c \<le> next_frame c'"
    "next_frame c' = next_frame c \<longrightarrow> pending_ops c' = pending_ops c" by blast+
  show ?thesis
  proof (cases "next_frame c' = next_frame c")
    case True
    with d assms(3) show ?thesis by (simp add: frames_ok_def data_change_refl)
  next
    case False
    with d(2) have "next_frame c < next_frame c'" by simp
    with d(1) assms(3) show ?thesis by (fastforce simp: data_change_def fresh_data_def frames_ok_def)
  qed
next
  case (response l m r)
  with response_data [OF response(2)] response_frames [OF response(2)] assms(3) show ?thesis
    by (fastforce simp: data_change_def frames_ok_def)
qed (use assms(3) in \<open>auto simp: frames_ok_def data_change_def sync_check_def sync_return_def
    handle_receive_ind_def uril_client_release_def Let_def split: option.splits if_splits\<close>)

text \<open>
  While a command waits in frame \<open>f\<close> for the response to its slot \<open>i\<close>, the slot is the only one
  that leads to the frame, and the frame is as it was at the start, but for the note that the
  command is waiting.
\<close>

definition waits :: "nat \<Rightarrow> nat \<Rightarrow> async_params \<Rightarrow> 's client \<Rightarrow> bool" where
  "waits f i params c \<longleftrightarrow>
     f < next_frame c \<and> i < length (pending_ops c) \<and> busy (pending_ops c ! i) \<noteq> 0
     \<and> (\<forall>j < length (pending_ops c). client_data (pending_ops c ! j) = Cd_frame f \<longrightarrow> j = i)
     \<and> map_option (\<lambda>q. q\<lparr>waiting_op := False\<rparr>) (frames c f) = Some params"

lemma step_frame:
  assumes "client_step send ev c c'" and "waits f i params c" and "ev \<noteq> Cl_return f"
    and "\<not> answers (op_unique_id (pending_ops c ! i)) ev"
  shows "map_option (\<lambda>q. q\<lparr>waiting_op := False\<rparr>) (frames c' f) = Some params"
  using assms(1)
proof cases
  case (async h sid mid req cb cd r)
  with async_data [OF async(2)] assms(2) show ?thesis by (simp add: waits_def)
next
  case (sync l env h sid mid req buf r)
  with sync_start_data [OF sync(2)] assms(2) show ?thesis by (auto simp: waits_def)
next
  case (response l m r)
  have "client_data (pending_ops c ! j) \<noteq> Cd_frame f" if "lookup_pending_op (unique_id m) c = Some j" for j
    using that assms(2,4) response(1) by (auto simp: lookup_pending_op_def find_slot_0_Some waits_def)
  with response_frames [OF response(2)] assms(2) show ?thesis by (auto simp: waits_def)
qed (use assms(2,3) in \<open>auto simp: waits_def sync_check_def sync_return_def handle_receive_ind_def
    uril_client_release_def Let_def split: option.splits if_splits\<close>)

lemma step_waits:
  assumes "client_step send ev c c'" and "waits f i params c" and "ev \<noteq> Cl_return f"
    and "\<not> answers (op_unique_id (pending_ops c ! i)) ev" and "user_event ev" and "frames_ok c"
  shows "waits f i params c' \<and> pending_ops c' ! i = pending_ops c ! i"
proof -
  have i: "i < length (pending_ops c)" "busy (pending_ops c ! i) \<noteq> 0" "f < next_frame c"
    using assms(2) by (simp_all add: waits_def)
  have slot: "pending_ops c' ! i = pending_ops c ! i" by (rule step_keeps_slot [OF assms(1) i(1,2) assms(4)])
  have d: "data_change (fresh_data (next_frame c)) c c'" "next_frame c \<le> next_frame c'"
    using step_data [OF assms(1,5,6)] by simp_all
  have "j = i" if "j < length (pending_ops c')" "client_data (pending_ops c' ! j) = Cd_frame f" for j
  proof -
    have "client_data (pending_ops c ! j) = Cd_frame f"
      using d(1) that i(3) by (auto simp: data_change_def fresh_data_def)
    with that(1) d(1) assms(2) show ?thesis by (simp add: waits_def data_change_def)
  qed
  moreover have "f < next_frame c'" "i < length (pending_ops c')" "busy (pending_ops c' ! i) \<noteq> 0"
    using d i slot by (simp_all add: data_change_def)
  ultimately show ?thesis using step_frame [OF assms(1-4)] slot unfolding waits_def by blast
qed

lemma run_waits:
  assumes "client_run send evs c c'" and "waits f i params c" and "frames_ok c"
    and "\<forall>ev \<in> set evs. user_event ev \<and> ev \<noteq> Cl_return f \<and> \<not> answers (op_unique_id (pending_ops c ! i)) ev"
  shows "waits f i params c' \<and> frames_ok c' \<and> pending_ops c' ! i = pending_ops c ! i"
  using assms
proof (induction rule: client_run.induct)
  case (run_more evs c c1 ev c2)
  then have c1: "waits f i params c1" "frames_ok c1" "pending_ops c1 ! i = pending_ops c ! i" by simp_all
  have ev: "user_event ev" "ev \<noteq> Cl_return f" "\<not> answers (op_unique_id (pending_ops c1 ! i)) ev"
    using run_more.prems(3) c1(3) by simp_all
  show ?case
    using step_waits [OF run_more.hyps(2) c1(1) ev(2,3,1) c1(2)] step_data [OF run_more.hyps(2) ev(1) c1(2)]
      c1(3) by simp
qed simp

text \<open>A frame that has been left does not come back.\<close>

lemma step_dead_frame:
  assumes "client_step send ev c c'" and "f < next_frame c"
    and "frames c f = None \<or> ev = Cl_return f"
  shows "frames c' f = None \<and> f < next_frame c'"
  using assms(1)
proof cases
  case (async h sid mid req cb cd r)
  with async_data [OF async(2)] assms(2,3) show ?thesis by simp
next
  case (sync l env h sid mid req buf r)
  with sync_start_data [OF sync(2)] assms(2,3) show ?thesis by auto
next
  case (response l m r)
  with response_frames [OF response(2)] assms(2,3) show ?thesis by simp
qed (use assms(2,3) in \<open>auto simp: sync_check_def sync_return_def handle_receive_ind_def
    uril_client_release_def Let_def split: option.splits if_splits\<close>)

lemma step_next_frame:
  assumes "client_step send ev c c'"
  shows "next_frame c \<le> next_frame c'"
  using assms
proof cases
  case (async h sid mid req cb cd r)
  with async_data [OF async(2)] show ?thesis by simp
next
  case (sync l env h sid mid req buf r)
  with sync_start_data [OF sync(2)] show ?thesis by simp
next
  case (response l m r)
  with response_frames [OF response(2)] show ?thesis by simp
qed (auto simp: sync_check_def sync_return_def handle_receive_ind_def
    uril_client_release_def Let_def split: option.splits if_splits)

lemma run_dead_frame:
  assumes "client_run send evs c c'" and "f < next_frame c" and "Cl_return f \<in> set evs"
  shows "frames c' f = None"
proof -
  have "f < next_frame c' \<and> (Cl_return f \<in> set evs \<longrightarrow> frames c' f = None)"
    using assms(1,2)
  proof (induction rule: client_run.induct)
    case (run_more evs c c1 ev c2)
    then have "f < next_frame c1" "Cl_return f \<in> set evs \<longrightarrow> frames c1 f = None" by simp_all
    with step_dead_frame [OF run_more.hyps(2)] step_next_frame [OF run_more.hyps(2)] show ?case by auto
  qed simp
  with assms(3) show ?thesis by simp
qed

section \<open>A command that waits\<close>

lemma sync_start_slot:
  assumes "sync_start send l env h sid mid req buf c = Ok (Inr f, c')" and "client_inv c"
    and "s_unique_msg_id c \<noteq> -1" and "frames_ok c"
  obtains i where "i < URIL_MAX_PENDING_OPS" and "busy (pending_ops c' ! i) = 1"
    and "op_unique_id (pending_ops c' ! i) = s_unique_msg_id c'" and "s_unique_msg_id c' \<noteq> 0"
    and "async_resp_cb (pending_ops c' ! i) = Some Cb_async_cb"
    and "client_data (pending_ops c' ! i) = Cd_frame f" and "client_inv c'" and "frames_ok c'"
    and "waits f i \<lparr>success = False, condition = False, resp = buf, resp_len = length buf,
                     waiting_op = False\<rparr> c'"
proof -
  let ?p = "\<lparr>success = False, condition = False, resp = buf, resp_len = length buf, waiting_op = False\<rparr>"
  obtain c1 where f: "f = next_frame c" "next_frame c' = Suc f" "frames c' f = Some ?p"
    and c1: "pending_ops c1 = pending_ops c" "s_unique_msg_id c1 = s_unique_msg_id c"
    and async: "uril_client_execute_command_async send l h sid mid req (Some Cb_async_cb) (Cd_frame f) c1
      = Ok (0, c')"
    using sync_start_waits [OF assms(1)] by blast
  have inv1: "client_inv c1" "s_unique_msg_id c1 \<noteq> -1" using assms(2,3) c1 by (simp_all add: client_inv_def)
  obtain i where i: "i < URIL_MAX_PENDING_OPS" "busy (pending_ops c' ! i) = 1"
      "op_unique_id (pending_ops c' ! i) = s_unique_msg_id c'" "s_unique_msg_id c' \<noteq> 0"
      "async_resp_cb (pending_ops c' ! i) = Some Cb_async_cb"
      "client_data (pending_ops c' ! i) = Cd_frame f" "client_inv c'"
    using async_sent [OF async inv1] by simp metis
  obtain k where k: "pending_ops c' = (pending_ops c)[k := slot_for (pending_ops c ! k)
      (Some Cb_async_cb) (Cd_frame f) (s_unique_msg_id c + 1)]"
    using execute_async_cases [OF async] c1 by auto
  have old: "client_data (pending_ops c ! j) \<noteq> Cd_frame f" if "j < length (pending_ops c)" for j
    using assms(4) that f(1) by (fastforce simp: frames_ok_def)
  have len: "length (pending_ops c') = length (pending_ops c)" using k by simp
  have il: "i < length (pending_ops c)" using i(1,7) len by (simp add: client_inv_def ops_inv_def)
  then have "i = k" using old [of i] i(6) k by (auto simp: nth_upd split: if_splits)
  then have "waits f i ?p c'"
    using f(2,3) i(2) il old k by (auto simp: waits_def nth_upd split: if_splits)
  moreover have "frames_ok c'"
    using assms(4) f(1,2) k by (auto simp: frames_ok_def nth_upd slot_for_def split: if_splits intro: less_SucI)
  ultimately show thesis using that i by blast
qed

end
