(* ===== verification/Client_Properties.thy ===== *)
theory Client_Properties
  imports Client_Steps
begin

text \<open>
  What the client library promises its caller: initialisation with a bounded number of attempts,
  the message a command puts on the wire, responses that reach the callback of their command,
  synchronous commands; and the ends that are left loose: slots that no response frees, responses
  that come twice or too late, and the objects of the error branches.
\<close>

section \<open>Initialisation\<close>

definition good_env :: "connect_env \<Rightarrow> bool" where
  "good_env env \<longleftrightarrow>
     ce_sock env \<ge> 0 \<and> ce_malloc env \<and> ce_connect env \<and> ce_setsockopt env \<and> ce_thread env"

lemma connect_good: "fst (connect_routine env s) = 0 \<longleftrightarrow> good_env env"
  by (simp add: connect_succeeds_iff good_env_def)

lemma connect_loop_good:
  "fst (connect_loop connect_routine envs k n s) \<longleftrightarrow> (\<exists>j < n. good_env (envs (k + j)))"
proof (induction n arbitrary: k s)
  case (Suc n)
  obtain r s' where r: "connect_routine (envs k) s = (r, s')" by (cases "connect_routine (envs k) s")
  then have g: "r = 0 \<longleftrightarrow> good_env (envs k)" using connect_good [of "envs k" s] by simp
  have "(\<exists>j < Suc n. good_env (envs (k + j))) \<longleftrightarrow> good_env (envs k) \<or> (\<exists>j < n. good_env (envs (Suc k + j)))"
    by (auto simp: Ex_less_Suc2)
  with r g Suc.IH [of "Suc k" s'] show ?case by simp
qed simp

lemma connect_loop_connected:
  "connect_loop connect_routine envs k n s = (True, s') \<Longrightarrow> connected s'"
  by (induction n arbitrary: k s) (auto split: if_splits prod.splits dest: connect_connected)

text \<open>
  Initialisation returns 0 exactly when the handle pointer is valid, there is a connector, one of
  the first twenty connects goes through all its steps, and the handle can be allocated; it then has a running
  connection and a fresh handle, and an empty table.
\<close>

lemma init_attempts:
  "(\<exists>c'. uril_client_init connect_routine l envs hv co icb dcb c = (0, Some (s_unique_handle c + 1), c')
       \<and> connected (link c') \<and> handle c' = s_unique_handle c + 1 \<and> initialized c' = 1
       \<and> pending_ops c' = replicate 16 zero_op)
   \<longleftrightarrow> hv \<and> co \<and> (\<exists>k < 20. good_env (envs k)) \<and> init_lock l"
proof -
  obtain ok s where loop: "connect_loop connect_routine envs 0 URIL_CONNECT_ATTEMPTS_COUNT (link c) = (ok, s)"
    by (cases "connect_loop connect_routine envs 0 URIL_CONNECT_ATTEMPTS_COUNT (link c)")
  have ok: "ok \<longleftrightarrow> (\<exists>k < 20. good_env (envs k))"
    using connect_loop_good [of envs 0 URIL_CONNECT_ATTEMPTS_COUNT "link c"] loop
    by (simp add: URIL_CONNECT_ATTEMPTS_COUNT_def)
  have up: "ok \<Longrightarrow> connected s" using connect_loop_connected loop by (cases ok) auto
  show ?thesis
    unfolding ok [symmetric]
    by (cases hv; cases co; cases ok; cases "init_lock l")
      (simp_all add: uril_client_init_def Let_def loop up clear_context_def URIL_MAX_PENDING_OPS_def)
qed

text \<open>A client to evaluate: connected at the first attempt.\<close>

definition sample_env :: connect_env where
  "sample_env = \<lparr>ce_sock = 5, ce_malloc = True, ce_connect = True, ce_setsockopt = True, ce_thread = True\<rparr>"

definition sample_link :: service_connector_t where
  "sample_link = snd (connect_routine sample_env unix_service_connector_create)"

definition sample_client :: "service_connector_t client" where
  "sample_client = (new_client sample_link)\<lparr>handle := 1, initialized := 1, s_unique_handle := 1\<rparr>"

lemma sample_connected: "connected sample_link"
  by (simp add: sample_link_def connect_routine_def sample_env_def connected_def Let_def)

lemma sample_inv: "client_inv sample_client"
  by (simp add: sample_client_def new_client_def client_inv_def ops_inv_zero)

section \<open>Commands\<close>

text \<open>
  A command that succeeds has put exactly one message on the socket: a request with the next
  unique id, the caller's SIM id and message id, the payload length in 16 bits, and the payload
  followed by zeros.
\<close>

lemma command_on_the_wire:
  assumes "uril_client_execute_command_async (send_routine net) l h sid mid req cb cd c = Ok (0, c')"
    and "connected (link c)"
  shows "\<exists>bs fd m. req = Some bs \<and> wire (link c') = wire (link c) @ [(fd, m)] \<and> msg_wf m
    \<and> is_indication m = 0 \<and> unique_id m = s_unique_msg_id c + 1 \<and> sim_id m = sid \<and> msg_id m = mid
    \<and> unat (plen m) = length bs \<and> payload m = bs @ replicate (MAX_URIL_PAYLOAD_SIZE - length bs) 0"
proof -
  obtain bs fd where bs: "req = Some bs" "length bs \<le> MAX_URIL_PAYLOAD_SIZE"
    "wire (link c') = wire (link c) @ [(fd, request_msg sid mid (s_unique_msg_id c') bs)]"
    "s_unique_msg_id c' = s_unique_msg_id c + 1"
    using async_wire [OF assms] .
  moreover have "unat (of_nat (length bs) :: u16) = length bs"
    using bs(2) by (simp add: unsigned_of_nat take_bit_nat_eq_self MAX_URIL_PAYLOAD_SIZE_def)
  moreover have "overlay bs zero_payload = bs @ replicate (MAX_URIL_PAYLOAD_SIZE - length bs) 0"
    by (simp add: overlay_def zero_payload_def)
  ultimately show ?thesis
    using request_msg_wf [OF bs(2), of sid mid "s_unique_msg_id c'"]
    by (intro exI [of _ bs] exI [of _ fd] exI [of _ "request_msg sid mid (s_unique_msg_id c') bs"])
      (simp add: request_msg_def)
qed

lemma sample_send:
  "\<exists>s'. send_routine (\<lambda>s. True) m sample_link = Ok (0, s')"
  using send_connected [OF sample_connected, of "\<lambda>s. True" m] by auto

lemma sample_async:
  assumes "length bs \<le> MAX_URIL_PAYLOAD_SIZE"
  shows "\<exists>c'. uril_client_execute_command_async (send_routine (\<lambda>s. True)) all_locks 1 sid mid (Some bs) cb cd
      sample_client = Ok (0, c') \<and> s_unique_msg_id c' = 1 \<and> handle c' = 1"
proof -
  obtain s' where "send_routine (\<lambda>s. True) (request_msg sid mid 1 bs) sample_link = Ok (0, s')"
    using sample_send by blast
  then show ?thesis
    using assms
    by (simp add: uril_client_execute_command_async_def sample_client_def new_client_def all_locks_def
        acquire_free_op_slot_def URIL_MAX_PENDING_OPS_def eval_nat_numeral zero_op_def Let_def)
qed

lemma command_on_the_wire_witness:
  "\<exists>c' fd m. uril_client_execute_command_async (send_routine (\<lambda>s. True)) all_locks 1 0 0x0500
        (Some [4, 0, 0, 0]) None Cd_null sample_client = Ok (0, c')
     \<and> wire (link c') = wire sample_link @ [(fd, m)] \<and> unique_id m = 1 \<and> take 4 (payload m) = [4, 0, 0, 0]"
proof -
  obtain c' where c': "uril_client_execute_command_async (send_routine (\<lambda>s. True)) all_locks 1 0 0x0500
        (Some [4, 0, 0, 0]) None Cd_null sample_client = Ok (0, c')"
    using sample_async [where bs = "[4, 0, 0, 0]" and sid = 0 and mid = "0x0500" and cb = None and cd = Cd_null]
    by (auto simp: MAX_URIL_PAYLOAD_SIZE_def)
  have "connected (link sample_client)" using sample_connected by (simp add: sample_client_def new_client_def)
  from command_on_the_wire [OF c' this] c' show ?thesis
    by (auto simp: sample_client_def new_client_def)
qed

text \<open>
  C31: What a command can come to, with a running connection: it returns 0 exactly when the library is
  initialised, the handle is the current one, there is a payload that fits, a slot is free and the
  socket takes the message; a payload that is too long is copied past the end of the message; in
  every other case, a command without payload included, it returns -1 and nothing is sent.
\<close>

lemma command_outcome:
  assumes "connected (link c)"
    and res_def: "uril_client_execute_command_async (send_routine (\<lambda>_. sent)) all_locks h sid mid req cb cd c = res"
  shows "((\<exists>c'. res = Ok (0, c')) \<longleftrightarrow> initialized c \<noteq> 0 \<and> h = handle c
       \<and> (\<exists>bs. req = Some bs \<and> length bs \<le> MAX_URIL_PAYLOAD_SIZE)
       \<and> (\<exists>x \<in> set (pending_ops c). busy x = 0) \<and> sent)
    \<and> (\<forall>e. res = Fault e \<longleftrightarrow> initialized c \<noteq> 0 \<and> h = handle c
       \<and> (\<exists>bs. req = Some bs \<and> length bs > MAX_URIL_PAYLOAD_SIZE) \<and> e = Out_of_bounds_write)
    \<and> (\<forall>r c'. res = Ok (r, c') \<and> r \<noteq> 0 \<longrightarrow> r = -1 \<and> link c' = link c)"
proof -
  have send: "\<exists>fd. send_routine (\<lambda>_. sent) m (link c)
      = Ok (if sent then (0, (link c)\<lparr>wire := wire (link c) @ [(fd, m)]\<rparr>) else (-1, link c))" for m
    using send_connected [OF assms(1), of "\<lambda>_. sent" m] by auto
  consider (refused) "initialized c = 0 \<or> h \<noteq> handle c \<or> req = None"
    | (long) bs where "initialized c \<noteq> 0" "h = handle c" "req = Some bs" "length bs > MAX_URIL_PAYLOAD_SIZE"
    | (full) bs where "initialized c \<noteq> 0" "h = handle c" "req = Some bs" "length bs \<le> MAX_URIL_PAYLOAD_SIZE"
        "find_slot (\<lambda>x. busy x = 0) (pending_ops c) 0 = None"
    | (slot) bs i where "initialized c \<noteq> 0" "h = handle c" "req = Some bs" "length bs \<le> MAX_URIL_PAYLOAD_SIZE"
        "find_slot (\<lambda>x. busy x = 0) (pending_ops c) 0 = Some i"
    by (metis not_le option.exhaust)
  then show ?thesis
  proof cases
    case refused
    then show ?thesis by (auto simp: res_def [symmetric] uril_client_execute_command_async_def)
  next
    case long
    then show ?thesis by (auto simp: res_def [symmetric] uril_client_execute_command_async_def)
  next
    case full
    then have "res = Ok (-1, c\<lparr>s_unique_msg_id := s_unique_msg_id c + 1\<rparr>)"
      by (simp add: res_def [symmetric] uril_client_execute_command_async_def acquire_free_op_slot_def
          Let_def all_locks_def)
    with full show ?thesis by (auto simp: find_slot_None)
  next
    case slot
    then have "pending_ops c ! i \<in> set (pending_ops c)" "busy (pending_ops c ! i) = 0"
      by (simp_all add: find_slot_0_Some)
    with slot send [of "request_msg sid mid (s_unique_msg_id c + 1) bs"] show ?thesis
      by (cases sent) (auto simp: res_def [symmetric] uril_client_execute_command_async_def
          acquire_free_op_slot_def Let_def all_locks_def)
  qed
qed

lemma command_outcome_witness:
  "(\<exists>c'. uril_client_execute_command_async (send_routine (\<lambda>_. True)) all_locks 1 0 0x0500 (Some [4]) None
        Cd_null sample_client = Ok (0, c'))
   \<and> uril_client_execute_command_async (send_routine (\<lambda>_. True)) all_locks 1 0 0x0500
        (Some (replicate 1025 0)) None Cd_null sample_client = Fault Out_of_bounds_write"
proof -
  have c: "connected (link sample_client)"
    using sample_connected by (simp add: sample_client_def new_client_def)
  have "initialized sample_client \<noteq> 0 \<and> handle sample_client = 1
      \<and> zero_op \<in> set (pending_ops sample_client) \<and> busy zero_op = 0"
    by (simp add: sample_client_def new_client_def URIL_MAX_PENDING_OPS_def zero_op_def)
  then have one: "\<exists>x \<in> set (pending_ops sample_client). busy x = 0" by blast
  have idle: "initialized sample_client \<noteq> 0" "handle sample_client = 1"
    by (simp_all add: sample_client_def new_client_def)
  have "\<exists>c'. uril_client_execute_command_async (send_routine (\<lambda>_. True)) all_locks 1 0 0x0500 (Some [4]) None
        Cd_null sample_client = Ok (0, c')"
    by (rule iffD2 [OF conjunct1 [OF command_outcome [OF c refl]]]) (simp add: idle one MAX_URIL_PAYLOAD_SIZE_def)
  moreover have "uril_client_execute_command_async (send_routine (\<lambda>_. True)) all_locks 1 0 0x0500
        (Some (replicate 1025 0)) None Cd_null sample_client = Fault Out_of_bounds_write"
    by (rule iffD2 [OF spec [OF conjunct1 [OF conjunct2 [OF command_outcome [OF c refl]]]]])
      (simp add: idle MAX_URIL_PAYLOAD_SIZE_def)
  ultimately show ?thesis by blast
qed

section \<open>Responses\<close>

text \<open>
  A response reaches the callback of its command: after a command that succeeded, whatever the
  client does and receives next short of a response with that unique id, the first such response
  calls the command's callback, once, with its own client data, and frees the slot.
\<close>

lemma response_reaches_callback:
  assumes "client_inv c"
    and "uril_client_execute_command_async send l h sid mid req cb cd c = Ok (0, c1)"
    and "(case cb of Some g \<Rightarrow> Some g | None \<Rightarrow> default_async_cb c) = Some (Cb_user n)"
    and "client_run send evs c1 c2"
    and "\<forall>ev \<in> set evs. \<not> answers (s_unique_msg_id c1) ev"
    and "unat (s_unique_msg_id c) + length evs + 1 < 2 ^ 32"
    and "unique_id m = s_unique_msg_id c1"
  shows "\<exists>c3 i. handle_receive_rsp all_locks m c2 = Ok (0, c3)
    \<and> user_calls c3 = user_calls c2 @ [Resp_call n (handle c2) (sim_id m) (msg_id m) (payload m) cd]
    \<and> i < 16 \<and> busy (pending_ops c2 ! i) = 1 \<and> busy (pending_ops c3 ! i) = 0
    \<and> (\<forall>j < 16. j \<noteq> i \<longrightarrow> pending_ops c3 ! j = pending_ops c2 ! j)"
proof -
  obtain i where i: "i < URIL_MAX_PENDING_OPS" "busy (pending_ops c2 ! i) = 1"
    "op_unique_id (pending_ops c2 ! i) = s_unique_msg_id c1" "s_unique_msg_id c1 \<noteq> 0"
    "async_resp_cb (pending_ops c2 ! i) = Some (Cb_user n)" "client_data (pending_ops c2 ! i) = cd"
    and inv2: "client_inv c2"
    using async_waits [OF assms(1,2,4,5,6)] assms(3) by auto
  then have len: "length (pending_ops c2) = 16"
    by (simp add: client_inv_def ops_inv_def URIL_MAX_PENDING_OPS_def)
  let ?c = "c2\<lparr>pending_ops := (pending_ops c2)[i := (pending_ops c2 ! i)\<lparr>busy := 0\<rparr>]\<rparr>"
  have "handle_receive_rsp all_locks m c2
      = Ok (0, ?c\<lparr>user_calls := user_calls c2 @
          [Resp_call n (handle c2) (sim_id m) (msg_id m) (payload m) cd]\<rparr>)"
    using response_dispatch [OF inv2 i(1), of m "Cb_user n"] i assms(7)
    by (simp add: invoke_cb_def)
  then show ?thesis
    using i(1,2) len
    by (intro exI [of _ "?c\<lparr>user_calls := user_calls c2 @
          [Resp_call n (handle c2) (sim_id m) (msg_id m) (payload m) cd]\<rparr>"] exI [of _ i])
      (simp add: URIL_MAX_PENDING_OPS_def)
qed

definition reply :: "u32 \<Rightarrow> uril_protocol_msg_t" where
  "reply uid = \<lparr>is_indication = 0, unique_id = uid, sim_id = 0, msg_id = 0x0500, plen = 4,
     payload = replicate MAX_URIL_PAYLOAD_SIZE 9\<rparr>"

lemma response_reaches_callback_witness:
  "\<exists>c1 c2 c3. uril_client_execute_command_async (send_routine (\<lambda>s. True)) all_locks 1 0 0x0500
        (Some [4, 0, 0, 0]) (Some (Cb_user 3)) (Cd_user 8) sample_client = Ok (0, c1)
     \<and> client_run (send_routine (\<lambda>s. True)) [Cl_release 0] c1 c2
     \<and> handle_receive_rsp all_locks (reply 1) c2 = Ok (0, c3)
     \<and> user_calls c3 = user_calls c2 @
         [Resp_call 3 (handle c2) 0 0x0500 (replicate MAX_URIL_PAYLOAD_SIZE 9) (Cd_user 8)]"
proof -
  obtain c1 where c1: "uril_client_execute_command_async (send_routine (\<lambda>s. True)) all_locks 1 0 0x0500
        (Some [4, 0, 0, 0]) (Some (Cb_user 3)) (Cd_user 8) sample_client = Ok (0, c1)"
    "s_unique_msg_id c1 = 1"
    using sample_async [where bs = "[4, 0, 0, 0]" and sid = 0 and mid = "0x0500" and cb = "Some (Cb_user 3)"
        and cd = "Cd_user 8"]
    by (auto simp: MAX_URIL_PAYLOAD_SIZE_def)
  obtain r c2 where "uril_client_release 0 c1 = (r, c2)" by (cases "uril_client_release 0 c1")
  then have run: "client_run (send_routine (\<lambda>s. True)) [Cl_release 0] c1 c2"
    using run_more [OF run_none client_step.release, of "0" c1 r c2] by simp
  have "s_unique_msg_id sample_client = 0" by (simp add: sample_client_def new_client_def)
  with response_reaches_callback [OF sample_inv c1(1) _ run, of 3 "reply 1"] c1(2) have
    "\<exists>c3 i. handle_receive_rsp all_locks (reply 1) c2 = Ok (0, c3)
      \<and> user_calls c3 = user_calls c2 @
         [Resp_call 3 (handle c2) (sim_id (reply 1)) (msg_id (reply 1)) (payload (reply 1)) (Cd_user 8)]"
    by (auto simp: reply_def)
  then show ?thesis using c1(1) run by (auto simp: reply_def)
qed

text \<open>
  The lookup ignores whether a slot is busy: a second response with the unique id of a command that
  was already answered calls the same callback again.
\<close>

lemma duplicate_response_calls_again:
  assumes "client_inv c" and "i < 16" and "unique_id m \<noteq> 0"
    and "op_unique_id (pending_ops c ! i) = unique_id m"
    and "async_resp_cb (pending_ops c ! i) = Some (Cb_user n)"
  shows "\<exists>c1 c2 call. handle_receive_rsp all_locks m c = Ok (0, c1) \<and> busy (pending_ops c1 ! i) = 0
    \<and> handle_receive_rsp all_locks m c1 = Ok (0, c2)
    \<and> user_calls c2 = user_calls c @ [call, call]"
proof -
  have i: "i < URIL_MAX_PENDING_OPS" using assms(2) by (simp add: URIL_MAX_PENDING_OPS_def)
  have len: "length (pending_ops c) = 16"
    using assms(1) by (simp add: client_inv_def ops_inv_def URIL_MAX_PENDING_OPS_def)
  let ?call = "Resp_call n (handle c) (sim_id m) (msg_id m) (payload m) (client_data (pending_ops c ! i))"
  let ?c1 = "c\<lparr>pending_ops := (pending_ops c)[i := (pending_ops c ! i)\<lparr>busy := 0\<rparr>],
              user_calls := user_calls c @ [?call]\<rparr>"
  have r1: "handle_receive_rsp all_locks m c = Ok (0, ?c1)"
    using response_dispatch [OF assms(1) i assms(3,4,5)] by (simp add: invoke_cb_def)
  have inv: "client_inv ?c1" using assms(1) by (simp add: client_inv_def ops_inv_busy)
  let ?c2 = "?c1\<lparr>user_calls := user_calls ?c1 @ [?call]\<rparr>"
  have "handle_receive_rsp all_locks m ?c1 = Ok (0, ?c2)"
    using response_dispatch [OF inv i assms(3), of "Cb_user n"] assms(2,4,5) len
    by (simp add: invoke_cb_def)
  with r1 show ?thesis
    using assms(2) len by (intro exI [of _ ?c1] exI [of _ ?c2] exI [of _ ?call]) simp
qed

definition answered_slot :: "service_connector_t client" where
  "answered_slot = sample_client\<lparr>s_unique_msg_id := 1,
     pending_ops := (pending_ops sample_client)[0 := slot_for zero_op (Some (Cb_user 3)) (Cd_user 8) 1]\<rparr>"

lemma answered_slot_inv: "client_inv answered_slot"
  using ops_inv_new [OF ops_inv_zero, where newest = 0 and newest' = 1 and i = 0 and x = "zero_op\<lparr>busy := 1\<rparr>" and f = "Some (Cb_user 3)"
      and cd = "Cd_user 8"]
  by (simp add: answered_slot_def sample_client_def new_client_def client_inv_def slot_for_def)

lemma duplicate_response_calls_again_witness:
  "\<exists>c1 c2 call. handle_receive_rsp all_locks (reply 1) answered_slot = Ok (0, c1)
    \<and> handle_receive_rsp all_locks (reply 1) c1 = Ok (0, c2)
    \<and> user_calls c2 = [call, call]"
proof -
  have "pending_ops answered_slot ! 0 = slot_for zero_op (Some (Cb_user 3)) (Cd_user 8) 1"
    "user_calls answered_slot = []"
    by (simp_all add: answered_slot_def sample_client_def new_client_def URIL_MAX_PENDING_OPS_def)
  with duplicate_response_calls_again [OF answered_slot_inv, of 0 "reply 1" 3] show ?thesis
    by (fastforce simp: reply_def slot_for_def)
qed

text \<open>
  C32: What the receive routine hands on is what was sent: the image of a whole message leads to the
  indication or response handler with that message, and a shorter read is dropped.
\<close>

lemma received_bytes_handled:
  assumes "msg_wf m" and "padding_wf pad"
  shows "run_upcalls l (receive_routine [Crecv_bytes (msg_image pad m)]) c
      = (if is_indication m \<noteq> 0 then Ok (snd (handle_receive_ind m c))
         else map_ok snd (handle_receive_rsp l m c))
    \<and> (\<forall>k < MSG_SIZE. run_upcalls l (receive_routine [Crecv_bytes (take k (msg_image pad m))]) c = Ok c)"
proof -
  have "length (msg_image pad m) = MSG_SIZE" using length_msg_image [OF assms] .
  then show ?thesis using upcall_of_image [OF assms] by (auto simp: connector_on_receive_def)
qed

lemma received_bytes_handled_witness:
  "run_upcalls all_locks (receive_routine [Crecv_bytes (msg_image zero_padding (reply 1))]) answered_slot
   = map_ok snd (handle_receive_rsp all_locks (reply 1) answered_slot)"
  using received_bytes_handled [of "reply 1" zero_padding all_locks answered_slot]
  by (simp add: reply_def msg_wf_def padding_wf_def zero_padding_def)

section \<open>Slots\<close>

text \<open>
  A command whose send fails keeps its slot: the caller gets the error, the slot stays busy with a
  unique id the service never saw, and nothing but a response with that id would free it.
\<close>

lemma failed_send_keeps_slot:
  assumes "initialized c \<noteq> 0" and "length bs \<le> MAX_URIL_PAYLOAD_SIZE" and "client_inv c"
    and "s_unique_msg_id c \<noteq> -1"
    and "find_slot (\<lambda>x. busy x = 0) (pending_ops c) 0 = Some i"
    and "\<And>m. send m (link c) = Ok (-1, link c)"
  shows "\<exists>c'. uril_client_execute_command_async send all_locks (handle c) sid mid (Some bs) cb cd c
        = Ok (-1, c')
    \<and> busy (pending_ops c' ! i) = 1 \<and> op_unique_id (pending_ops c' ! i) = s_unique_msg_id c'
    \<and> (\<forall>evs c2. client_run send evs c' c2
         \<and> unat (s_unique_msg_id c') + length evs < 2 ^ 32
         \<and> (\<forall>ev \<in> set evs. \<not> answers (s_unique_msg_id c') ev)
         \<longrightarrow> busy (pending_ops c2 ! i) = 1)"
proof -
  obtain c' where c': "uril_client_execute_command_async send all_locks (handle c) sid mid (Some bs) cb cd c
        = Ok (-1, c')"
    "pending_ops c' = (pending_ops c)[i := slot_for (pending_ops c ! i)
       (case cb of Some g \<Rightarrow> Some g | None \<Rightarrow> default_async_cb c) cd (s_unique_msg_id c + 1)]"
    "s_unique_msg_id c' = s_unique_msg_id c + 1"
    using assms(1,2,5,6)
    by (auto simp: uril_client_execute_command_async_def acquire_free_op_slot_def Let_def all_locks_def
        slot_for_def find_slot_0_Some split: option.splits)
  have i: "i < length (pending_ops c)" using assms(5) by (simp add: find_slot_0_Some)
  have slot: "busy (pending_ops c' ! i) = 1" "op_unique_id (pending_ops c' ! i) = s_unique_msg_id c'"
    using c'(2,3) i by (simp_all add: slot_for_def)
  have inv: "client_inv c'"
    using change_inv [OF change_async [OF c'(1)]] assms(3,4) by (simp add: client_inv_def)
  have i16: "i < URIL_MAX_PENDING_OPS" using i assms(3) by (simp add: client_inv_def ops_inv_def)
  have "busy (pending_ops c2 ! i) = 1"
    if "client_run send evs c' c2" "unat (s_unique_msg_id c') + length evs < 2 ^ 32"
      "\<forall>ev \<in> set evs. \<not> answers (s_unique_msg_id c') ev" for evs c2
    using run_keeps_slot [OF that(1) inv that(2) i16] slot that(3) by simp
  with c'(1) slot show ?thesis by blast
qed

lemma failed_send_keeps_slot_witness:
  "\<exists>c'. uril_client_execute_command_async (send_routine (\<lambda>s. False)) all_locks (handle sample_client) 0
        0x0500 (Some [1]) None Cd_null sample_client = Ok (-1, c')
    \<and> busy (pending_ops c' ! 0) = 1"
proof -
  have "find_slot (\<lambda>x. busy x = 0) (pending_ops sample_client) 0 = Some 0"
    by (simp add: sample_client_def new_client_def URIL_MAX_PENDING_OPS_def eval_nat_numeral zero_op_def)
  moreover have "send_routine (\<lambda>s. False) m (link sample_client) = Ok (-1, link sample_client)" for m
    using send_connected [OF sample_connected, of "\<lambda>s. False" m]
    by (simp add: sample_client_def new_client_def)
  ultimately show ?thesis
    using failed_send_keeps_slot [of sample_client "[1]" 0 "send_routine (\<lambda>s. False)", where sid = 0
        and mid = "0x0500" and cb = None and cd = Cd_null]
      sample_inv
    by (auto simp: sample_client_def new_client_def MAX_URIL_PAYLOAD_SIZE_def)
qed

end
