(* ===== verification/Sync_Properties.thy ===== *)
theory Sync_Properties
  imports Client_Sync Client_Properties
begin

text \<open>
  What a synchronous command promises: the response is in the caller's buffer when the call returns,
  the wait is bounded; and what it leaves behind when it gives up.
\<close>

section \<open>The response of a synchronous command\<close>

definition sync_result :: "u8 list \<Rightarrow> uril_protocol_msg_t \<Rightarrow> u8 list" where
  "sync_result buf m = overlay (take (min (length buf) (length (payload m))) (payload m)) buf"

lemma response_to_frame:
  assumes "client_inv c" and "waits f i params c" and "i < URIL_MAX_PENDING_OPS"
    and "unique_id m \<noteq> 0" and "op_unique_id (pending_ops c ! i) = unique_id m"
    and "async_resp_cb (pending_ops c ! i) = Some Cb_async_cb"
    and "client_data (pending_ops c ! i) = Cd_frame f"
    and "resp params = buf" and "resp_len params = length buf"
  shows "\<exists>c3 w. handle_receive_rsp all_locks m c = Ok (0, c3)
    \<and> frames c3 f = Some (params\<lparr>resp := sync_result buf m, success := True, condition := True, waiting_op := w\<rparr>)
    \<and> busy (pending_ops c3 ! i) = 0 \<and> user_calls c3 = user_calls c"
proof -
  obtain q where q: "frames c f = Some q" "q\<lparr>waiting_op := False\<rparr> = params"
    using assms(2) by (auto simp: waits_def)
  have len: "length (pending_ops c) = URIL_MAX_PENDING_OPS"
    using assms(1) by (simp add: client_inv_def ops_inv_def)
  let ?c = "c\<lparr>pending_ops := (pending_ops c)[i := (pending_ops c ! i)\<lparr>busy := 0\<rparr>]\<rparr>"
  let ?q = "q\<lparr>resp := sync_result buf m, success := True, condition := True\<rparr>"
  have "resp q = buf" "resp_len q = length buf" using q(2) assms(8,9) by auto
  then have "handle_receive_rsp all_locks m c = Ok (0, ?c\<lparr>frames := (frames c)(f \<mapsto> ?q)\<rparr>)"
    using response_dispatch [OF assms(1,3,4,5,6)] q(1) assms(7)
    by (simp add: invoke_cb_def async_cb_def sync_result_def)
  moreover have "?q = params\<lparr>resp := sync_result buf m, success := True, condition := True,
      waiting_op := waiting_op q\<rparr>"
    using q(2) by auto
  ultimately show ?thesis
    using assms(3) len
    by (intro exI [of _ "?c\<lparr>frames := (frames c)(f \<mapsto> ?q)\<rparr>"] exI [of _ "waiting_op q"]) simp
qed

text \<open>The frame of a command that has been answered, whatever the client did in between.\<close>

lemma sync_answered:
  assumes "client_inv c" and "frames_ok c"
    and "sync_start send l env h sid mid req buf c = Ok (Inr f, c1)"
    and "client_run send evs c1 c2"
    and "\<forall>ev \<in> set evs. user_event ev \<and> ev \<noteq> Cl_return f \<and> \<not> answers (s_unique_msg_id c1) ev"
    and "unat (s_unique_msg_id c) + length evs + 1 < 2 ^ 32"
    and "unique_id m = s_unique_msg_id c1"
  obtains c3 w where "handle_receive_rsp all_locks m c2 = Ok (0, c3)" and "user_calls c3 = user_calls c2"
    and "frames c3 f = Some \<lparr>success = True, condition = True, resp = sync_result buf m,
       resp_len = length buf, waiting_op = w\<rparr>"
proof -
  have "unat (- 1 :: u32) = 2 ^ 32 - 1" by (simp add: unsigned_minus_1_eq_mask mask_eq_exp_minus_1)
  with assms(6) have ne: "s_unique_msg_id c \<noteq> -1" by auto
  obtain i where i: "i < URIL_MAX_PENDING_OPS" "busy (pending_ops c1 ! i) = 1"
      "op_unique_id (pending_ops c1 ! i) = s_unique_msg_id c1" "s_unique_msg_id c1 \<noteq> 0"
      "async_resp_cb (pending_ops c1 ! i) = Some Cb_async_cb"
      "client_data (pending_ops c1 ! i) = Cd_frame f" "client_inv c1" "frames_ok c1"
    and w: "waits f i \<lparr>success = False, condition = False, resp = buf, resp_len = length buf,
                     waiting_op = False\<rparr> c1"
    using sync_start_slot [OF assms(3,1) ne assms(2)] by blast
  have "unat (s_unique_msg_id c1) + length evs < 2 ^ 32"
    using table_change_counter [OF change_sync [OF assms(3)]] assms(6) by simp
  then have inv2: "client_inv c2" using run_inv [OF assms(4) i(7)] by blast
  have w2: "waits f i \<lparr>success = False, condition = False, resp = buf, resp_len = length buf,
                     waiting_op = False\<rparr> c2" and slot: "pending_ops c2 ! i = pending_ops c1 ! i"
    using run_waits [OF assms(4) w i(8)] assms(5) i(3) by simp_all
  obtain c3 w where c3: "handle_receive_rsp all_locks m c2 = Ok (0, c3)" "user_calls c3 = user_calls c2"
    "frames c3 f = Some \<lparr>success = True, condition = True, resp = sync_result buf m,
       resp_len = length buf, waiting_op = w\<rparr>"
    using response_to_frame [OF inv2 w2 i(1), of m buf] i slot assms(7) by auto
  then show thesis using that by blast
qed

text \<open>
  A synchronous command whose response arrives while it waits, or before it starts to wait, returns
  0 with the payload in the caller's buffer, cut to the buffer's length; whatever other commands and
  messages the client handled in between has not touched the buffer, and no callback of the caller
  is called.
\<close>

lemma sync_returns_response:
  assumes "client_inv c" and "frames_ok c"
    and "sync_start send l env h sid mid req buf c = Ok (Inr f, c1)"
    and "client_run send evs c1 c2"
    and "\<forall>ev \<in> set evs. user_event ev \<and> ev \<noteq> Cl_return f \<and> \<not> answers (s_unique_msg_id c1) ev"
    and "unat (s_unique_msg_id c) + length evs + 1 < 2 ^ 32"
    and "unique_id m = s_unique_msg_id c1"
  shows "\<exists>c3 c4 c5. handle_receive_rsp all_locks m c2 = Ok (0, c3) \<and> user_calls c3 = user_calls c2
    \<and> sync_return True 0 f c3 = Ok (0, sync_result buf m, c4)
    \<and> (\<forall>cond_ret. map_ok (\<lambda>(r, b, _). (r, b)) (bind_outcome (sync_check f c3) (sync_return True cond_ret f))
         = Ok (0, sync_result buf m))"
  by (rule sync_answered [OF assms]) (auto simp: sync_return_def sync_check_def Let_def)

definition good_sync :: sync_env where
  "good_sync = \<lparr>mutex_malloc = True, mutex_init_result = 0, cond_malloc = True, cond_init_result = 0\<rparr>"

lemma sample_frames: "frames_ok sample_client"
  by (simp add: frames_ok_def sample_client_def new_client_def zero_op_def)

lemma sample_sync:
  "\<exists>c1. sync_start (send_routine (\<lambda>s. True)) all_locks good_sync 1 sid mid (Some [1]) [7, 7] sample_client
      = Ok (Inr 0, c1) \<and> s_unique_msg_id c1 = 1"
proof -
  obtain s' where "send_routine (\<lambda>s. True) (request_msg sid mid 1 [1]) sample_link = Ok (0, s')"
    using sample_send by blast
  then show ?thesis
    by (simp add: sync_start_def good_sync_def osal_init_def Let_def
        uril_client_execute_command_async_def sample_client_def new_client_def all_locks_def
        acquire_free_op_slot_def URIL_MAX_PENDING_OPS_def eval_nat_numeral zero_op_def
        MAX_URIL_PAYLOAD_SIZE_def)
qed

lemma sync_returns_response_witness:
  "\<exists>c1 c3 c4. sync_start (send_routine (\<lambda>s. True)) all_locks good_sync 1 0 0x0500 (Some [1]) [7, 7] sample_client
      = Ok (Inr 0, c1)
    \<and> handle_receive_rsp all_locks (reply 1) c1 = Ok (0, c3)
    \<and> sync_return True 0 0 c3 = Ok (0, [9, 9], c4)"
proof -
  obtain c1 where c1: "sync_start (send_routine (\<lambda>s. True)) all_locks good_sync 1 0 0x0500 (Some [1]) [7, 7]
      sample_client = Ok (Inr 0, c1)" "s_unique_msg_id c1 = 1"
    using sample_sync by blast
  have "sync_result [7, 7] (reply 1) = [9, 9]"
    by (simp add: sync_result_def reply_def MAX_URIL_PAYLOAD_SIZE_def overlay_def numeral_2_eq_2)
  moreover have "unique_id (reply 1) = s_unique_msg_id c1" using c1(2) by (simp add: reply_def)
  moreover have "unat (s_unique_msg_id sample_client) + length ([] :: client_event list) + 1 < 2 ^ 32"
    by (simp add: sample_client_def new_client_def)
  ultimately show ?thesis
    using sync_returns_response [OF sample_inv sample_frames c1(1) run_none, where m = "reply 1"] c1(1)
    by simp blast
qed

text \<open>
  C33: A synchronous command that has returned without its response leaves its slot waiting, with a pointer
  to the stack frame it has left: the response, when it comes, is written there.
\<close>

lemma late_response_writes_dead_frame:
  assumes "client_inv c" and "frames_ok c"
    and "sync_start send l env h sid mid req buf c = Ok (Inr f, c1)"
    and "client_run send evs c1 c2" and "Cl_return f \<in> set evs"
    and "\<forall>ev \<in> set evs. \<not> answers (s_unique_msg_id c1) ev"
    and "unat (s_unique_msg_id c) + length evs + 1 < 2 ^ 32"
    and "unique_id m = s_unique_msg_id c1"
  shows "handle_receive_rsp all_locks m c2 = Fault Use_after_free"
proof -
  have "unat (- 1 :: u32) = 2 ^ 32 - 1" by (simp add: unsigned_minus_1_eq_mask mask_eq_exp_minus_1)
  with assms(7) have ne: "s_unique_msg_id c \<noteq> -1" by auto
  obtain i where i: "i < URIL_MAX_PENDING_OPS" "busy (pending_ops c1 ! i) = 1"
      "op_unique_id (pending_ops c1 ! i) = s_unique_msg_id c1" "s_unique_msg_id c1 \<noteq> 0"
      "async_resp_cb (pending_ops c1 ! i) = Some Cb_async_cb"
      "client_data (pending_ops c1 ! i) = Cd_frame f" "client_inv c1"
    and w: "waits f i \<lparr>success = False, condition = False, resp = buf, resp_len = length buf,
                     waiting_op = False\<rparr> c1"
    using sync_start_slot [OF assms(3,1) ne assms(2)] by blast
  have bound: "unat (s_unique_msg_id c1) + length evs < 2 ^ 32"
    using table_change_counter [OF change_sync [OF assms(3)]] assms(7) by simp
  have inv2: "client_inv c2" using run_inv [OF assms(4) i(7) bound] by blast
  have slot: "pending_ops c2 ! i = pending_ops c1 ! i"
    using run_keeps_slot [OF assms(4) i(7) bound i(1)] i(2,3) assms(6) by simp
  have "frames c2 f = None"
    using run_dead_frame [OF assms(4) _ assms(5)] w by (simp add: waits_def)
  then show ?thesis
    using response_dispatch [OF inv2 i(1), of m Cb_async_cb] i slot assms(8)
    by (simp add: invoke_cb_def async_cb_def)
qed

lemma late_response_writes_dead_frame_witness:
  "\<exists>c1 c2 c3. sync_start (send_routine (\<lambda>s. True)) all_locks good_sync 1 0 0x0500 (Some [1]) [7, 7] sample_client
      = Ok (Inr 0, c1)
    \<and> sync_check 0 c1 = Ok c2 \<and> sync_return True (-1) 0 c2 = Ok (-1, [7, 7], c3)
    \<and> handle_receive_rsp all_locks (reply 1) c3 = Fault Use_after_free"
proof -
  obtain c1 where c1: "sync_start (send_routine (\<lambda>s. True)) all_locks good_sync 1 0 0x0500 (Some [1]) [7, 7]
      sample_client = Ok (Inr 0, c1)" "s_unique_msg_id c1 = 1"
    using sample_sync by blast
  have fr: "frames c1 0 = Some \<lparr>success = False, condition = False, resp = [7, 7], resp_len = 2,
      waiting_op = False\<rparr>"
    using sync_start_waits [OF c1(1)] by simp
  obtain c2 where c2: "sync_check 0 c1 = Ok c2" "frames c2 0 = Some \<lparr>success = False, condition = False,
      resp = [7, 7], resp_len = 2, waiting_op = True\<rparr>"
    using fr by (simp add: sync_check_def)
  obtain c3 where c3: "sync_return True (-1) 0 c2 = Ok (-1, [7, 7], c3)"
    using c2(2) by (simp add: sync_return_def Let_def)
  have "client_run (send_routine (\<lambda>s. True)) ([] @ [Cl_check 0] @ [Cl_return 0]) c1 c3"
    unfolding append_assoc [symmetric]
    by (rule run_more [OF run_more [OF run_none client_step.check [OF c2(1)]] client_step.return_ [OF c3]])
  then have run: "client_run (send_routine (\<lambda>s. True)) [Cl_check 0, Cl_return 0] c1 c3" by simp
  have "handle_receive_rsp all_locks (reply 1) c3 = Fault Use_after_free"
    by (rule late_response_writes_dead_frame [OF sample_inv sample_frames c1(1) run])
      (simp_all add: c1(2) reply_def sample_client_def new_client_def)
  with c1(1) c2(1) c3 show ?thesis by blast
qed

section \<open>The wait\<close>

text \<open>
  The absolute time a timed wait is given is a valid one, and lies before now plus the timeout, by 999
  times the microseconds of the current second: the conversion adds microseconds to
  nanoseconds.  A short timeout can so be over before it starts, but never by a whole second.
\<close>

lemma deadline_early:
  assumes "timeval_wf tp"
  shows "timespec_wf (deadline tp ms)
    \<and> timespec_ns (deadline tp ms) = timeval_ns tp + 1000000 * uint ms - 999 * tv_usec tp
    \<and> timespec_ns (deadline tp ms) > timeval_ns tp + 1000000 * uint ms - 1000000000
    \<and> (timespec_ns (deadline tp ms) < timeval_ns tp \<longleftrightarrow> 1000000 * uint ms < 999 * tv_usec tp)"
  using deadline_nsec [OF assms] assms by (simp add: deadline_exact timeval_wf_def)

lemma deadline_early_witness:
  "timespec_ns (deadline \<lparr>tv_sec = 10, tv_usec = 900000\<rparr> 500) < timeval_ns \<lparr>tv_sec = 10, tv_usec = 900000\<rparr>"
  using deadline_early [of "\<lparr>tv_sec = 10, tv_usec = 900000\<rparr>" 500] by (simp add: timeval_wf_def)

section \<open>The table over a whole run\<close>



end
