(* ===== verification/Client_Threads.thy ===== *)
theory Client_Threads
  imports Client_Steps
begin

text \<open>
  \<open>uril_client_execute_command_async\<close> as concurrent threads run it: the unique id is drawn under one
  lock, the slot is taken under another, but the slot is filled, field by field, and the message is
  sent under none.  The receive thread looks a response up under the lock of the slots and calls
  back outside it; there is one receive thread, so a response is one step.
\<close>

section \<open>Threads\<close>

record cmd_args =
  arg_sim :: u8
  arg_msg :: u32
  arg_req :: "u8 list"
  arg_cb :: "uril_client_async_cb option"
  arg_data :: client_ptr

text \<open>
  Where a call is: before it has its unique id, before it has its slot, before the three writes to the
  slot, before the send.
\<close>

datatype cmd_pc =
    At_gen
  | At_acquire u32
  | At_cb u32 nat
  | At_data u32 nat
  | At_uid u32 nat
  | At_send u32 nat
  | Returned u32

record 's cmd_world =
  shared :: "'s client"
  calls :: "nat \<rightharpoonup> cmd_args \<times> cmd_pc"
  unanswered :: "u32 \<rightharpoonup> cmd_args"

definition write_slot ::
    "nat \<Rightarrow> (uril_cli_pending_op_t \<Rightarrow> uril_cli_pending_op_t) \<Rightarrow> 's client \<Rightarrow> 's client" where
  "write_slot i f c = c\<lparr>pending_ops := (pending_ops c)[i := f (pending_ops c ! i)]\<rparr>"

definition cmd_callback :: "cmd_args \<Rightarrow> 's client \<Rightarrow> uril_client_async_cb option" where
  "cmd_callback a c = (case arg_cb a of Some g \<Rightarrow> Some g | None \<Rightarrow> default_async_cb c)"

definition cmd_msg :: "cmd_args \<Rightarrow> u32 \<Rightarrow> uril_protocol_msg_t" where
  "cmd_msg a uid = request_msg (arg_sim a) (arg_msg a) uid (arg_req a)"

text \<open>One section of a call; the locks are all available.\<close>

fun call_section ::
    "(uril_protocol_msg_t \<Rightarrow> 's \<Rightarrow> (int \<times> 's) outcome) \<Rightarrow> cmd_args \<Rightarrow> cmd_pc \<Rightarrow> 's client
     \<Rightarrow> (cmd_pc \<times> 's client) outcome" where
  "call_section send a At_gen c =
     Ok (At_acquire (s_unique_msg_id c + 1), c\<lparr>s_unique_msg_id := s_unique_msg_id c + 1\<rparr>)"
| "call_section send a (At_acquire uid) c =
     (case acquire_free_op_slot c of
        (None, c') \<Rightarrow> Ok (Returned (-1), c')
      | (Some i, c') \<Rightarrow> Ok (At_cb uid i, c'))"
| "call_section send a (At_cb uid i) c =
     Ok (At_data uid i, write_slot i (\<lambda>x. x\<lparr>async_resp_cb := cmd_callback a c\<rparr>) c)"
| "call_section send a (At_data uid i) c =
     Ok (At_uid uid i, write_slot i (\<lambda>x. x\<lparr>client_data := arg_data a\<rparr>) c)"
| "call_section send a (At_uid uid i) c =
     Ok (At_send uid i, write_slot i (\<lambda>x. x\<lparr>op_unique_id := uid\<rparr>) c)"
| "call_section send a (At_send uid i) c =
     map_ok (\<lambda>(ret, s). (Returned (word_of_int ret), c\<lparr>link := s\<rparr>)) (send (cmd_msg a uid) (link c))"
| "call_section send a (Returned r) c = Ok (Returned r, c)"

text \<open>A call whose sections run without another thread in between is the call of \<open>Uril_Client\<close>.\<close>

fun call_sections ::
    "nat \<Rightarrow> (uril_protocol_msg_t \<Rightarrow> 's \<Rightarrow> (int \<times> 's) outcome) \<Rightarrow> cmd_args \<Rightarrow> cmd_pc \<times> 's client
     \<Rightarrow> (cmd_pc \<times> 's client) outcome" where
  "call_sections 0 send a st = Ok st"
| "call_sections (Suc n) send a st =
     bind_outcome (call_section send a (fst st) (snd st)) (call_sections n send a)"

lemma sections_in_a_row:
  assumes "initialized c \<noteq> 0" and "length (arg_req a) \<le> MAX_URIL_PAYLOAD_SIZE"
  shows "call_sections 6 send a (At_gen, c)
    = map_ok (\<lambda>(r, c'). (Returned r, c'))
        (uril_client_execute_command_async send all_locks (handle c) (arg_sim a) (arg_msg a)
           (Some (arg_req a)) (arg_cb a) (arg_data a) c)"
proof (cases "find_slot (\<lambda>x. busy x = 0) (pending_ops c) 0")
  case None
  then show ?thesis
    using assms
    by (simp add: eval_nat_numeral uril_client_execute_command_async_def acquire_free_op_slot_def
        Let_def all_locks_def)
next
  case (Some i)
  then have "i < length (pending_ops c)" by (simp add: find_slot_0_Some)
  with Some show ?thesis
    using assms
    by (cases "send (cmd_msg a (s_unique_msg_id c + 1)) (link c)")
      (auto simp: eval_nat_numeral uril_client_execute_command_async_def acquire_free_op_slot_def
        Let_def all_locks_def write_slot_def cmd_callback_def cmd_msg_def split: option.splits)
qed

section \<open>Steps\<close>

datatype cmd_event = Begin nat | Section nat | Answer uril_protocol_msg_t

text \<open>
  \<open>polite\<close>: the service only answers messages it was sent, and each once.  Otherwise a response may
  carry any unique id.
\<close>

inductive cmd_step ::
    "(uril_protocol_msg_t \<Rightarrow> 's \<Rightarrow> (int \<times> 's) outcome) \<Rightarrow> bool \<Rightarrow> cmd_event \<Rightarrow> 's cmd_world
     \<Rightarrow> 's cmd_world \<Rightarrow> bool"
  for send polite where
  begin_call: "calls w t = None \<Longrightarrow> length (arg_req a) \<le> MAX_URIL_PAYLOAD_SIZE \<Longrightarrow>
     cmd_step send polite (Begin t) w (w\<lparr>calls := (calls w)(t \<mapsto> (a, At_gen))\<rparr>)"
| section_call: "calls w t = Some (a, pc) \<Longrightarrow> (\<forall>r. pc \<noteq> Returned r) \<Longrightarrow>
     call_section send a pc (shared w) = Ok (pc', c') \<Longrightarrow>
     u' = (case pc of
             At_send uid i \<Rightarrow> if pc' = Returned 0 then (unanswered w)(uid \<mapsto> a) else unanswered w
           | _ \<Rightarrow> unanswered w) \<Longrightarrow>
     cmd_step send polite (Section t) w
       (w\<lparr>shared := c', calls := (calls w)(t \<mapsto> (a, pc')), unanswered := u'\<rparr>)"
| answer: "polite \<longrightarrow> unique_id m \<in> dom (unanswered w) \<Longrightarrow>
     handle_receive_rsp all_locks m (shared w) = Ok (r, c') \<Longrightarrow>
     cmd_step send polite (Answer m) w
       (w\<lparr>shared := c', unanswered := (unanswered w)(unique_id m := None)\<rparr>)"

inductive cmd_run ::
    "(uril_protocol_msg_t \<Rightarrow> 's \<Rightarrow> (int \<times> 's) outcome) \<Rightarrow> bool \<Rightarrow> cmd_event list \<Rightarrow> 's cmd_world
     \<Rightarrow> 's cmd_world \<Rightarrow> bool"
  for send polite where
  cmd_none: "cmd_run send polite [] w w"
| cmd_more: "cmd_run send polite evs w w1 \<Longrightarrow> cmd_step send polite ev w1 w2
     \<Longrightarrow> cmd_run send polite (evs @ [ev]) w w2"

definition start_world :: "'s client \<Rightarrow> 's cmd_world" where
  "start_world c = \<lparr>shared = c, calls = Map.empty, unanswered = Map.empty\<rparr>"

text \<open>The steps as a function: the result of an event, where the event can happen.\<close>

fun cmd_perform ::
    "(uril_protocol_msg_t \<Rightarrow> 's \<Rightarrow> (int \<times> 's) outcome) \<Rightarrow> bool \<Rightarrow> (nat \<Rightarrow> cmd_args)
     \<Rightarrow> cmd_event \<Rightarrow> 's cmd_world \<Rightarrow> 's cmd_world option" where
  "cmd_perform send polite args (Begin t) w =
     (if calls w t = None \<and> length (arg_req (args t)) \<le> MAX_URIL_PAYLOAD_SIZE
      then Some (w\<lparr>calls := (calls w)(t \<mapsto> (args t, At_gen))\<rparr>) else None)"
| "cmd_perform send polite args (Section t) w =
     (case calls w t of
        None \<Rightarrow> None
      | Some (a, pc) \<Rightarrow>
          if (case pc of Returned r \<Rightarrow> True | _ \<Rightarrow> False) then None
          else (case call_section send a pc (shared w) of
                  Fault e \<Rightarrow> None
                | Ok (pc', c') \<Rightarrow> Some (w\<lparr>shared := c', calls := (calls w)(t \<mapsto> (a, pc')),
                    unanswered := (case pc of
                      At_send uid i \<Rightarrow> if pc' = Returned 0 then (unanswered w)(uid \<mapsto> a) else unanswered w
                    | _ \<Rightarrow> unanswered w)\<rparr>)))"
| "cmd_perform send polite args (Answer m) w =
     (if polite \<and> unanswered w (unique_id m) = None then None
      else (case handle_receive_rsp all_locks m (shared w) of
              Fault e \<Rightarrow> None
            | Ok (r, c') \<Rightarrow> Some (w\<lparr>shared := c', unanswered := (unanswered w)(unique_id m := None)\<rparr>)))"

fun cmd_performs ::
    "(uril_protocol_msg_t \<Rightarrow> 's \<Rightarrow> (int \<times> 's) outcome) \<Rightarrow> bool \<Rightarrow> (nat \<Rightarrow> cmd_args)
     \<Rightarrow> cmd_event list \<Rightarrow> 's cmd_world \<Rightarrow> 's cmd_world option" where
  "cmd_performs send polite args [] w = Some w"
| "cmd_performs send polite args (ev # evs) w =
     Option.bind (cmd_perform send polite args ev w) (cmd_performs send polite args evs)"

lemma perform_step:
  assumes "cmd_perform send polite args ev w = Some w'"
  shows "cmd_step send polite ev w w'"
proof (cases ev)
  case (Begin t)
  with assms show ?thesis by (auto intro: begin_call split: if_splits)
next
  case (Section t)
  obtain a pc where t: "calls w t = Some (a, pc)" using assms Section by (auto split: option.splits)
  have pc: "\<forall>r. pc \<noteq> Returned r" using assms Section t by (auto split: if_splits)
  obtain pc' c' where "call_section send a pc (shared w) = Ok (pc', c')"
    using assms Section t
    by (auto simp del: call_section.simps split: if_splits outcome.splits)
  with assms Section t section_call [OF t pc this refl] show ?thesis
    by (simp del: call_section.simps split: if_splits)
next
  case (Answer m)
  with assms show ?thesis by (auto intro: answer split: if_splits outcome.splits)
qed

lemma performs_run_from:
  "cmd_performs send polite args evs w1 = Some w2 \<Longrightarrow> cmd_run send polite evs0 w w1
   \<Longrightarrow> cmd_run send polite (evs0 @ evs) w w2"
proof (induction evs arbitrary: w1 evs0)
  case (Cons ev evs)
  then obtain w' where w': "cmd_perform send polite args ev w1 = Some w'"
    "cmd_performs send polite args evs w' = Some w2" by (auto simp: bind_eq_Some_conv)
  from Cons.IH [OF w'(2) cmd_more [OF Cons.prems(2) perform_step [OF w'(1)]]] show ?case by simp
qed simp

lemma performs_run: "cmd_performs send polite args evs w = Some w' \<Longrightarrow> cmd_run send polite evs w w'"
  using performs_run_from [OF _ cmd_none] by fastforce

section \<open>The invariant\<close>

abbreviation slot :: "'s client \<Rightarrow> nat \<Rightarrow> uril_cli_pending_op_t" where
  "slot c i \<equiv> pending_ops c ! i"

fun uid_of :: "cmd_pc \<Rightarrow> u32 option" where
  "uid_of (At_acquire u) = Some u"
| "uid_of (At_cb u i) = Some u"
| "uid_of (At_data u i) = Some u"
| "uid_of (At_uid u i) = Some u"
| "uid_of (At_send u i) = Some u"
| "uid_of pc = None"

fun slot_of :: "cmd_pc \<Rightarrow> nat option" where
  "slot_of (At_cb u i) = Some i"
| "slot_of (At_data u i) = Some i"
| "slot_of (At_uid u i) = Some i"
| "slot_of (At_send u i) = Some i"
| "slot_of pc = None"

text \<open>The table: sixteen slots, no id from the future, no nonzero id twice.\<close>

definition table_ok :: "'s client \<Rightarrow> bool" where
  "table_ok c \<longleftrightarrow>
     length (pending_ops c) = 16
     \<and> (\<forall>i < 16. op_unique_id (slot c i) \<le> s_unique_msg_id c)
     \<and> (\<forall>i < 16. \<forall>j < 16. i \<noteq> j \<longrightarrow> op_unique_id (slot c i) = op_unique_id (slot c j)
          \<longrightarrow> op_unique_id (slot c i) = 0)"

definition unused :: "'s client \<Rightarrow> u32 \<Rightarrow> bool" where
  "unused c u \<longleftrightarrow> (\<forall>i < 16. op_unique_id (slot c i) \<noteq> u)"

definition holds :: "'s client \<Rightarrow> nat \<Rightarrow> bool" where
  "holds c i \<longleftrightarrow> i < 16 \<and> busy (slot c i) \<noteq> 0"

text \<open>What is true of the slot of a call at each point.\<close>

fun slot_ok :: "'s client \<Rightarrow> cmd_args \<Rightarrow> cmd_pc \<Rightarrow> bool" where
  "slot_ok c a (At_acquire u) \<longleftrightarrow> unused c u"
| "slot_ok c a (At_cb u i) \<longleftrightarrow> unused c u \<and> holds c i"
| "slot_ok c a (At_data u i) \<longleftrightarrow> unused c u \<and> holds c i \<and> async_resp_cb (slot c i) = cmd_callback a c"
| "slot_ok c a (At_uid u i) \<longleftrightarrow> unused c u \<and> holds c i \<and> async_resp_cb (slot c i) = cmd_callback a c
     \<and> client_data (slot c i) = arg_data a"
| "slot_ok c a (At_send u i) \<longleftrightarrow> holds c i \<and> async_resp_cb (slot c i) = cmd_callback a c
     \<and> client_data (slot c i) = arg_data a \<and> op_unique_id (slot c i) = u"
| "slot_ok c a pc \<longleftrightarrow> True"

definition call_ok :: "'s cmd_world \<Rightarrow> cmd_args \<Rightarrow> cmd_pc \<Rightarrow> bool" where
  "call_ok w a pc \<longleftrightarrow>
     slot_ok (shared w) a pc
     \<and> (\<forall>u. uid_of pc = Some u \<longrightarrow> u \<noteq> 0 \<and> u \<le> s_unique_msg_id (shared w) \<and> u \<notin> dom (unanswered w))"

text \<open>Two calls have neither an id nor a slot in common.\<close>

definition apart :: "cmd_pc \<Rightarrow> cmd_pc \<Rightarrow> bool" where
  "apart p q \<longleftrightarrow> (\<forall>u. uid_of p = Some u \<longrightarrow> uid_of q \<noteq> Some u) \<and> (\<forall>i. slot_of p = Some i \<longrightarrow> slot_of q \<noteq> Some i)"

text \<open>An unanswered command has its own slot, which no call is working on.\<close>

definition waits_at :: "'s client \<Rightarrow> cmd_args \<Rightarrow> u32 \<Rightarrow> nat \<Rightarrow> bool" where
  "waits_at c a u i \<longleftrightarrow>
     holds c i \<and> op_unique_id (slot c i) = u \<and> u \<noteq> 0 \<and> async_resp_cb (slot c i) = cmd_callback a c
     \<and> client_data (slot c i) = arg_data a"

definition cmd_inv :: "'s cmd_world \<Rightarrow> bool" where
  "cmd_inv w \<longleftrightarrow>
     table_ok (shared w)
     \<and> (\<forall>t a pc. calls w t = Some (a, pc) \<longrightarrow> call_ok w a pc)
     \<and> (\<forall>t t' a pc a' pc'. calls w t = Some (a, pc) \<longrightarrow> calls w t' = Some (a', pc') \<longrightarrow> t \<noteq> t' \<longrightarrow> apart pc pc')
     \<and> (\<forall>u a. unanswered w u = Some a \<longrightarrow>
          (\<exists>i. waits_at (shared w) a u i \<and> (\<forall>t a' pc. calls w t = Some (a', pc) \<longrightarrow> slot_of pc \<noteq> Some i)))"

section \<open>Frame lemmas\<close>

text \<open>A step that touches one slot at most, and there gives it no id but \<open>v\<close>.\<close>

definition touches :: "nat \<Rightarrow> u32 option \<Rightarrow> 's client \<Rightarrow> 's client \<Rightarrow> bool" where
  "touches i v c c' \<longleftrightarrow>
     (\<forall>j. j \<noteq> i \<longrightarrow> slot c' j = slot c j)
     \<and> (op_unique_id (slot c' i) = op_unique_id (slot c i) \<or> v = Some (op_unique_id (slot c' i)))
     \<and> s_unique_msg_id c \<le> s_unique_msg_id c' \<and> default_async_cb c' = default_async_cb c"

lemma touches_unused: "touches i v c c' \<Longrightarrow> unused c u \<Longrightarrow> v \<noteq> Some u \<Longrightarrow> unused c' u"
  unfolding touches_def unused_def by (metis)

lemma touches_slot_ok:
  assumes "touches i v c c'" and "slot_ok c a pc" and "slot_of pc \<noteq> Some i"
    and "\<forall>u. uid_of pc = Some u \<longrightarrow> v \<noteq> Some u"
  shows "slot_ok c' a pc"
  using assms touches_unused [OF assms(1)]
  by (cases pc) (auto simp: touches_def holds_def cmd_callback_def split: option.splits)

lemma touches_waits:
  "touches i v c c' \<Longrightarrow> waits_at c a u j \<Longrightarrow> j \<noteq> i \<Longrightarrow> waits_at c' a u j"
  by (auto simp: touches_def waits_at_def holds_def cmd_callback_def split: option.splits)

lemma write_touches:
  assumes "op_unique_id (f (slot c i)) = op_unique_id (slot c i) \<or> v = Some (op_unique_id (f (slot c i)))"
  shows "touches i v c (write_slot i f c)"
  using assms by (auto simp: touches_def write_slot_def nth_upd)

lemma table_ok_write:
  assumes "table_ok c" and "op_unique_id (f (slot c i)) = op_unique_id (slot c i)"
  shows "table_ok (write_slot i f c)"
  using assms by (auto simp: table_ok_def write_slot_def nth_upd)

lemma table_ok_new_id:
  assumes "table_ok c" and "unused c u" and "u \<le> s_unique_msg_id c"
  shows "table_ok (write_slot i (\<lambda>x. x\<lparr>op_unique_id := u\<rparr>) c)"
  using assms by (auto simp: table_ok_def write_slot_def nth_upd unused_def)

lemma slot_ok_link: "slot_ok (c\<lparr>link := s\<rparr>) a pc = slot_ok c a pc"
  by (cases pc) (simp_all add: unused_def holds_def cmd_callback_def cong: option.case_cong)

lemma slot_ok_holds: "slot_ok c a pc \<Longrightarrow> slot_of pc = Some i \<Longrightarrow> holds c i"
  by (cases pc) auto

lemma cmd_invD:
  assumes "cmd_inv w"
  shows "table_ok (shared w)"
    and "calls w t = Some (a, pc) \<Longrightarrow> call_ok w a pc"
    and "calls w t = Some (a, pc) \<Longrightarrow> calls w t' = Some (a', pc') \<Longrightarrow> t \<noteq> t' \<Longrightarrow> apart pc pc'"
    and "unanswered w u = Some b \<Longrightarrow>
      \<exists>i. waits_at (shared w) b u i \<and> (\<forall>t a' pc. calls w t = Some (a', pc) \<longrightarrow> slot_of pc \<noteq> Some i)"
  using assms unfolding cmd_inv_def by blast+

lemma inv_section:
  assumes inv: "cmd_inv w" and t: "calls w t = Some (a, pc)"
    and table: "table_ok c'" and touch: "touches i v (shared w) c'"
    and own: "\<not> holds (shared w) i \<or> slot_of pc = Some i" and next_slot: "slot_of pc' \<in> {None, Some i}"
    and next_uid: "uid_of pc' \<in> {None, uid_of pc} \<or> (\<exists>u. uid_of pc' = Some u \<and> s_unique_msg_id (shared w) < u)"
    and v: "v \<in> {None, uid_of pc}"
    and ok: "call_ok (w\<lparr>shared := c', calls := (calls w)(t \<mapsto> (a, pc'))\<rparr>) a pc'"
  shows "cmd_inv (w\<lparr>shared := c', calls := (calls w)(t \<mapsto> (a, pc'))\<rparr>)" (is "cmd_inv ?w")
proof -
  have other: "call_ok ?w a1 p \<and> apart pc' p \<and> apart p pc' \<and> slot_of p \<noteq> Some i"
    if "calls w t1 = Some (a1, p)" "t1 \<noteq> t" for t1 a1 p
  proof -
    have p: "call_ok w a1 p" using cmd_invD(2) [OF inv that(1)] .
    have ap: "apart pc p" "apart p pc" using cmd_invD(3) [OF inv] t that by blast+
    have ni: "slot_of p \<noteq> Some i"
      using own ap slot_ok_holds p by (fastforce simp: call_ok_def apart_def)
    have "slot_ok c' a1 p"
      using touches_slot_ok [OF touch _ ni] p v ap by (fastforce simp: call_ok_def apart_def)
    moreover have "s_unique_msg_id (shared w) \<le> s_unique_msg_id c'" using touch by (simp add: touches_def)
    ultimately have "call_ok ?w a1 p" using p by (auto simp: call_ok_def intro: order_trans)
    moreover have "uid_of p \<noteq> uid_of pc'" if "uid_of p = Some u" for u
      using that next_uid ap p by (fastforce simp: apart_def call_ok_def)
    then have "apart pc' p \<and> apart p pc'" using next_slot ni by (auto simp: apart_def)
    ultimately show ?thesis using ni by simp
  qed
  have wait: "\<exists>j. waits_at c' b u j \<and> (\<forall>t1 a' p. calls ?w t1 = Some (a', p) \<longrightarrow> slot_of p \<noteq> Some j)"
    if b: "unanswered w u = Some b" for u b
  proof -
    obtain j where j: "waits_at (shared w) b u j"
      "\<forall>t1 a' p. calls w t1 = Some (a', p) \<longrightarrow> slot_of p \<noteq> Some j"
      using cmd_invD(4) [OF inv b] by blast
    then have ne: "j \<noteq> i" using own t by (auto simp: waits_at_def)
    show ?thesis
      using touches_waits [OF touch j(1) ne] j(2) ne next_slot by (intro exI [of _ j]) auto
  qed
  show ?thesis
    unfolding cmd_inv_def using table ok other wait cmd_invD(3) [OF inv] by (auto split: if_splits)
qed

lemma inv_sent:
  assumes inv: "cmd_inv w" and t: "calls w t = Some (a, At_send u i)"
  shows "cmd_inv (w\<lparr>calls := (calls w)(t \<mapsto> (a, Returned r)), unanswered := (unanswered w)(u \<mapsto> a)\<rparr>)"
    (is "cmd_inv ?w")
proof -
  have a: "call_ok w a (At_send u i)" using cmd_invD(2) [OF inv t] .
  have other: "call_ok ?w a1 p \<and> slot_of p \<noteq> Some i" if "calls w t1 = Some (a1, p)" "t1 \<noteq> t" for t1 a1 p
    using cmd_invD(2) [OF inv that(1)] cmd_invD(3) [OF inv t that(1)] that(2)
    by (auto simp: call_ok_def apart_def)
  have new: "waits_at (shared w) a u i" using a by (simp add: call_ok_def waits_at_def)
  have ap: "apart p q" if "calls ?w t1 = Some (a1, p)" "calls ?w t2 = Some (a2, q)" "t1 \<noteq> t2" for t1 t2 a1 a2 p q
    using that cmd_invD(3) [OF inv] by (auto simp: apart_def split: if_splits)
  show ?thesis
    unfolding cmd_inv_def
  proof (intro conjI allI impI)
    fix t1 a1 p assume "calls ?w t1 = Some (a1, p)"
    then show "call_ok ?w a1 p" using other by (auto simp: call_ok_def split: if_splits)
  next
    fix u1 b assume b: "unanswered ?w u1 = Some b"
    show "\<exists>j. waits_at (shared ?w) b u1 j \<and> (\<forall>t1 a' p. calls ?w t1 = Some (a', p) \<longrightarrow> slot_of p \<noteq> Some j)"
    proof (cases "u1 = u")
      case True
      with b new other show ?thesis by (intro exI [of _ i]) (auto split: if_splits)
    next
      case False
      with b have "unanswered w u1 = Some b" by simp
      from cmd_invD(4) [OF inv this] obtain j where "waits_at (shared w) b u1 j"
        "\<forall>t1 a' p. calls w t1 = Some (a', p) \<longrightarrow> slot_of p \<noteq> Some j" by blast
      then show ?thesis by (intro exI [of _ j]) (auto split: if_splits)
    qed
  qed (use cmd_invD(1) [OF inv] ap in \<open>auto\<close>)
qed

section \<open>Every step keeps the invariant\<close>

lemma touches_same:
  "pending_ops c' = pending_ops c \<Longrightarrow> s_unique_msg_id c \<le> s_unique_msg_id c' \<Longrightarrow>
     default_async_cb c' = default_async_cb c \<Longrightarrow> touches 16 None c c'"
  by (simp add: touches_def)

lemma not_holds_16: "\<not> holds c 16"
  by (simp add: holds_def)

text \<open>The three writes to the slot: the invariant for a section that writes and moves on.\<close>

lemma inv_write:
  assumes inv: "cmd_inv w" and t: "calls w t = Some (a, pc)"
    and pc: "slot_of pc = Some i" "slot_of pc' = Some i" "uid_of pc' = uid_of pc"
    and table: "table_ok (write_slot i f (shared w))"
    and new: "op_unique_id (f (slot (shared w) i)) = op_unique_id (slot (shared w) i)
        \<or> uid_of pc = Some (op_unique_id (f (slot (shared w) i)))"
    and ok: "slot_ok (write_slot i f (shared w)) a pc'"
  shows "cmd_inv (w\<lparr>shared := write_slot i f (shared w), calls := (calls w)(t \<mapsto> (a, pc'))\<rparr>)"
proof (rule inv_section [OF inv t table])
  show "touches i (uid_of pc) (shared w) (write_slot i f (shared w))" using new by (rule write_touches)
  show "call_ok (w\<lparr>shared := write_slot i f (shared w), calls := (calls w)(t \<mapsto> (a, pc'))\<rparr>) a pc'"
    using cmd_invD(2) [OF inv t] ok pc(3) by (simp add: call_ok_def write_slot_def)
qed (simp_all add: pc)

lemma section_inv:
  assumes inv: "cmd_inv w" and t: "calls w t = Some (a, pc)" and max: "s_unique_msg_id (shared w) \<noteq> -1"
    and sec: "call_section send a pc (shared w) = Ok (pc', c')"
    and un: "u' = (case pc of
             At_send uid i \<Rightarrow> if pc' = Returned 0 then (unanswered w)(uid \<mapsto> a) else unanswered w
           | _ \<Rightarrow> unanswered w)"
  shows "cmd_inv (w\<lparr>shared := c', calls := (calls w)(t \<mapsto> (a, pc')), unanswered := u'\<rparr>)"
proof -
  let ?c = "shared w"
  have ok: "call_ok w a pc" using cmd_invD(2) [OF inv t] .
  have table: "table_ok ?c" using cmd_invD(1) [OF inv] .
  show ?thesis
  proof (cases pc)
    case At_gen
    let ?u = "s_unique_msg_id ?c + 1"
    have less: "s_unique_msg_id ?c < ?u" using max by (rule less_add_one)
    have c': "c' = ?c\<lparr>s_unique_msg_id := ?u\<rparr>" "pc' = At_acquire ?u" "u' = unanswered w"
      using sec un by (simp_all add: At_gen)
    have "?u \<notin> dom (unanswered w)"
    proof
      assume "?u \<in> dom (unanswered w)"
      then obtain b where "unanswered w ?u = Some b" by blast
      from cmd_invD(4) [OF inv this] table less show False
        by (force simp: waits_at_def holds_def table_ok_def)
    qed
    moreover have "unused c' ?u" using table less by (force simp: unused_def table_ok_def c')
    moreover have "?u \<noteq> 0" using less by auto
    ultimately have "call_ok (w\<lparr>shared := c', calls := (calls w)(t \<mapsto> (a, pc'))\<rparr>) a pc'"
      by (simp add: call_ok_def c')
    moreover have "table_ok c'" using table less by (force simp: table_ok_def c' intro: order_trans)
    ultimately have "cmd_inv (w\<lparr>shared := c', calls := (calls w)(t \<mapsto> (a, pc'))\<rparr>)"
      using less by (intro inv_section [OF inv t _ touches_same]) (auto simp: At_gen c' not_holds_16)
    then show ?thesis by (simp add: c'(3))
  next
    case (At_acquire u)
    show ?thesis
    proof (cases "find_slot (\<lambda>x. busy x = 0) (pending_ops ?c) 0")
      case None
      then have c': "c' = ?c" "pc' = Returned (-1)" "u' = unanswered w"
        using sec un by (simp_all add: At_acquire acquire_free_op_slot_def)
      have "cmd_inv (w\<lparr>shared := c', calls := (calls w)(t \<mapsto> (a, pc'))\<rparr>)"
        using table by (intro inv_section [OF inv t _ touches_same]) (auto simp: c' not_holds_16 call_ok_def)
      then show ?thesis by (simp add: c'(3))
    next
      case (Some i)
      let ?f = "\<lambda>x. x\<lparr>busy := 1\<rparr>"
      have i: "i < 16" "busy (slot ?c i) = 0" using Some table by (auto simp: find_slot_0_Some table_ok_def)
      have c': "c' = write_slot i ?f ?c" "pc' = At_cb u i" "u' = unanswered w"
        using sec un Some by (simp_all add: At_acquire acquire_free_op_slot_def write_slot_def)
      have touch: "touches i None ?c c'" unfolding c' by (rule write_touches) simp
      have "unused c' u" using ok touches_unused [OF touch] by (simp add: At_acquire call_ok_def)
      moreover have "holds c' i" using i table by (simp add: holds_def c' write_slot_def table_ok_def)
      ultimately have "call_ok (w\<lparr>shared := c', calls := (calls w)(t \<mapsto> (a, pc'))\<rparr>) a pc'"
        using ok by (simp add: call_ok_def c' At_acquire write_slot_def)
      moreover have "table_ok c'" using table unfolding c' by (intro table_ok_write) simp_all
      ultimately have "cmd_inv (w\<lparr>shared := c', calls := (calls w)(t \<mapsto> (a, pc'))\<rparr>)"
        using i by (intro inv_section [OF inv t _ touch]) (simp_all add: c' At_acquire holds_def)
      then show ?thesis by (simp add: c'(3))
    qed
  next
    case (At_cb u i)
    let ?f = "\<lambda>x. x\<lparr>async_resp_cb := cmd_callback a ?c\<rparr>"
    have c': "c' = write_slot i ?f ?c" "pc' = At_data u i" "u' = unanswered w"
      using sec un by (simp_all add: At_cb)
    have h: "holds ?c i" "unused ?c u" using ok by (simp_all add: call_ok_def At_cb)
    have "unused (write_slot i ?f ?c) u"
      by (rule touches_unused [OF write_touches h(2)]) auto
    then have "cmd_inv (w\<lparr>shared := c', calls := (calls w)(t \<mapsto> (a, pc'))\<rparr>)"
      unfolding c' using h table
      by (intro inv_write [OF inv t] table_ok_write)
        (auto simp: At_cb holds_def write_slot_def table_ok_def cmd_callback_def split: option.splits)
    then show ?thesis by (simp add: c'(3))
  next
    case (At_data u i)
    let ?f = "\<lambda>x. x\<lparr>client_data := arg_data a\<rparr>"
    have c': "c' = write_slot i ?f ?c" "pc' = At_uid u i" "u' = unanswered w"
      using sec un by (simp_all add: At_data)
    have h: "holds ?c i" "unused ?c u" "async_resp_cb (slot ?c i) = cmd_callback a ?c"
      using ok by (simp_all add: call_ok_def At_data)
    have "unused (write_slot i ?f ?c) u"
      by (rule touches_unused [OF write_touches h(2)]) auto
    then have "cmd_inv (w\<lparr>shared := c', calls := (calls w)(t \<mapsto> (a, pc'))\<rparr>)"
      unfolding c' using h table
      by (intro inv_write [OF inv t] table_ok_write)
        (auto simp: At_data holds_def write_slot_def table_ok_def cmd_callback_def split: option.splits)
    then show ?thesis by (simp add: c'(3))
  next
    case (At_uid u i)
    let ?f = "\<lambda>x. x\<lparr>op_unique_id := u\<rparr>"
    have c': "c' = write_slot i ?f ?c" "pc' = At_send u i" "u' = unanswered w"
      using sec un by (simp_all add: At_uid)
    have h: "holds ?c i" "unused ?c u" "async_resp_cb (slot ?c i) = cmd_callback a ?c"
      "client_data (slot ?c i) = arg_data a" "u \<le> s_unique_msg_id ?c"
      using ok by (simp_all add: call_ok_def At_uid)
    have "table_ok (write_slot i ?f ?c)" using table_ok_new_id [OF table h(2,5)] .
    then have "cmd_inv (w\<lparr>shared := c', calls := (calls w)(t \<mapsto> (a, pc'))\<rparr>)"
      unfolding c' using h table
      by (intro inv_write [OF inv t])
        (auto simp: At_uid holds_def write_slot_def table_ok_def cmd_callback_def split: option.splits)
    then show ?thesis by (simp add: c'(3))
  next
    case (At_send u i)
    obtain ret s where c': "c' = ?c\<lparr>link := s\<rparr>" "pc' = Returned (word_of_int ret)"
      using sec by (auto simp: At_send outcome_simps)
    let ?w = "w\<lparr>shared := c'\<rparr>"
    have inv': "cmd_inv ?w"
      using inv unfolding cmd_inv_def call_ok_def
      by (simp add: c'(1) slot_ok_link)
        (simp add: table_ok_def waits_at_def holds_def cmd_callback_def cong: option.case_cong)
    show ?thesis
    proof (cases "pc' = Returned 0")
      case True
      have "calls ?w t = Some (a, At_send u i)" using t by (simp add: At_send)
      from inv_sent [OF inv' this, of 0] show ?thesis using un True by (simp add: At_send)
    next
      case False
      have "cmd_inv (w\<lparr>shared := c', calls := (calls w)(t \<mapsto> (a, pc'))\<rparr>)"
        using table by (intro inv_section [OF inv t _ touches_same])
          (auto simp: c' not_holds_16 call_ok_def table_ok_def)
      then show ?thesis using un False by (simp add: At_send)
    qed
  next
    case (Returned r)
    then have "pc' = pc" "c' = shared w" "u' = unanswered w" using sec un by auto
    with inv t show ?thesis by (simp add: fun_upd_idem)
  qed
qed

text \<open>An answer to an unanswered command frees the slot of that command and no other.\<close>

lemma lookup_first:
  assumes "table_ok c" and "i < 16" and "op_unique_id (slot c i) = u" and "u \<noteq> 0"
  shows "lookup_pending_op u c = Some i"
proof -
  have "op_unique_id (slot c j) \<noteq> u" if "j < i" for j
    using assms that unfolding table_ok_def by (metis less_trans nat_neq_iff)
  with assms show ?thesis by (simp add: lookup_pending_op_def find_slot_0_Some table_ok_def)
qed

lemma async_cb_default:
  "async_cb data cd c = Ok c' \<Longrightarrow> default_async_cb c' = default_async_cb c"
  by (auto simp: async_cb_def split: client_ptr.splits option.splits)

lemma answer_effect:
  assumes "table_ok c" and "waits_at c a u i" and "unique_id m = u"
    and "handle_receive_rsp all_locks m c = Ok (r, c')"
  shows "pending_ops c' = (pending_ops c)[i := (slot c i)\<lparr>busy := 0\<rparr>]
    \<and> s_unique_msg_id c' = s_unique_msg_id c \<and> default_async_cb c' = default_async_cb c"
proof -
  have "lookup_pending_op (unique_id m) c = Some i"
    using lookup_first [OF assms(1)] assms(2,3) by (simp add: waits_at_def holds_def)
  with assms(4) show ?thesis
    by (auto simp: handle_receive_rsp_def all_locks_def outcome_simps invoke_cb_def
        dest: async_cb_table async_cb_default split: option.splits uril_client_async_cb.splits)
qed

lemma answer_calls_back:
  assumes inv: "cmd_inv w" and "unanswered w (unique_id m) = Some a" and "cmd_callback a (shared w) = Some (Cb_user n)"
  shows "\<exists>c' i. handle_receive_rsp all_locks m (shared w) = Ok (0, c')
    \<and> user_calls c' = user_calls (shared w)
        @ [Resp_call n (handle (shared w)) (sim_id m) (msg_id m) (payload m) (arg_data a)]
    \<and> pending_ops c' = (pending_ops (shared w))[i := (pending_ops (shared w) ! i)\<lparr>busy := 0\<rparr>]
    \<and> (\<forall>t b pc. calls w t = Some (b, pc) \<longrightarrow> slot_of pc \<noteq> Some i)"
proof -
  obtain i where i: "waits_at (shared w) a (unique_id m) i"
    "\<forall>t b pc. calls w t = Some (b, pc) \<longrightarrow> slot_of pc \<noteq> Some i"
    using cmd_invD(4) [OF inv assms(2)] by blast
  have "lookup_pending_op (unique_id m) (shared w) = Some i"
    using lookup_first [OF cmd_invD(1) [OF inv]] i(1) by (simp add: waits_at_def holds_def)
  then show ?thesis
    using i assms(3)
    by (simp add: handle_receive_rsp_def all_locks_def waits_at_def invoke_cb_def)
      (intro exI [of _ i], simp)
qed

lemma answer_inv:
  assumes inv: "cmd_inv w" and u: "unique_id m \<in> dom (unanswered w)"
    and h: "handle_receive_rsp all_locks m (shared w) = Ok (r, c')"
  shows "cmd_inv (w\<lparr>shared := c', unanswered := (unanswered w)(unique_id m := None)\<rparr>)"
    (is "cmd_inv ?w")
proof -
  let ?u = "unique_id m" and ?c = "shared w"
  obtain a where a: "unanswered w ?u = Some a" using u by blast
  obtain i where i: "waits_at ?c a ?u i" "\<forall>t a' pc. calls w t = Some (a', pc) \<longrightarrow> slot_of pc \<noteq> Some i"
    using cmd_invD(4) [OF inv a] by blast
  have table: "table_ok ?c" using cmd_invD(1) [OF inv] .
  have eff: "pending_ops c' = (pending_ops ?c)[i := (slot ?c i)\<lparr>busy := 0\<rparr>]"
    "s_unique_msg_id c' = s_unique_msg_id ?c" "default_async_cb c' = default_async_cb ?c"
    using answer_effect [OF table i(1) refl h] by simp_all
  have touch: "touches i None ?c c'" using eff by (auto simp: touches_def nth_upd)
  have call: "call_ok ?w b pc" if t: "calls w t = Some (b, pc)" for t b pc
  proof -
    have b: "call_ok w b pc" "slot_of pc \<noteq> Some i" using cmd_invD(2) [OF inv t] i(2) t by blast+
    then have "slot_ok c' b pc" using touches_slot_ok [OF touch] by (simp add: call_ok_def)
    with b(1) eff(2) show ?thesis by (auto simp: call_ok_def)
  qed
  have wait: "\<exists>j. waits_at c' b v j \<and> (\<forall>t a' pc. calls w t = Some (a', pc) \<longrightarrow> slot_of pc \<noteq> Some j)"
    if v: "unanswered w v = Some b" "v \<noteq> ?u" for v b
  proof -
    obtain j where j: "waits_at ?c b v j" "\<forall>t a' pc. calls w t = Some (a', pc) \<longrightarrow> slot_of pc \<noteq> Some j"
      using cmd_invD(4) [OF inv v(1)] by blast
    then have "j \<noteq> i" using i(1) v(2) by (auto simp: waits_at_def)
    from touches_waits [OF touch j(1) this] j(2) show ?thesis by blast
  qed
  have "table_ok c'" using table eff by (auto simp: table_ok_def nth_upd)
  then show ?thesis
    unfolding cmd_inv_def using call wait cmd_invD(3) [OF inv] by (auto split: if_splits)
qed

lemma cmd_step_inv:
  assumes "cmd_step send True ev w w'" and inv: "cmd_inv w" and "s_unique_msg_id (shared w) \<noteq> -1"
  shows "cmd_inv w'"
  using assms(1)
proof cases
  case (begin_call t a)
  have "call_ok w' b pc" if "calls w t1 = Some (b, pc)" for t1 b pc
    using cmd_invD(2) [OF inv that] begin_call(2) by (simp add: call_ok_def)
  moreover have "\<exists>i. waits_at (shared w) b u i \<and> (\<forall>t1 a' pc. calls w' t1 = Some (a', pc) \<longrightarrow> slot_of pc \<noteq> Some i)"
    if b: "unanswered w u = Some b" for u b
  proof -
    obtain i where "waits_at (shared w) b u i" "\<forall>t1 a' pc. calls w t1 = Some (a', pc) \<longrightarrow> slot_of pc \<noteq> Some i"
      using cmd_invD(4) [OF inv b] by blast
    then show ?thesis by (intro exI [of _ i]) (auto simp: begin_call(2) split: if_splits)
  qed
  ultimately show ?thesis
    using cmd_invD(1,3) [OF inv] unfolding cmd_inv_def
    by (auto simp: begin_call(2) call_ok_def apart_def split: if_splits)
next
  case (section_call t a pc pc' c' u')
  then show ?thesis using section_inv [OF inv _ assms(3)] by blast
next
  case (answer m r c')
  then show ?thesis using answer_inv [OF inv] by simp
qed

lemma cmd_step_counter:
  assumes "cmd_step send polite ev w w'"
  shows "s_unique_msg_id (shared w') \<in> {s_unique_msg_id (shared w), s_unique_msg_id (shared w) + 1}"
  using assms
proof cases
  case (section_call t a pc pc' c' u')
  then show ?thesis
    by (cases pc) (auto simp: acquire_free_op_slot_def write_slot_def outcome_simps split: option.splits)
next
  case (answer m r c')
  then show ?thesis using response_table [of all_locks m "shared w"] by auto
qed auto

lemma cmd_run_inv:
  assumes "cmd_run send True evs w w'" and "cmd_inv w"
    and "unat (s_unique_msg_id (shared w)) + length evs < 2 ^ 32"
  shows "cmd_inv w' \<and> unat (s_unique_msg_id (shared w')) \<le> unat (s_unique_msg_id (shared w)) + length evs"
  using assms
proof (induction rule: cmd_run.induct)
  case (cmd_more evs w w1 ev w2)
  then have w1: "cmd_inv w1"
    "unat (s_unique_msg_id (shared w1)) \<le> unat (s_unique_msg_id (shared w)) + length evs" by simp_all
  have "unat (- 1 :: u32) = 2 ^ 32 - 1" by (simp add: unsigned_minus_1_eq_mask mask_eq_exp_minus_1)
  with w1(2) cmd_more.prems(2) have ne: "s_unique_msg_id (shared w1) \<noteq> -1" by auto
  have "unat (s_unique_msg_id (shared w1) + 1) = Suc (unat (s_unique_msg_id (shared w1)))"
    using unatSuc [of "s_unique_msg_id (shared w1)"] ne by (metis add.commute eq_neg_iff_add_eq_0)
  with cmd_step_inv [OF cmd_more.hyps(2) w1(1) ne] cmd_step_counter [OF cmd_more.hyps(2)] w1(2)
  show ?case by auto
qed simp

lemma start_inv:
  assumes "client_inv c"
  shows "cmd_inv (start_world c)"
  using assms
  unfolding cmd_inv_def start_world_def client_inv_def ops_inv_def table_ok_def URIL_MAX_PENDING_OPS_def
  by (auto simp: neq_iff)

end
