(* ===== verification/Thread_Properties.thy ===== *)
theory Thread_Properties
  imports Client_Threads Client_Properties
begin

text \<open>
  Commands of several threads: the unlocked parts of a command do no harm as long as the service
  answers each message once; a response too many makes two commands share a slot.
\<close>

text \<open>
  The sections of a command, when no other thread runs in between, are the command: the same
  result, and the same state.
\<close>

lemma sections_sequential:
  assumes "initialized c \<noteq> 0" and "length (arg_req a) \<le> MAX_URIL_PAYLOAD_SIZE"
  shows "call_sections 6 send a (At_gen, c)
    = map_ok (\<lambda>(r, c'). (Returned r, c'))
        (uril_client_execute_command_async send all_locks (handle c) (arg_sim a) (arg_msg a)
           (Some (arg_req a)) (arg_cb a) (arg_data a) c)"
  using assms by (rule sections_in_a_row)

definition sample_args :: cmd_args where
  "sample_args = \<lparr>arg_sim = 0, arg_msg = 0x0500, arg_req = [4], arg_cb = Some (Cb_user 3), arg_data = Cd_user 8\<rparr>"

text \<open>Runs of the library over the connector of the client, whose sends succeed.\<close>

definition sample_run :: "bool \<Rightarrow> cmd_event list \<Rightarrow> service_connector_t cmd_world option" where
  "sample_run polite evs = cmd_performs (send_routine (\<lambda>s. True)) polite (\<lambda>t. sample_args) evs (start_world sample_client)"

lemma sample_run_ok:
  assumes "\<exists>w. sample_run polite evs = Some w \<and> P w"
  shows "\<exists>w. cmd_run (send_routine (\<lambda>s. True)) polite evs (start_world sample_client) w \<and> P w"
  using assms performs_run unfolding sample_run_def by blast

lemma sample_run_case:
  "(case sample_run polite evs of None \<Rightarrow> False | Some w \<Rightarrow> P w) \<Longrightarrow> \<exists>w. sample_run polite evs = Some w \<and> P w"
  by (simp split: option.splits)

lemma sections_sequential_witness:
  "\<exists>c'. call_sections 6 (send_routine (\<lambda>s. True)) sample_args (At_gen, sample_client)
    = Ok (Returned 0, c')"
proof -
  have "length [4 :: u8] \<le> MAX_URIL_PAYLOAD_SIZE" by (simp add: MAX_URIL_PAYLOAD_SIZE_def)
  then obtain c' where "uril_client_execute_command_async (send_routine (\<lambda>s. True)) all_locks 1 0 0x0500
      (Some [4]) (Some (Cb_user 3)) (Cd_user 8) sample_client = Ok (0, c')"
    using sample_async by blast
  moreover have "handle sample_client = 1" "initialized sample_client \<noteq> 0"
    by (simp_all add: sample_client_def new_client_def)
  ultimately show ?thesis
    using sections_sequential [of sample_client sample_args "send_routine (\<lambda>s. True)"]
    by (simp add: sample_args_def MAX_URIL_PAYLOAD_SIZE_def del: call_sections.simps)
qed

text \<open>
  Two commands: the first is sent while the second has its slot but has not written to it.
\<close>

definition interleaved :: "cmd_event list" where
  "interleaved = [Begin 0, Begin 1, Section 0, Section 1, Section 0, Section 1,
     Section 0, Section 0, Section 0, Section 0]"

lemma interleaved_run:
  "\<exists>w. sample_run True interleaved = Some w
     \<and> unanswered w 1 = Some sample_args \<and> calls w 1 = Some (sample_args, At_cb 2 1)"
  by (rule sample_run_case) code_simp

lemma halfway_run:
  "\<exists>w. sample_run True (take 7 interleaved) = Some w
     \<and> calls w 0 = Some (sample_args, At_data 1 0) \<and> calls w 1 = Some (sample_args, At_cb 2 1)"
  by (rule sample_run_case) code_simp

text \<open>
  However the sections of any number of concurrent commands and the responses are interleaved, if
  the service answers each message it was sent at most once, the response to a command that was sent
  calls that command's callback with that command's data, once, and frees its slot.
\<close>

lemma concurrent_commands_answered:
  assumes "client_inv c" and "cmd_run send True evs (start_world c) w"
    and "unat (s_unique_msg_id c) + length evs < 2 ^ 32"
    and "unanswered w (unique_id m) = Some a" and "cmd_callback a (shared w) = Some (Cb_user n)"
  shows "\<exists>c' i. handle_receive_rsp all_locks m (shared w) = Ok (0, c')
    \<and> user_calls c' = user_calls (shared w)
        @ [Resp_call n (handle (shared w)) (sim_id m) (msg_id m) (payload m) (arg_data a)]
    \<and> pending_ops c' = (pending_ops (shared w))[i := (pending_ops (shared w) ! i)\<lparr>busy := 0\<rparr>]
    \<and> (\<forall>t b pc. calls w t = Some (b, pc) \<longrightarrow> slot_of pc \<noteq> Some i)"
proof -
  have inv: "cmd_inv w"
    using cmd_run_inv [OF assms(2) start_inv [OF assms(1)]] assms(3) by (simp add: start_world_def)
  from answer_calls_back [OF inv assms(4,5)] show ?thesis .
qed

lemma concurrent_commands_answered_witness:
  "\<exists>w c'. cmd_run (send_routine (\<lambda>s. True)) True interleaved (start_world sample_client) w
     \<and> handle_receive_rsp all_locks (reply 1) (shared w) = Ok (0, c')
     \<and> user_calls c' = user_calls (shared w)
        @ [Resp_call 3 (handle (shared w)) 0 0x0500 (payload (reply 1)) (Cd_user 8)]"
proof -
  obtain w where w: "cmd_run (send_routine (\<lambda>s. True)) True interleaved (start_world sample_client) w"
    "unanswered w 1 = Some sample_args"
    using sample_run_ok [OF interleaved_run] by blast
  have "unat (s_unique_msg_id sample_client) + length interleaved < 2 ^ 32"
    by (simp add: interleaved_def sample_client_def new_client_def)
  moreover have "cmd_callback sample_args (shared w) = Some (Cb_user 3)"
    by (simp add: cmd_callback_def sample_args_def)
  ultimately obtain c' where "handle_receive_rsp all_locks (reply 1) (shared w) = Ok (0, c')"
    "user_calls c' = user_calls (shared w) @ [Resp_call 3 (handle (shared w)) (sim_id (reply 1))
       (msg_id (reply 1)) (payload (reply 1)) (arg_data sample_args)]"
    using concurrent_commands_answered [OF sample_inv w(1), of "reply 1" sample_args 3] w(2)
    by (auto simp: reply_def)
  then show ?thesis using w(1) by (auto simp: reply_def sample_args_def)
qed

text \<open>
  In the same runs two commands that are at work hold different slots and have different unique ids,
  and neither works on the slot of a command that waits for its response.
\<close>

lemma concurrent_slots_exclusive:
  assumes "client_inv c" and "cmd_run send True evs (start_world c) w"
    and "unat (s_unique_msg_id c) + length evs < 2 ^ 32"
    and "calls w t = Some (a, p)" and "calls w t' = Some (b, q)" and "t \<noteq> t'"
  shows "(\<forall>i. slot_of p = Some i \<longrightarrow> slot_of q \<noteq> Some i) \<and> (\<forall>u. uid_of p = Some u \<longrightarrow> uid_of q \<noteq> Some u)
    \<and> (\<forall>i. slot_of p = Some i \<longrightarrow> i < 16 \<and> busy (pending_ops (shared w) ! i) \<noteq> 0
         \<and> op_unique_id (pending_ops (shared w) ! i) \<notin> dom (unanswered w))"
proof -
  have inv: "cmd_inv w"
    using cmd_run_inv [OF assms(2) start_inv [OF assms(1)]] assms(3) by (simp add: start_world_def)
  have "apart p q" using cmd_invD(3) [OF inv assms(4,5,6)] .
  moreover have "i < 16 \<and> busy (slot (shared w) i) \<noteq> 0 \<and> op_unique_id (slot (shared w) i) \<notin> dom (unanswered w)"
    if i: "slot_of p = Some i" for i
  proof -
    have h: "holds (shared w) i"
      using cmd_invD(2) [OF inv assms(4)] slot_ok_holds i by (auto simp: call_ok_def)
    have "op_unique_id (slot (shared w) i) \<notin> dom (unanswered w)"
    proof
      assume "op_unique_id (slot (shared w) i) \<in> dom (unanswered w)"
      then obtain d where d: "unanswered w (op_unique_id (slot (shared w) i)) = Some d" by blast
      then obtain j where j: "waits_at (shared w) d (op_unique_id (slot (shared w) i)) j" "j \<noteq> i"
        using cmd_invD(4) [OF inv d] assms(4) i by blast
      with h cmd_invD(1) [OF inv] show False by (auto simp: waits_at_def holds_def table_ok_def)
    qed
    with h show ?thesis by (simp add: holds_def)
  qed
  ultimately show ?thesis by (simp add: apart_def)
qed

lemma concurrent_slots_exclusive_witness:
  "\<exists>w. cmd_run (send_routine (\<lambda>s. True)) True (take 7 interleaved) (start_world sample_client) w
     \<and> calls w 0 = Some (sample_args, At_data 1 0)
     \<and> busy (pending_ops (shared w) ! 0) \<noteq> 0 \<and> op_unique_id (pending_ops (shared w) ! 0) \<notin> dom (unanswered w)"
proof -
  obtain w where w: "cmd_run (send_routine (\<lambda>s. True)) True (take 7 interleaved) (start_world sample_client) w"
    "calls w 0 = Some (sample_args, At_data 1 0)" "calls w 1 = Some (sample_args, At_cb 2 1)"
    using sample_run_ok [OF halfway_run] by blast
  have "unat (s_unique_msg_id sample_client) + length (take 7 interleaved) < 2 ^ 32"
    by (simp add: interleaved_def sample_client_def new_client_def)
  from concurrent_slots_exclusive [OF sample_inv w(1) this w(2,3)] w(1,2) show ?thesis by auto
qed

text \<open>
  C39: The slot is filled outside the lock, and the lookup ignores whether a slot is busy: when a stray
  response carries the id that is still in the slot a command has just taken, the slot is given
  to the next command as well, and both write to it.
\<close>

lemma stray_response_shares_slot:
  assumes "calls w t = Some (a, At_cb u i)" and "calls w t' = Some (b, At_acquire v)" and "t \<noteq> t'"
    and "table_ok (shared w)" and "i < 16" and "\<forall>j < i. busy (pending_ops (shared w) ! j) \<noteq> 0"
    and "op_unique_id (pending_ops (shared w) ! i) = unique_id m" and "unique_id m \<noteq> 0"
    and "async_resp_cb (pending_ops (shared w) ! i) = Some (Cb_user n)"
  shows "\<exists>w1 w2. cmd_step send False (Answer m) w w1 \<and> cmd_step send False (Section t') w1 w2
    \<and> calls w2 t = Some (a, At_cb u i) \<and> calls w2 t' = Some (b, At_cb v i)"
proof -
  let ?c = "shared w"
  have len: "length (pending_ops ?c) = 16" using assms(4) by (simp add: table_ok_def)
  have "lookup_pending_op (unique_id m) ?c = Some i" using lookup_first [OF assms(4,5,7,8)] .
  then obtain c1 where c1: "handle_receive_rsp all_locks m ?c = Ok (0, c1)"
    "pending_ops c1 = (pending_ops ?c)[i := (pending_ops ?c ! i)\<lparr>busy := 0\<rparr>]"
    using assms(9) by (simp add: handle_receive_rsp_def all_locks_def invoke_cb_def)
  let ?w1 = "w\<lparr>shared := c1, unanswered := (unanswered w)(unique_id m := None)\<rparr>"
  have s1: "cmd_step send False (Answer m) w ?w1" using cmd_step.answer [OF _ c1(1)] by simp
  have "find_slot (\<lambda>x. busy x = 0) (pending_ops c1) 0 = Some i"
    using assms(5,6) len c1(2) by (simp add: find_slot_0_Some)
  then obtain c2 where c2: "call_section send b (At_acquire v) c1 = Ok (At_cb v i, c2)"
    by (simp add: acquire_free_op_slot_def)
  let ?w2 = "?w1\<lparr>shared := c2, calls := (calls ?w1)(t' \<mapsto> (b, At_cb v i)), unanswered := unanswered ?w1\<rparr>"
  have "cmd_step send False (Section t') ?w1 ?w2"
    by (rule cmd_step.section_call [of _ _ b "At_acquire v"]) (simp_all add: assms(2) c2 del: call_section.simps)
  with s1 assms(1,3) show ?thesis by (intro exI [of _ ?w1] exI [of _ ?w2]) simp
qed

text \<open>The first command is answered, the second has taken its slot, the third is about to take one.\<close>

definition answered_twice :: "cmd_event list" where
  "answered_twice = [Begin 0, Section 0, Section 0, Section 0, Section 0, Section 0, Section 0, Answer (reply 1),
     Begin 1, Section 1, Section 1, Begin 2, Section 2]"

lemma answered_twice_run:
  "\<exists>w. sample_run False answered_twice = Some w
     \<and> calls w 1 = Some (sample_args, At_cb 2 0) \<and> calls w 2 = Some (sample_args, At_acquire 3)
     \<and> length (pending_ops (shared w)) = 16 \<and> list_all (\<lambda>x. op_unique_id x \<le> s_unique_msg_id (shared w)) (pending_ops (shared w))
     \<and> list_all (\<lambda>x. op_unique_id x = 0) (drop 1 (pending_ops (shared w)))
     \<and> op_unique_id (pending_ops (shared w) ! 0) = 1
     \<and> async_resp_cb (pending_ops (shared w) ! 0) = Some (Cb_user 3)"
  by (rule sample_run_case) code_simp

lemma stray_response_shares_slot_witness:
  "\<exists>w w1 w2. cmd_run (send_routine (\<lambda>s. True)) False answered_twice (start_world sample_client) w
     \<and> cmd_step (send_routine (\<lambda>s. True)) False (Answer (reply 1)) w w1
     \<and> cmd_step (send_routine (\<lambda>s. True)) False (Section 2) w1 w2
     \<and> calls w2 1 = Some (sample_args, At_cb 2 0) \<and> calls w2 2 = Some (sample_args, At_cb 3 0)"
proof -
  obtain w where w: "cmd_run (send_routine (\<lambda>s. True)) False answered_twice (start_world sample_client) w"
    "calls w 1 = Some (sample_args, At_cb 2 0)" "calls w 2 = Some (sample_args, At_acquire 3)"
    and table: "length (pending_ops (shared w)) = 16"
      "list_all (\<lambda>x. op_unique_id x \<le> s_unique_msg_id (shared w)) (pending_ops (shared w))"
      "list_all (\<lambda>x. op_unique_id x = 0) (drop 1 (pending_ops (shared w)))"
      "op_unique_id (pending_ops (shared w) ! 0) = 1"
      "async_resp_cb (pending_ops (shared w) ! 0) = Some (Cb_user 3)"
    using sample_run_ok [OF answered_twice_run] by blast
  have zero: "op_unique_id (pending_ops (shared w) ! j) = 0" if "0 < j" "j < 16" for j
    using table(1,3) that unfolding list_all_length by (auto dest: spec [of _ "j - 1"])
  have "table_ok (shared w)"
    unfolding table_ok_def using table(1,2) zero by (auto simp: list_all_length neq_iff)
  then show ?thesis
    using stray_response_shares_slot [OF w(2,3), of "reply 1" 3] w(1) table
    by (auto simp: reply_def)
qed

end
