(* ===== verification/Client_Locks.thy ===== *)
theory Client_Locks
  imports Client_Threads
begin

text \<open>
  The locks of \<open>uril_client_execute_command_async\<close> one step at a time: the calls of \<open>lock\<close> and
  \<open>unlock\<close>, the increment of the unique id and, slot by slot, the search of
  \<open>acquire_free_op_slot\<close>.  The mutexes \<open>s_unique_id_gen_mutex\<close> and \<open>cmd_mutex\<close> both have the
  initialiser \<open>UNIX_MUTEX\<close>, so both are the one static mutex.  A response, whose two sections the
  receive thread runs under \<open>cmd_mutex\<close>, is one step that waits for the mutex.

  What the locks buy: a run of these steps is a run of the sections of \<open>Client_Threads\<close>, and the
  threads never wait for each other for good.
\<close>

section \<open>Steps\<close>

definition s_unique_id_gen_mutex :: osal_mutex_t where
  "s_unique_id_gen_mutex = UNIX_MUTEX"

definition cmd_mutex :: osal_mutex_t where
  "cmd_mutex = UNIX_MUTEX"

datatype lock_pc =
    Lock_gen
  | Increment
  | Unlock_gen u32
  | Lock_cmd u32
  | Search u32 nat
  | Unlock_cmd u32 "nat option"
  | Unlocked cmd_pc

record 's lock_world =
  pool :: mutex_pool
  client :: "'s client"
  threads :: "nat \<rightharpoonup> cmd_args \<times> lock_pc"
  awaited :: "u32 \<rightharpoonup> cmd_args"

text \<open>A step of a call; \<open>None\<close> where the thread waits.\<close>

fun lock_section ::
    "nat \<Rightarrow> (uril_protocol_msg_t \<Rightarrow> 's \<Rightarrow> (int \<times> 's) outcome) \<Rightarrow> cmd_args \<Rightarrow> lock_pc
     \<Rightarrow> mutex_pool \<times> 's client \<Rightarrow> (lock_pc \<times> mutex_pool \<times> 's client) option outcome" where
  "lock_section t send a Lock_gen (p, c) =
     map_ok (map_option (\<lambda>(r, p'). (if r = 0 then Increment else Unlocked (Returned (-1)), p', c)))
       (osal_mutex_unix_lock t s_unique_id_gen_mutex p)"
| "lock_section t send a Increment (p, c) =
     Ok (Some (Unlock_gen (s_unique_msg_id c + 1), p, c\<lparr>s_unique_msg_id := s_unique_msg_id c + 1\<rparr>))"
| "lock_section t send a (Unlock_gen uid) (p, c) =
     map_ok (map_option (\<lambda>(r, p'). (Lock_cmd uid, p', c))) (osal_mutex_unix_unlock s_unique_id_gen_mutex p)"
| "lock_section t send a (Lock_cmd uid) (p, c) =
     map_ok (map_option (\<lambda>(r, p'). (if r = 0 then Search uid 0 else Unlocked (Returned (-1)), p', c)))
       (osal_mutex_unix_lock t cmd_mutex p)"
| "lock_section t send a (Search uid i) (p, c) =
     (if i < URIL_MAX_PENDING_OPS
      then Ok (Some (if busy (pending_ops c ! i) = 0
             then (Unlock_cmd uid (Some i), p, write_slot i (\<lambda>x. x\<lparr>busy := 1\<rparr>) c)
             else (Search uid (Suc i), p, c)))
      else Ok (Some (Unlock_cmd uid None, p, c)))"
| "lock_section t send a (Unlock_cmd uid found) (p, c) =
     map_ok (map_option (\<lambda>(r, p').
         (Unlocked (if r \<noteq> 0 then Returned (-1)
                    else case found of None \<Rightarrow> Returned (-1) | Some i \<Rightarrow> At_cb uid i), p', c)))
       (osal_mutex_unix_unlock cmd_mutex p)"
| "lock_section t send a (Unlocked pc) (p, c) =
     map_ok (\<lambda>(pc', c'). Some (Unlocked pc', p, c')) (call_section send a pc c)"

definition finished :: "lock_pc \<Rightarrow> bool" where
  "finished pc \<longleftrightarrow> (\<exists>r. pc = Unlocked (Returned r))"

definition awaited_after ::
    "lock_pc \<Rightarrow> lock_pc \<Rightarrow> cmd_args \<Rightarrow> (u32 \<rightharpoonup> cmd_args) \<Rightarrow> (u32 \<rightharpoonup> cmd_args)" where
  "awaited_after pc pc' a u =
     (case pc of
        Unlocked (At_send uid i) \<Rightarrow> if pc' = Unlocked (Returned 0) then u(uid \<mapsto> a) else u
      | _ \<Rightarrow> u)"

inductive lock_step ::
    "(uril_protocol_msg_t \<Rightarrow> 's \<Rightarrow> (int \<times> 's) outcome) \<Rightarrow> bool \<Rightarrow> cmd_event \<Rightarrow> 's lock_world
     \<Rightarrow> 's lock_world \<Rightarrow> bool"
  for send polite where
  lock_begin: "threads w t = None \<Longrightarrow> length (arg_req a) \<le> MAX_URIL_PAYLOAD_SIZE \<Longrightarrow>
     lock_step send polite (Begin t) w (w\<lparr>threads := (threads w)(t \<mapsto> (a, Lock_gen))\<rparr>)"
| lock_go: "threads w t = Some (a, pc) \<Longrightarrow> \<not> finished pc \<Longrightarrow>
     lock_section t send a pc (pool w, client w) = Ok (Some (pc', p', c')) \<Longrightarrow>
     lock_step send polite (Section t) w
       (w\<lparr>pool := p', client := c', threads := (threads w)(t \<mapsto> (a, pc')),
          awaited := awaited_after pc pc' a (awaited w)\<rparr>)"
| lock_answer: "polite \<longrightarrow> unique_id m \<in> dom (awaited w) \<Longrightarrow> pool w s_default_mutex = Some None \<Longrightarrow>
     handle_receive_rsp all_locks m (client w) = Ok (r, c') \<Longrightarrow>
     lock_step send polite (Answer m) w
       (w\<lparr>client := c', awaited := (awaited w)(unique_id m := None)\<rparr>)"

inductive lock_run ::
    "(uril_protocol_msg_t \<Rightarrow> 's \<Rightarrow> (int \<times> 's) outcome) \<Rightarrow> bool \<Rightarrow> cmd_event list \<Rightarrow> 's lock_world
     \<Rightarrow> 's lock_world \<Rightarrow> bool"
  for send polite where
  lock_none: "lock_run send polite [] w w"
| lock_more: "lock_run send polite evs w w1 \<Longrightarrow> lock_step send polite ev w1 w2
     \<Longrightarrow> lock_run send polite (evs @ [ev]) w w2"

definition lock_start :: "'s client \<Rightarrow> 's lock_world" where
  "lock_start c = \<lparr>pool = static_pool, client = c, threads = Map.empty, awaited = Map.empty\<rparr>"

section \<open>The invariant\<close>

fun holding :: "lock_pc \<Rightarrow> bool" where
  "holding Increment = True"
| "holding (Unlock_gen uid) = True"
| "holding (Search uid i) = True"
| "holding (Unlock_cmd uid found) = True"
| "holding pc = False"

text \<open>The slots a search has passed are busy.\<close>

fun searched :: "'s client \<Rightarrow> lock_pc \<Rightarrow> bool" where
  "searched c (Search uid i) \<longleftrightarrow> i \<le> URIL_MAX_PENDING_OPS \<and> (\<forall>j < i. busy (pending_ops c ! j) \<noteq> 0)"
| "searched c pc \<longleftrightarrow> True"

definition lock_inv :: "'s lock_world \<Rightarrow> bool" where
  "lock_inv w \<longleftrightarrow>
     (\<exists>held. pool w s_default_mutex = Some held
        \<and> (\<forall>t. held = Some t \<longleftrightarrow> (\<exists>a pc. threads w t = Some (a, pc) \<and> holding pc)))
     \<and> length (pending_ops (client w)) = URIL_MAX_PENDING_OPS
     \<and> (\<forall>t a pc. threads w t = Some (a, pc) \<longrightarrow> searched (client w) pc)"

lemma lock_start_inv: "client_inv c \<Longrightarrow> lock_inv (lock_start c)"
  by (auto simp: lock_inv_def lock_start_def static_pool_def client_inv_def ops_inv_def)

lemma lock_invD:
  assumes "lock_inv w"
  obtains held where "pool w s_default_mutex = Some held"
    and "\<And>t. held = Some t \<longleftrightarrow> (\<exists>a pc. threads w t = Some (a, pc) \<and> holding pc)"
  using assms unfolding lock_inv_def by blast

text \<open>No slot that is busy becomes free.\<close>

definition keeps_busy :: "'s client \<Rightarrow> 's client \<Rightarrow> bool" where
  "keeps_busy c c' \<longleftrightarrow>
     length (pending_ops c') = length (pending_ops c)
     \<and> (\<forall>j. busy (pending_ops c ! j) \<noteq> 0 \<longrightarrow> busy (pending_ops c' ! j) \<noteq> 0)"

lemma keeps_busy_refl [simp]: "pending_ops c' = pending_ops c \<Longrightarrow> keeps_busy c c'"
  by (simp add: keeps_busy_def)

lemma keeps_busy_write:
  "(\<And>x. busy x \<noteq> 0 \<Longrightarrow> busy (f x) \<noteq> 0) \<Longrightarrow> keeps_busy c (write_slot i f c)"
  by (auto simp: keeps_busy_def write_slot_def nth_upd)

lemma searched_kept: "searched c pc \<Longrightarrow> keeps_busy c c' \<Longrightarrow> searched c' pc"
  by (cases pc) (auto simp: keeps_busy_def)

lemma call_section_keeps_busy: "call_section send a pc c = Ok (pc', c') \<Longrightarrow> keeps_busy c c'"
  by (cases pc)
    (auto simp: acquire_free_op_slot_def outcome_simps keeps_busy_def nth_upd write_slot_def
      split: option.splits if_splits)

text \<open>A thread's step keeps the invariant when it treats the mutex as its program points say.\<close>

lemma lock_inv_go:
  assumes inv: "lock_inv w" and t: "threads w t = Some (a, pc)"
    and pool: "p' s_default_mutex = Some (if holding pc' then Some t else if holding pc then None
      else the (pool w s_default_mutex))"
    and wait: "holding pc' \<Longrightarrow> \<not> holding pc \<Longrightarrow> pool w s_default_mutex = Some None"
    and busy: "keeps_busy (client w) c'" and srch: "searched c' pc'"
  shows "lock_inv (w\<lparr>pool := p', client := c', threads := (threads w)(t \<mapsto> (a, pc')), awaited := u\<rparr>)"
proof -
  obtain held where held: "pool w s_default_mutex = Some held"
    "\<And>t. held = Some t \<longleftrightarrow> (\<exists>a pc. threads w t = Some (a, pc) \<and> holding pc)"
    using lock_invD [OF inv] by blast
  have mine: "holding pc \<longleftrightarrow> held = Some t" using held(2) [of t] t by auto
  have other: "(\<exists>a1 p1. ((threads w)(t \<mapsto> (a, pc'))) t1 = Some (a1, p1) \<and> holding p1)
      \<longleftrightarrow> (if t1 = t then holding pc' else held = Some t1)" for t1
    using held(2) [of t1] by auto
  let ?held = "if holding pc' then Some t else if holding pc then None else held"
  have holder: "?held = Some t1 \<longleftrightarrow> (if t1 = t then holding pc' else held = Some t1)" for t1
    using mine wait held(1) by auto
  have "searched c' p1" if "threads w t1 = Some (a1, p1)" for t1 a1 p1
    using inv that searched_kept [OF _ busy] unfolding lock_inv_def by blast
  then have "\<forall>t1 a1 p1. ((threads w)(t \<mapsto> (a, pc'))) t1 = Some (a1, p1) \<longrightarrow> searched c' p1"
    using srch by auto
  moreover have "length (pending_ops c') = URIL_MAX_PENDING_OPS"
    using inv busy by (simp add: lock_inv_def keeps_busy_def)
  moreover have "\<exists>h. p' s_default_mutex = Some h
      \<and> (\<forall>t1. h = Some t1 \<longleftrightarrow> (\<exists>a1 p1. ((threads w)(t \<mapsto> (a, pc'))) t1 = Some (a1, p1) \<and> holding p1))"
    unfolding other using pool held(1) holder by (intro exI [of _ ?held]) simp
  ultimately show ?thesis unfolding lock_inv_def by simp
qed

section \<open>A run of the steps is a run of the sections\<close>

fun section_pc :: "lock_pc \<Rightarrow> cmd_pc" where
  "section_pc Lock_gen = At_gen"
| "section_pc Increment = At_gen"
| "section_pc (Unlock_gen uid) = At_acquire uid"
| "section_pc (Lock_cmd uid) = At_acquire uid"
| "section_pc (Search uid i) = At_acquire uid"
| "section_pc (Unlock_cmd uid None) = Returned (-1)"
| "section_pc (Unlock_cmd uid (Some i)) = At_cb uid i"
| "section_pc (Unlocked pc) = pc"

definition section_world :: "'s lock_world \<Rightarrow> 's cmd_world" where
  "section_world w =
     \<lparr>shared = client w, calls = (\<lambda>t. map_option (\<lambda>(a, pc). (a, section_pc pc)) (threads w t)),
      unanswered = awaited w\<rparr>"

lemma section_world_go:
  "section_world (w\<lparr>pool := p', client := c', threads := (threads w)(t \<mapsto> (a, pc')), awaited := u\<rparr>)
   = \<lparr>shared = c', calls = (calls (section_world w))(t \<mapsto> (a, section_pc pc')), unanswered = u\<rparr>"
  by (auto simp: section_world_def)

text \<open>A thread's step is either none of the sections or one.\<close>

lemma stutter:
  assumes "threads w t = Some (a, pc)" and "section_pc pc' = section_pc pc"
  shows "section_world (w\<lparr>pool := p', client := client w, threads := (threads w)(t \<mapsto> (a, pc')),
      awaited := awaited w\<rparr>) = section_world w"
proof -
  have "calls (section_world w) t = Some (a, section_pc pc')" using assms by (simp add: section_world_def)
  then show ?thesis unfolding section_world_go by (simp add: section_world_def fun_upd_idem)
qed

lemma one_section:
  assumes "threads w t = Some (a, pc)" and "\<forall>r. section_pc pc \<noteq> Returned r"
    and "call_section send a (section_pc pc) (client w) = Ok (section_pc pc', c')"
    and "u = (case section_pc pc of
        At_send uid i \<Rightarrow> if section_pc pc' = Returned 0 then (awaited w)(uid \<mapsto> a) else awaited w
      | _ \<Rightarrow> awaited w)"
  shows "cmd_step send polite (Section t) (section_world w)
    (section_world (w\<lparr>pool := p', client := c', threads := (threads w)(t \<mapsto> (a, pc')), awaited := u\<rparr>))"
proof -
  have t: "calls (section_world w) t = Some (a, section_pc pc)" using assms(1) by (simp add: section_world_def)
  have "shared (section_world w) = client w" "unanswered (section_world w) = awaited w"
    by (simp_all add: section_world_def)
  from section_call [OF t assms(2), of send, unfolded this, OF assms(3) assms(4), of polite]
  show ?thesis unfolding section_world_go by (simp add: section_world_def)
qed

lemma search_found:
  assumes "\<forall>j < i. busy (pending_ops c ! j) \<noteq> 0" and "i < length (pending_ops c)"
    and "busy (pending_ops c ! i) = 0"
  shows "call_section send a (At_acquire uid) c = Ok (At_cb uid i, write_slot i (\<lambda>x. x\<lparr>busy := 1\<rparr>) c)"
proof -
  have "find_slot (\<lambda>x. busy x = 0) (pending_ops c) 0 = Some i" using assms by (simp add: find_slot_0_Some)
  then show ?thesis by (simp add: acquire_free_op_slot_def write_slot_def)
qed

lemma search_failed:
  assumes "\<forall>j < length (pending_ops c). busy (pending_ops c ! j) \<noteq> 0"
  shows "call_section send a (At_acquire uid) c = Ok (Returned (-1), c)"
proof -
  have "find_slot (\<lambda>x. busy x = 0) (pending_ops c) 0 = None"
    using assms by (auto simp: find_slot_None in_set_conv_nth)
  then show ?thesis by (simp add: acquire_free_op_slot_def)
qed

lemma held_mutex:
  assumes "lock_inv w" and "threads w t = Some (a, pc)"
  shows "(holding pc \<longrightarrow> pool w s_default_mutex = Some (Some t))
    \<and> (\<exists>held. pool w s_default_mutex = Some held \<and> (\<not> holding pc \<longrightarrow> held \<noteq> Some t))"
proof -
  obtain held where "pool w s_default_mutex = Some held"
    "\<And>t. held = Some t \<longleftrightarrow> (\<exists>a pc. threads w t = Some (a, pc) \<and> holding pc)"
    using lock_invD [OF assms(1)] by blast
  with assms(2) show ?thesis by auto
qed

lemma lock_go_simulates:
  assumes inv: "lock_inv w" and t: "threads w t = Some (a, pc)" and nf: "\<not> finished pc"
    and sec: "lock_section t send a pc (pool w, client w) = Ok (Some (pc', p', c'))"
  defines "w' \<equiv> w\<lparr>pool := p', client := c', threads := (threads w)(t \<mapsto> (a, pc')),
      awaited := awaited_after pc pc' a (awaited w)\<rparr>"
  shows "lock_inv w' \<and> (section_world w' = section_world w
    \<or> cmd_step send polite (Section t) (section_world w) (section_world w'))"
proof -
  obtain held where held: "pool w s_default_mutex = Some held"
    "holding pc \<longrightarrow> held = Some t" "\<not> holding pc \<longrightarrow> held \<noteq> Some t"
    using held_mutex [OF inv t] by auto
  have len: "length (pending_ops (client w)) = URIL_MAX_PENDING_OPS" using inv by (simp add: lock_inv_def)
  have srch: "searched (client w) pc" using inv t unfolding lock_inv_def by blast
  note go = lock_inv_go [OF inv t, of p' pc' c' "awaited_after pc pc' a (awaited w)", folded w'_def]
  have quiet: "section_world w' = section_world w"
    if "section_pc pc' = section_pc pc" "c' = client w" "awaited_after pc pc' a (awaited w) = awaited w"
    unfolding w'_def that(2,3) by (rule stutter [OF t that(1)])
  show ?thesis
  proof (cases pc)
    case Lock_gen
    then have "held = None" "p' = (pool w)(s_default_mutex \<mapsto> Some t)" "pc' = Increment" "c' = client w"
      using sec held(1) by (auto simp: s_unique_id_gen_mutex_def lock_default split: if_splits)
    then show ?thesis using go quiet held(1) by (simp add: Lock_gen awaited_after_def)
  next
    case Increment
    then have e: "p' = pool w" "pc' = Unlock_gen (s_unique_msg_id (client w) + 1)"
      "c' = (client w)\<lparr>s_unique_msg_id := s_unique_msg_id (client w) + 1\<rparr>"
      using sec by auto
    have "cmd_step send polite (Section t) (section_world w) (section_world w')"
      unfolding w'_def by (rule one_section [OF t]) (simp_all add: Increment e awaited_after_def)
    then show ?thesis using go held by (simp add: Increment e)
  next
    case (Unlock_gen uid)
    then have "p' = (pool w)(s_default_mutex \<mapsto> None)" "pc' = Lock_cmd uid" "c' = client w"
      using sec held(1) by (auto simp: s_unique_id_gen_mutex_def unlock_default)
    then show ?thesis using go quiet by (simp add: Unlock_gen awaited_after_def)
  next
    case (Lock_cmd uid)
    then have "held = None" "p' = (pool w)(s_default_mutex \<mapsto> Some t)" "pc' = Search uid 0" "c' = client w"
      using sec held(1) by (auto simp: cmd_mutex_def lock_default split: if_splits)
    then show ?thesis using go quiet held(1) by (simp add: Lock_cmd awaited_after_def)
  next
    case (Search uid i)
    then have pass: "i \<le> URIL_MAX_PENDING_OPS" "\<forall>j < i. busy (pending_ops (client w) ! j) \<noteq> 0"
      using srch by simp_all
    consider (found) "i < URIL_MAX_PENDING_OPS" "busy (pending_ops (client w) ! i) = 0"
      | (passed) "i < URIL_MAX_PENDING_OPS" "busy (pending_ops (client w) ! i) \<noteq> 0"
      | (full) "i = URIL_MAX_PENDING_OPS"
      using pass(1) by fastforce
    then show ?thesis
    proof cases
      case found
      then have e: "p' = pool w" "pc' = Unlock_cmd uid (Some i)"
        "c' = write_slot i (\<lambda>x. x\<lparr>busy := 1\<rparr>) (client w)"
        using sec by (auto simp: Search)
      have "cmd_step send polite (Section t) (section_world w) (section_world w')"
        unfolding w'_def using search_found [OF pass(2) _ found(2)] found(1) len
        by (intro one_section [OF t]) (simp_all add: Search e awaited_after_def del: call_section.simps)
      moreover have "keeps_busy (client w) c'" unfolding e by (rule keeps_busy_write) simp
      ultimately show ?thesis using go held by (simp add: Search e)
    next
      case passed
      then have "p' = pool w" "pc' = Search uid (Suc i)" "c' = client w" using sec by (auto simp: Search)
      then show ?thesis using go quiet held pass passed
        by (simp add: Search awaited_after_def less_Suc_eq)
    next
      case full
      then have e: "p' = pool w" "pc' = Unlock_cmd uid None" "c' = client w" using sec by (auto simp: Search)
      have "cmd_step send polite (Section t) (section_world w) (section_world w')"
        unfolding w'_def using search_failed [of "client w"] pass(2) full len
        by (intro one_section [OF t]) (simp_all add: Search e awaited_after_def del: call_section.simps)
      then show ?thesis using go held by (simp add: Search e)
    qed
  next
    case (Unlock_cmd uid found)
    then have e: "p' = (pool w)(s_default_mutex \<mapsto> None)" "c' = client w"
      "pc' = Unlocked (case found of None \<Rightarrow> Returned (-1) | Some i \<Rightarrow> At_cb uid i)"
      using sec held(1) by (auto simp: cmd_mutex_def unlock_default)
    then have "section_pc pc' = section_pc pc" by (simp add: Unlock_cmd split: option.split)
    then show ?thesis using go quiet by (simp add: e Unlock_cmd awaited_after_def)
  next
    case (Unlocked cpc)
    then obtain cpc' where e: "call_section send a cpc (client w) = Ok (cpc', c')" "p' = pool w" "pc' = Unlocked cpc'"
      using sec by (auto simp: outcome_simps simp del: call_section.simps)
    have "cmd_step send polite (Section t) (section_world w) (section_world w')"
      unfolding w'_def using nf e
      by (intro one_section [OF t])
        (auto simp: Unlocked finished_def awaited_after_def simp del: call_section.simps split: cmd_pc.split)
    then show ?thesis using go held call_section_keeps_busy [OF e(1)] by (simp add: Unlocked e)
  qed
qed

lemma free_mutex:
  assumes "lock_inv w" and "pool w s_default_mutex = Some None" and "threads w t = Some (a, pc)"
  shows "\<not> holding pc"
  using held_mutex [OF assms(1,3)] assms(2) by auto

lemma lock_step_simulates:
  assumes "lock_step send polite ev w w'" and inv: "lock_inv w"
  shows "lock_inv w' \<and> (section_world w' = section_world w
    \<or> cmd_step send polite ev (section_world w) (section_world w'))"
  using assms(1)
proof cases
  case (lock_begin t a)
  have "calls (section_world w) t = None" using lock_begin(3) by (simp add: section_world_def)
  moreover have "section_world w' = (section_world w)\<lparr>calls := (calls (section_world w))(t \<mapsto> (a, At_gen))\<rparr>"
    by (auto simp: lock_begin(2) section_world_def)
  ultimately have "cmd_step send polite ev (section_world w) (section_world w')"
    using lock_begin(1,4) by (simp add: begin_call)
  moreover have "\<exists>held. pool w s_default_mutex = Some held
      \<and> (\<forall>t1. held = Some t1 \<longleftrightarrow> (\<exists>a1 p1. ((threads w)(t \<mapsto> (a, Lock_gen))) t1 = Some (a1, p1) \<and> holding p1))"
  proof -
    obtain held where "pool w s_default_mutex = Some held"
      "\<And>t1. held = Some t1 \<longleftrightarrow> (\<exists>a1 p1. threads w t1 = Some (a1, p1) \<and> holding p1)"
      using lock_invD [OF inv] by blast
    with lock_begin(3) show ?thesis by (intro exI [of _ held]) auto
  qed
  ultimately show ?thesis using inv unfolding lock_begin(2) by (simp add: lock_inv_def)
next
  case (lock_go t a pc pc' p' c')
  then show ?thesis using lock_go_simulates [OF inv] by blast
next
  case (lock_answer m r c')
  have len: "length (pending_ops c') = length (pending_ops (client w))"
    using response_table [OF lock_answer(5)] by auto
  have "searched c' pc" if "threads w t = Some (a, pc)" for t a pc
    using free_mutex [OF inv lock_answer(4) that] by (cases pc) auto
  then have "lock_inv w'" using inv len by (simp add: lock_inv_def lock_answer(2))
  moreover have "section_world w' = (section_world w)\<lparr>shared := c',
      unanswered := (unanswered (section_world w))(unique_id m := None)\<rparr>"
    by (simp add: lock_answer(2) section_world_def)
  moreover have "shared (section_world w) = client w" "unanswered (section_world w) = awaited w"
    by (simp_all add: section_world_def)
  ultimately show ?thesis using cmd_step.answer [of polite m "section_world w" r c' send] lock_answer by simp
qed

lemma lock_run_simulates:
  "lock_run send polite evs w w' \<Longrightarrow> lock_inv w \<Longrightarrow>
   lock_inv w' \<and> (\<exists>evs'. length evs' \<le> length evs \<and> cmd_run send polite evs' (section_world w) (section_world w'))"
proof (induction rule: lock_run.induct)
  case (lock_none w)
  then show ?case using cmd_none by fastforce
next
  case (lock_more evs w w1 ev w2)
  then obtain evs' where e: "length evs' \<le> length evs" "cmd_run send polite evs' (section_world w) (section_world w1)"
    "lock_inv w1"
    by blast
  from lock_step_simulates [OF lock_more.hyps(2) e(3)] show ?case
  proof (elim conjE disjE)
    assume "lock_inv w2" "section_world w2 = section_world w1"
    with e show ?thesis by (intro conjI exI [of _ evs']) simp_all
  next
    assume "lock_inv w2" "cmd_step send polite ev (section_world w1) (section_world w2)"
    with e cmd_more [OF e(2)] show ?thesis by (intro conjI exI [of _ "evs' @ [ev]"]) simp_all
  qed
qed

lemma section_world_start: "section_world (lock_start c) = start_world c"
  by (simp add: section_world_def lock_start_def start_world_def)

section \<open>Nobody waits for good\<close>

text \<open>The steps a call has left at most.\<close>

fun steps_left :: "lock_pc \<Rightarrow> nat" where
  "steps_left Lock_gen = URIL_MAX_PENDING_OPS + 11"
| "steps_left Increment = URIL_MAX_PENDING_OPS + 10"
| "steps_left (Unlock_gen uid) = URIL_MAX_PENDING_OPS + 9"
| "steps_left (Lock_cmd uid) = URIL_MAX_PENDING_OPS + 8"
| "steps_left (Search uid i) = URIL_MAX_PENDING_OPS - i + 7"
| "steps_left (Unlock_cmd uid found) = 6"
| "steps_left (Unlocked At_gen) = 6"
| "steps_left (Unlocked (At_acquire uid)) = 5"
| "steps_left (Unlocked (At_cb uid i)) = 4"
| "steps_left (Unlocked (At_data uid i)) = 3"
| "steps_left (Unlocked (At_uid uid i)) = 2"
| "steps_left (Unlocked (At_send uid i)) = 1"
| "steps_left (Unlocked (Returned r)) = 0"

definition work_left :: "'s lock_world \<Rightarrow> nat" where
  "work_left w = (\<Sum>t \<in> dom (threads w). steps_left (snd (the (threads w t))))"

lemma section_uses_step:
  assumes "lock_section t send a pc (p, c) = Ok (Some (pc', p', c'))" and "\<not> finished pc"
  shows "steps_left pc' < steps_left pc"
proof (cases pc)
  case (Unlocked cpc)
  with assms show ?thesis
    by (cases cpc) (auto simp: finished_def outcome_simps acquire_free_op_slot_def split: option.splits)
qed (use assms in \<open>auto simp: outcome_simps Some_map_option split: if_splits option.splits\<close>)

text \<open>The thread that holds the mutex never waits; when nobody holds it, nobody waits.\<close>

lemma can_go:
  assumes inv: "lock_inv w" and t: "threads w t = Some (a, pc)" and nf: "\<not> finished pc"
    and free: "holding pc \<or> pool w s_default_mutex = Some None"
    and send: "\<forall>m. \<exists>r. send m (link (client w)) = Ok r"
  shows "\<exists>w'. lock_step send polite (Section t) w w'"
proof -
  obtain held where held: "pool w s_default_mutex = Some held" using held_mutex [OF inv t] by blast
  have "\<exists>pc' p' c'. lock_section t send a pc (pool w, client w) = Ok (Some (pc', p', c'))"
  proof (cases pc)
    case (Unlocked cpc)
    have "\<exists>pc' c'. call_section send a cpc (client w) = Ok (pc', c')"
    proof (cases cpc)
      case (At_acquire uid)
      then show ?thesis by (cases "acquire_free_op_slot (client w)") (auto split: option.split)
    next
      case (At_send uid i)
      obtain r s where "send (cmd_msg a uid) (link (client w)) = Ok (r, s)"
        using send by (metis surj_pair)
      then show ?thesis by (simp add: At_send)
    qed auto
    then show ?thesis by (auto simp: Unlocked simp del: call_section.simps)
  qed (use free held in \<open>auto simp: s_unique_id_gen_mutex_def cmd_mutex_def lock_default unlock_default\<close>)
  then show ?thesis using lock_go [of w t a pc send] t nf by blast
qed

lemma somebody_can_go:
  assumes inv: "lock_inv w" and t: "threads w t = Some (a, pc)" and nf: "\<not> finished pc"
    and send: "\<forall>m. \<exists>r. send m (link (client w)) = Ok r"
  shows "\<exists>t' w'. lock_step send polite (Section t') w w'"
proof -
  obtain held where held: "pool w s_default_mutex = Some held"
    "\<And>t. held = Some t \<longleftrightarrow> (\<exists>a pc. threads w t = Some (a, pc) \<and> holding pc)"
    using lock_invD [OF inv] by blast
  show ?thesis
  proof (cases held)
    case None
    then show ?thesis using can_go [OF inv t nf, of send polite] send held(1) by blast
  next
    case (Some t')
    then obtain a' pc' where t': "threads w t' = Some (a', pc')" "holding pc'" using held(2) by blast
    then have "\<not> finished pc'" by (auto simp: finished_def)
    then show ?thesis using can_go [OF inv t'(1), of send polite] send t'(2) by blast
  qed
qed

lemma step_uses_work:
  assumes "lock_step send polite (Section t) w w'" and "finite (dom (threads w))"
  shows "work_left w' < work_left w"
  using assms(1)
proof cases
  case (lock_go a pc pc' p' c')
  have t: "t \<in> dom (threads w)" using lock_go(2) by blast
  have dom: "dom (threads w') = dom (threads w)" using t by (auto simp: lock_go(1))
  show ?thesis
    unfolding work_left_def dom
  proof (rule sum_strict_mono_ex1 [OF assms(2)])
    show "\<forall>u \<in> dom (threads w). steps_left (snd (the (threads w' u))) \<le> steps_left (snd (the (threads w u)))"
      using section_uses_step [OF lock_go(4,3)] lock_go(1,2) by auto
    show "\<exists>u \<in> dom (threads w). steps_left (snd (the (threads w' u))) < steps_left (snd (the (threads w u)))"
      using section_uses_step [OF lock_go(4,3)] lock_go(1,2) t by (intro bexI [of _ t]) auto
  qed
qed

lemma lock_step_finite:
  assumes "lock_step send polite ev w w'" and fin: "finite (dom (threads w))"
  shows "finite (dom (threads w'))"
proof -
  have upd: "finite (dom ((threads w)(t \<mapsto> x)))" for t x using fin by (simp only: dom_fun_upd finite_insert option.distinct if_False)
  from assms(1) show ?thesis
  proof cases
    case (lock_begin t a)
    with upd [of t "(a, Lock_gen)"] show ?thesis by (simp del: fun_upd_apply dom_fun_upd)
  next
    case (lock_go t a pc pc' p' c')
    with upd [of t "(a, pc')"] show ?thesis by (simp del: fun_upd_apply dom_fun_upd)
  qed (simp add: fin)
qed

lemma lock_run_finite: "lock_run send polite evs w w' \<Longrightarrow> finite (dom (threads w)) \<Longrightarrow> finite (dom (threads w'))"
  by (induction rule: lock_run.induct) (blast intro: lock_step_finite)+

lemma run_uses_work:
  "lock_run send polite evs w w' \<Longrightarrow> finite (dom (threads w)) \<Longrightarrow> set evs \<subseteq> range Section
   \<Longrightarrow> length evs + work_left w' \<le> work_left w"
proof (induction rule: lock_run.induct)
  case (lock_more evs w w1 ev w2)
  then obtain t where "ev = Section t" by auto
  then have "work_left w2 < work_left w1"
    using step_uses_work lock_more.hyps(2) lock_run_finite [OF lock_more.hyps(1) lock_more.prems(1)] by blast
  with lock_more.IH lock_more.prems show ?case by simp
qed simp

section \<open>The connector behind the client\<close>

text \<open>Only the last section of a call uses the connector: a property of its state that \<open>send\<close> keeps is kept.\<close>

lemma call_section_link:
  assumes "call_section send a pc c = Ok (pc', c')"
  shows "link c' = link c \<or> (\<exists>m r. send m (link c) = Ok (r, link c'))"
  using assms
  by (cases pc) (auto simp: acquire_free_op_slot_def outcome_simps write_slot_def split: option.splits if_splits)

lemma invoke_cb_link: "invoke_cb cb m cd c = Ok c' \<Longrightarrow> link c' = link c"
  by (auto simp: invoke_cb_def async_cb_def split: uril_client_async_cb.splits client_ptr.splits option.splits)

lemma lock_step_link:
  assumes "lock_step send polite ev w w'"
  shows "link (client w') = link (client w) \<or> (\<exists>m r. send m (link (client w)) = Ok (r, link (client w')))"
  using assms
proof cases
  case (lock_go t a pc pc' p' c')
  then show ?thesis
    by (cases pc) (auto simp: outcome_simps Some_map_option write_slot_def simp del: call_section.simps
        split: if_splits dest: call_section_link)
next
  case (lock_answer m r c')
  then show ?thesis
    by (auto simp: handle_receive_rsp_def outcome_simps dest!: invoke_cb_link split: if_splits option.splits)
qed simp

lemma lock_run_link:
  assumes "\<And>m s r s'. P s \<Longrightarrow> send m s = Ok (r, s') \<Longrightarrow> P s'"
  shows "lock_run send polite evs w w' \<Longrightarrow> P (link (client w)) \<Longrightarrow> P (link (client w'))"
proof (induction rule: lock_run.induct)
  case (lock_more evs w w1 ev w2)
  then show ?case using lock_step_link [OF lock_more.hyps(2)] assms by metis
qed

end
