(* ===== verification/Lock_Properties.thy ===== *)
theory Lock_Properties
  imports Client_Locks Thread_Properties
begin

text \<open>
  What the locks of the asynchronous command guarantee: the steps of concurrent calls amount to their
  sections, and every call returns although all the mutexes of the library are one mutex.
\<close>

section \<open>Runs by computation\<close>

fun lock_perform ::
    "(uril_protocol_msg_t \<Rightarrow> 's \<Rightarrow> (int \<times> 's) outcome) \<Rightarrow> (nat \<Rightarrow> cmd_args) \<Rightarrow> cmd_event
     \<Rightarrow> 's lock_world \<Rightarrow> 's lock_world option" where
  "lock_perform send args (Begin t) w =
     (if threads w t = None \<and> length (arg_req (args t)) \<le> MAX_URIL_PAYLOAD_SIZE
      then Some (w\<lparr>threads := (threads w)(t \<mapsto> (args t, Lock_gen))\<rparr>) else None)"
| "lock_perform send args (Section t) w =
     (case threads w t of
        None \<Rightarrow> None
      | Some (a, pc) \<Rightarrow>
          if (case pc of Unlocked (Returned r) \<Rightarrow> True | _ \<Rightarrow> False) then None
          else (case lock_section t send a pc (pool w, client w) of
                  Ok (Some (pc', p', c')) \<Rightarrow>
                    Some (w\<lparr>pool := p', client := c', threads := (threads w)(t \<mapsto> (a, pc')),
                      awaited := awaited_after pc pc' a (awaited w)\<rparr>)
                | _ \<Rightarrow> None))"
| "lock_perform send args (Answer m) w = None"

fun lock_performs ::
    "(uril_protocol_msg_t \<Rightarrow> 's \<Rightarrow> (int \<times> 's) outcome) \<Rightarrow> (nat \<Rightarrow> cmd_args) \<Rightarrow> cmd_event list
     \<Rightarrow> 's lock_world \<Rightarrow> 's lock_world option" where
  "lock_performs send args [] w = Some w"
| "lock_performs send args (ev # evs) w = Option.bind (lock_perform send args ev w) (lock_performs send args evs)"

lemma lock_perform_step:
  assumes "lock_perform send args ev w = Some w'"
  shows "lock_step send polite ev w w'"
proof (cases ev)
  case (Begin t)
  with assms show ?thesis by (auto intro: lock_begin split: if_splits)
next
  case (Section t)
  obtain a pc where t: "threads w t = Some (a, pc)" using assms Section by (auto split: option.splits)
  have pc: "\<not> finished pc" using assms Section t by (auto simp: finished_def)
  obtain pc' p' c' where "lock_section t send a pc (pool w, client w) = Ok (Some (pc', p', c'))"
    using assms Section t
    by (auto simp del: lock_section.simps split: if_splits outcome.splits option.splits)
  with assms Section t lock_go [OF t pc this] show ?thesis
    by (simp del: lock_section.simps split: if_splits)
qed (use assms in simp)

lemma lock_performs_run_from:
  "lock_performs send args evs w1 = Some w2 \<Longrightarrow> lock_run send polite evs0 w w1
   \<Longrightarrow> lock_run send polite (evs0 @ evs) w w2"
proof (induction evs arbitrary: w1 evs0)
  case (Cons ev evs)
  then obtain w' where w': "lock_perform send args ev w1 = Some w'" "lock_performs send args evs w' = Some w2"
    by (auto simp: bind_eq_Some_conv)
  from Cons.IH [OF w'(2) lock_more [OF Cons.prems(2) lock_perform_step [OF w'(1)]]] show ?case by simp
qed simp

lemma lock_performs_run:
  "\<exists>w'. lock_performs send args evs w = Some w' \<and> P w' \<Longrightarrow> \<exists>w'. lock_run send polite evs w w' \<and> P w'"
  using lock_performs_run_from [OF _ lock_none] by fastforce

lemma lock_performs_case:
  "(case lock_performs send args evs w of None \<Rightarrow> False | Some w' \<Rightarrow> P w')
   \<Longrightarrow> \<exists>w'. lock_performs send args evs w = Some w' \<and> P w'"
  by (simp split: option.splits)

text \<open>Two threads: the second has its id and waits while the first searches for a slot.\<close>

definition contended :: "cmd_event list" where
  "contended = [Begin 0, Begin 1, Section 0, Section 0, Section 0, Section 1, Section 1, Section 1, Section 0]"

lemma contended_run:
  "\<exists>w. lock_run (send_routine (\<lambda>s. True)) polite contended (lock_start sample_client) w
     \<and> threads w 0 = Some (sample_args, Search 1 0) \<and> threads w 1 = Some (sample_args, Lock_cmd 2)
     \<and> (case lock_section 1 (send_routine (\<lambda>s. True)) sample_args (Lock_cmd 2) (pool w, client w) of
          Ok None \<Rightarrow> True | _ \<Rightarrow> False)"
  by (rule lock_performs_run [where args = "\<lambda>t. sample_args"], rule lock_performs_case) code_simp

section \<open>The guarantees\<close>

lemma start_run_inv:
  "client_inv c \<Longrightarrow> lock_run send polite evs (lock_start c) w \<Longrightarrow> lock_inv w"
  using lock_run_simulates lock_start_inv by blast

text \<open>
  The calls of \<open>lock\<close> and \<open>unlock\<close>, the increment of the id and the search of the table, slot by
  slot, interleaved in any way, have the effect of a run of the sections as atomic steps.
\<close>

lemma locked_sections_atomic:
  assumes "client_inv c" and "lock_run send polite evs (lock_start c) w"
  shows "\<exists>evs'. length evs' \<le> length evs
    \<and> cmd_run send polite evs' (start_world c)
        \<lparr>shared = client w, calls = (\<lambda>t. map_option (\<lambda>(a, pc). (a, section_pc pc)) (threads w t)),
         unanswered = awaited w\<rparr>"
  using lock_run_simulates [OF assms(2) lock_start_inv [OF assms(1)]]
  unfolding section_world_start by (simp add: section_world_def)

lemma locked_sections_atomic_witness:
  "\<exists>w evs'. lock_run (send_routine (\<lambda>s. True)) True contended (lock_start sample_client) w
     \<and> length evs' \<le> 9
     \<and> cmd_run (send_routine (\<lambda>s. True)) True evs' (start_world sample_client)
        \<lparr>shared = client w, calls = (\<lambda>t. map_option (\<lambda>(a, pc). (a, section_pc pc)) (threads w t)),
         unanswered = awaited w\<rparr>"
proof -
  obtain w where w: "lock_run (send_routine (\<lambda>s. True)) True contended (lock_start sample_client) w"
    using contended_run by blast
  have "length contended = 9" by (simp add: contended_def)
  with locked_sections_atomic [OF sample_inv w] w show ?thesis by auto
qed

lemma steps_left_bound: "steps_left pc \<le> 27"
proof (cases pc)
  case (Unlocked cpc)
  then show ?thesis by (cases cpc) simp_all
qed (simp_all add: URIL_MAX_PENDING_OPS_def)

lemma work_left_bound: "work_left w \<le> 27 * card (dom (threads w))"
  using sum_bounded_above [of "dom (threads w)" "\<lambda>t. steps_left (snd (the (threads w t)))" 27]
  by (simp add: work_left_def steps_left_bound mult.commute)

text \<open>
  Every call returns, whatever the scheduling, when the connector's send does and keeps the
  connector usable: from any reachable state
  the calls make at most 27 steps each, and when no call can make a step all have returned.  No thread waits
  for good, although \<open>s_unique_id_gen_mutex\<close> and \<open>cmd_mutex\<close> are the same pthread mutex.
\<close>

lemma commands_return:
  assumes "client_inv c" and "lock_run send polite evs (lock_start c) w"
    and "link_ok (link c)"
    and "\<forall>m s. link_ok s \<longrightarrow> (\<exists>r s'. send m s = Ok (r, s') \<and> link_ok s')"
    and "lock_run send polite evs' w w'" and "set evs' \<subseteq> range Section"
  shows "length evs' \<le> 27 * card (dom (threads w))
    \<and> ((\<forall>t w''. \<not> lock_step send polite (Section t) w' w'') \<longrightarrow>
         (\<forall>t a pc. threads w' t = Some (a, pc) \<longrightarrow> (\<exists>r. pc = Unlocked (Returned r))))"
proof -
  have "finite (dom (threads w))" using lock_run_finite [OF assms(2)] by (simp add: lock_start_def)
  then have "length evs' \<le> work_left w" using run_uses_work [OF assms(5) _ assms(6)] by fastforce
  moreover have "lock_inv w'" using lock_run_simulates [OF assms(5) start_run_inv [OF assms(1,2)]] by blast
  moreover have "link_ok (link (client w'))"
  proof -
    have keep: "link_ok s'" if "link_ok s" "send m s = Ok (r, s')" for m s r s' 
      using assms(4) that by (metis Pair_inject outcome.inject(1))
    have "link_ok (link (client w))" using lock_run_link [of link_ok, OF keep assms(2)] assms(3) by (simp add: lock_start_def)
    then show ?thesis using lock_run_link [of link_ok, OF keep assms(5)] by simp
  qed
  then have "\<forall>m. \<exists>r. send m (link (client w')) = Ok r" using assms(4) by blast
  ultimately show ?thesis
    using work_left_bound [of w] somebody_can_go [of w' _ _ _ send polite] unfolding finished_def by fastforce
qed

text \<open>The rest of the two calls, one after the other; both have their slot and are sent.\<close>

definition remainder :: "cmd_event list" where
  "remainder = replicate 6 (Section 0) @ replicate 8 (Section 1)"

lemma remainder_run:
  "\<exists>w. lock_run (send_routine (\<lambda>s. True)) polite contended (lock_start sample_client) w
     \<and> (\<exists>w'. lock_run (send_routine (\<lambda>s. True)) polite remainder w w'
         \<and> threads w' 0 = Some (sample_args, Unlocked (Returned 0))
         \<and> threads w' 1 = Some (sample_args, Unlocked (Returned 0)))"
proof (rule lock_performs_run [where args = "\<lambda>t. sample_args"], rule lock_performs_case)
  have "case lock_performs (send_routine (\<lambda>s. True)) (\<lambda>t. sample_args) contended (lock_start sample_client) of
      None \<Rightarrow> False
    | Some w \<Rightarrow> (case lock_performs (send_routine (\<lambda>s. True)) (\<lambda>t. sample_args) remainder w of
        None \<Rightarrow> False
      | Some w' \<Rightarrow> threads w' 0 = Some (sample_args, Unlocked (Returned 0))
         \<and> threads w' 1 = Some (sample_args, Unlocked (Returned 0)))"
    by code_simp
  then show "case lock_performs (send_routine (\<lambda>s. True)) (\<lambda>t. sample_args) contended (lock_start sample_client) of
      None \<Rightarrow> False
    | Some w \<Rightarrow> \<exists>w'. lock_run (send_routine (\<lambda>s. True)) polite remainder w w'
         \<and> threads w' 0 = Some (sample_args, Unlocked (Returned 0))
         \<and> threads w' 1 = Some (sample_args, Unlocked (Returned 0))"
    using lock_performs_run [OF lock_performs_case] by (fastforce split: option.splits)
qed

lemma sends_connected:
  "\<forall>m s. connected s \<longrightarrow> (\<exists>r s'. send_routine (\<lambda>s. True) m s = Ok (r, s') \<and> connected s')"
  by (auto simp: connected_def send_routine_def deref_ctx_def)

lemma commands_return_witness:
  "\<exists>w w'. lock_run (send_routine (\<lambda>s. True)) True contended (lock_start sample_client) w
     \<and> lock_run (send_routine (\<lambda>s. True)) True remainder w w'
     \<and> threads w' 0 = Some (sample_args, Unlocked (Returned 0))
     \<and> threads w' 1 = Some (sample_args, Unlocked (Returned 0))
     \<and> 14 \<le> 27 * card (dom (threads w))"
proof -
  obtain w w' where w: "lock_run (send_routine (\<lambda>s. True)) True contended (lock_start sample_client) w"
    "lock_run (send_routine (\<lambda>s. True)) True remainder w w'"
    "threads w' 0 = Some (sample_args, Unlocked (Returned 0))"
    "threads w' 1 = Some (sample_args, Unlocked (Returned 0))"
    using remainder_run by blast
  have "length remainder = 14" "set remainder \<subseteq> range Section" by (auto simp: remainder_def)
  moreover have "connected (link sample_client)"
    using sample_connected by (simp add: sample_client_def new_client_def)
  ultimately show ?thesis
    using commands_return [OF sample_inv w(1) _ sends_connected w(2)] w by auto
qed

end
