(* ===== verification/Client_Wait.thy ===== *)
theory Client_Wait
  imports Uril_Client
begin

text \<open>
  The end of \<open>uril_client_execute_command_sync\<close> and \<open>async_cb\<close>, step by step: the caller's thread locks
  the mutex of the command, looks at \<open>params.condition\<close>, waits and returns, while the receive thread
  runs the callback, which copies the response, sets \<open>params->condition\<close> under the mutex and signals
  after it.  The frame \<open>params\<close> and the two objects it points at are gone when the caller has returned.
\<close>

section \<open>Steps\<close>

datatype wait_pc =
    Sw_lock
  | Sw_check
  | Sw_blocked timespec
  | Sw_test int
  | Sw_unlock u32
  | Sw_destroy_cond u32
  | Sw_destroy_mutex u32
  | Sw_done u32 "u8 list"

datatype cb_pc = Cb_copy | Cb_lock | Cb_set | Cb_unlock | Cb_signal | Cb_end

record sync_world =
  mutexes :: mutex_pool
  conds :: cond_pool
  sync_mutex :: osal_mutex_t
  signal_cond :: osal_condition_t
  params :: "async_params option"
  caller :: wait_pc
  callback :: cb_pc

definition clock_timespec :: "timeval \<Rightarrow> timespec" where
  "clock_timespec tv = \<lparr>ts_sec = tv_sec tv, ts_nsec = 1000 * tv_usec tv\<rparr>"

text \<open>
  A step of the caller, thread 0; \<open>None\<close> where it waits.  The clock shows \<open>tv\<close>.  When the timed wait
  fails, the caller leaves by \<open>EXIT\<close> with the mutex locked.
\<close>

definition caller_step :: "u32 \<Rightarrow> wake \<Rightarrow> timeval \<Rightarrow> sync_world \<Rightarrow> sync_world option outcome" where
  "caller_step timeout_ms why tv w =
     (case params w of
        None \<Rightarrow> Ok None
      | Some f \<Rightarrow>
        (case caller w of
           Sw_lock \<Rightarrow>
             map_ok (map_option (\<lambda>(r, p). w\<lparr>mutexes := p, caller := if r \<noteq> 0 then Sw_destroy_cond (-1) else Sw_check\<rparr>))
               (osal_mutex_unix_lock 0 (sync_mutex w) (mutexes w))
         | Sw_check \<Rightarrow>
             if condition f then Ok (Some (w\<lparr>caller := Sw_unlock 0\<rparr>))
             else map_ok (map_option (\<lambda>(cs, p). w\<lparr>conds := cs, mutexes := p,
                    caller := Sw_blocked (deadline tv timeout_ms)\<rparr>))
                  (wait_begins 0 (signal_cond w) (sync_mutex w) (conds w, mutexes w))
         | Sw_blocked dl \<Rightarrow>
             map_ok (map_option (\<lambda>(r, cs, p). w\<lparr>conds := cs, mutexes := p, caller := Sw_test r\<rparr>))
               (wait_ends 0 why dl (clock_timespec tv) (signal_cond w) (sync_mutex w) (conds w, mutexes w))
         | Sw_test cond_ret \<Rightarrow>
             Ok (Some (w\<lparr>caller := if cond_ret \<noteq> 0 then Sw_destroy_cond (-1)
                              else Sw_unlock (if condition f then 0 else -1)\<rparr>))
         | Sw_unlock ret \<Rightarrow>
             map_ok (map_option (\<lambda>(r, p). w\<lparr>mutexes := p, caller := Sw_destroy_cond ret\<rparr>))
               (osal_mutex_unix_unlock (sync_mutex w) (mutexes w))
         | Sw_destroy_cond ret \<Rightarrow>
             map_ok (\<lambda>(r, cs). Some (w\<lparr>conds := cs, caller := Sw_destroy_mutex ret\<rparr>))
               (osal_condition_unix_destroy (signal_cond w) (conds w))
         | Sw_destroy_mutex ret \<Rightarrow>
             map_ok (\<lambda>(r, p). Some (w\<lparr>mutexes := p, params := None, caller := Sw_done ret (resp f)\<rparr>))
               (osal_mutex_unix_destroy (sync_mutex w) (mutexes w))
         | Sw_done ret buf \<Rightarrow> Ok None))"

text \<open>A step of the callback, on the receive thread, thread 1; each of them reads \<open>params\<close>.\<close>

definition callback_step :: "(nat list \<Rightarrow> nat) \<Rightarrow> u8 list \<Rightarrow> sync_world \<Rightarrow> sync_world option outcome" where
  "callback_step pick data w =
     (if callback w = Cb_end then Ok None
      else case params w of
        None \<Rightarrow> Fault Use_after_free
      | Some f \<Rightarrow>
        (case callback w of
           Cb_copy \<Rightarrow>
             Ok (Some (w\<lparr>params := Some (f\<lparr>resp := overlay (take (min (resp_len f) (length data)) data) (resp f),
                    success := True\<rparr>), callback := Cb_lock\<rparr>))
         | Cb_lock \<Rightarrow>
             map_ok (map_option (\<lambda>(r, p). w\<lparr>mutexes := p, callback := Cb_set\<rparr>))
               (osal_mutex_unix_lock 1 (sync_mutex w) (mutexes w))
         | Cb_set \<Rightarrow> Ok (Some (w\<lparr>params := Some (f\<lparr>condition := True\<rparr>), callback := Cb_unlock\<rparr>))
         | Cb_unlock \<Rightarrow>
             map_ok (map_option (\<lambda>(r, p). w\<lparr>mutexes := p, callback := Cb_signal\<rparr>))
               (osal_mutex_unix_unlock (sync_mutex w) (mutexes w))
         | Cb_signal \<Rightarrow>
             map_ok (\<lambda>(r, cs). Some (w\<lparr>conds := cs, callback := Cb_end\<rparr>))
               (osal_condition_unix_signal pick (signal_cond w) (conds w))
         | Cb_end \<Rightarrow> Ok None))"

datatype sync_event = By_caller wake timeval | By_callback

fun sync_step :: "(nat list \<Rightarrow> nat) \<Rightarrow> u32 \<Rightarrow> u8 list \<Rightarrow> sync_event \<Rightarrow> sync_world \<Rightarrow> sync_world option outcome" where
  "sync_step pick ms data (By_caller why tv) w = caller_step ms why tv w"
| "sync_step pick ms data By_callback w = callback_step pick data w"

text \<open>A run of steps; \<open>Ok None\<close> when a thread is made to step that waits.\<close>

fun sync_exec :: "(nat list \<Rightarrow> nat) \<Rightarrow> u32 \<Rightarrow> u8 list \<Rightarrow> sync_event list \<Rightarrow> sync_world \<Rightarrow> sync_world option outcome" where
  "sync_exec pick ms data [] w = Ok (Some w)"
| "sync_exec pick ms data (ev # evs) w =
     bind_outcome (sync_step pick ms data ev w) (\<lambda>r.
       case r of None \<Rightarrow> Ok None | Some w' \<Rightarrow> sync_exec pick ms data evs w')"

text \<open>After the command was sent: the mutex at \<open>mp\<close> and the condition at \<open>cp\<close> are new.\<close>

definition sync_sent :: "nat \<Rightarrow> nat \<Rightarrow> u8 list \<Rightarrow> sync_world" where
  "sync_sent mp cp buf =
     (let (r, m, pool) = osal_mutex_unix_init (Some mp) 0 UNIX_MUTEX static_pool;
          (r', c, cs) = osal_condition_unix_init (Some cp) 0 UNIX_CONDITION [s_default_condition \<mapsto> []]
      in \<lparr>mutexes = pool, conds = cs, sync_mutex = m, signal_cond = c,
          params = Some \<lparr>success = False, condition = False, resp = buf, resp_len = length buf, waiting_op = False\<rparr>,
          caller = Sw_lock, callback = Cb_copy\<rparr>)"

section \<open>The invariant\<close>

definition answer_in :: "u8 list \<Rightarrow> u8 list \<Rightarrow> u8 list" where
  "answer_in data buf = overlay (take (min (length buf) (length data)) data) buf"

text \<open>In a \<open>strict\<close> run a wait ends only when the thread has been woken.\<close>

fun pc_ok :: "bool \<Rightarrow> wait_pc \<Rightarrow> bool \<Rightarrow> bool" where
  "pc_ok strict (Sw_test r) cond \<longleftrightarrow> (strict \<longrightarrow> r = 0 \<and> cond)"
| "pc_ok strict (Sw_unlock r) cond \<longleftrightarrow> (r = 0 \<longrightarrow> cond) \<and> (strict \<longrightarrow> r = 0)"
| "pc_ok strict (Sw_destroy_cond r) cond \<longleftrightarrow> (r = 0 \<longrightarrow> cond) \<and> (strict \<longrightarrow> r = 0)"
| "pc_ok strict (Sw_destroy_mutex r) cond \<longleftrightarrow> (r = 0 \<longrightarrow> cond) \<and> (strict \<longrightarrow> r = 0)"
| "pc_ok strict (Sw_done r b) cond \<longleftrightarrow> False"
| "pc_ok strict pc cond \<longleftrightarrow> True"

text \<open>Who may hold the mutex, and who waits for the condition.\<close>

fun caller_holds :: "wait_pc \<Rightarrow> bool option" where
  "caller_holds Sw_check = Some True"
| "caller_holds (Sw_test r) = Some True"
| "caller_holds (Sw_unlock r) = Some True"
| "caller_holds (Sw_destroy_cond r) = None"
| "caller_holds (Sw_destroy_mutex r) = None"
| "caller_holds pc = Some False"

definition holder_ok :: "wait_pc \<Rightarrow> cb_pc \<Rightarrow> nat option \<Rightarrow> bool" where
  "holder_ok cpc bpc held \<longleftrightarrow>
     (held = Some 1 \<longleftrightarrow> bpc = Cb_set \<or> bpc = Cb_unlock)
     \<and> (\<forall>b. caller_holds cpc = Some b \<longrightarrow> (held = Some 0 \<longleftrightarrow> b)) \<and> (\<forall>t. held = Some t \<longrightarrow> t \<le> 1)"

fun waiters_ok :: "wait_pc \<Rightarrow> cb_pc \<Rightarrow> nat list option \<Rightarrow> bool" where
  "waiters_ok (Sw_blocked dl) bpc ws \<longleftrightarrow> ws = (if bpc = Cb_end then Some [] else Some [0])"
| "waiters_ok (Sw_destroy_mutex r) bpc ws \<longleftrightarrow> ws = None"
| "waiters_ok pc bpc ws \<longleftrightarrow> ws = Some []"

definition cond_set :: "cb_pc \<Rightarrow> bool" where
  "cond_set bpc \<longleftrightarrow> bpc = Cb_unlock \<or> bpc = Cb_signal \<or> bpc = Cb_end"

definition sync_inv :: "bool \<Rightarrow> nat \<Rightarrow> nat \<Rightarrow> u8 list \<Rightarrow> u8 list \<Rightarrow> sync_world \<Rightarrow> bool" where
  "sync_inv strict mp cp data buf w \<longleftrightarrow>
     mutex (sync_mutex w) = Some mp \<and> condition_ptr (signal_cond w) = Some cp
     \<and> (case params w of
          None \<Rightarrow> (\<exists>r b. caller w = Sw_done r b \<and> (r = 0 \<longrightarrow> b = answer_in data buf) \<and> (strict \<longrightarrow> r = 0))
        | Some f \<Rightarrow>
            (\<exists>held. mutexes w mp = Some held \<and> holder_ok (caller w) (callback w) held)
            \<and> waiters_ok (caller w) (callback w) (conds w cp)
            \<and> condition f = cond_set (callback w)
            \<and> resp f = (if callback w = Cb_copy then buf else answer_in data buf)
            \<and> resp_len f = length buf
            \<and> pc_ok strict (caller w) (condition f))"

lemma sync_sent_inv: "sync_inv strict mp cp data buf (sync_sent mp cp buf)"
  by (simp add: sync_inv_def sync_sent_def osal_mutex_unix_init_def osal_condition_unix_init_def
      UNIX_MUTEX_def UNIX_CONDITION_def holder_ok_def cond_set_def Let_def)

text \<open>What the invariant says before the caller has returned.\<close>

lemma sync_inv_cases:
  assumes "sync_inv strict mp cp data buf w"
  obtains (returned) r b where "params w = None" and "caller w = Sw_done r b"
      and "r = 0 \<longrightarrow> b = answer_in data buf" and "strict \<longrightarrow> r = 0"
  | (at_work) f held where "params w = Some f" and "mutex (sync_mutex w) = Some mp"
      and "condition_ptr (signal_cond w) = Some cp" and "mutexes w mp = Some held"
      and "holder_ok (caller w) (callback w) held" and "waiters_ok (caller w) (callback w) (conds w cp)"
      and "condition f = cond_set (callback w)"
      and "resp f = (if callback w = Cb_copy then buf else answer_in data buf)" and "resp_len f = length buf"
      and "pc_ok strict (caller w) (condition f)"
  using assms unfolding sync_inv_def by (cases "params w") auto

lemma sync_invI:
  assumes "params w = Some f" and "mutex (sync_mutex w) = Some mp"
      and "condition_ptr (signal_cond w) = Some cp" and "mutexes w mp = Some held"
      and "holder_ok (caller w) (callback w) held" and "waiters_ok (caller w) (callback w) (conds w cp)"
      and "condition f = cond_set (callback w)"
      and "resp f = (if callback w = Cb_copy then buf else answer_in data buf)" and "resp_len f = length buf"
      and "pc_ok strict (caller w) (condition f)"
  shows "sync_inv strict mp cp data buf w"
  using assms by (simp add: sync_inv_def)

lemma caller_step_ok:
  assumes inv: "sync_inv strict mp cp data buf w" and "mp \<noteq> s_default_mutex" and "cp \<noteq> s_default_condition"
    and "strict \<longrightarrow> why = Woken"
  shows "\<exists>r. caller_step ms why tv w = Ok r \<and> (\<forall>w'. r = Some w' \<longrightarrow> sync_inv strict mp cp data buf w')"
  using inv
proof (cases rule: sync_inv_cases)
  case (at_work f held)
  show ?thesis
  proof (cases "caller w")
    case Sw_lock
    with at_work show ?thesis
      by (auto simp: caller_step_def osal_at holder_ok_def intro!: sync_invI)
  next
    case Sw_check
    with at_work show ?thesis
      by (auto simp: caller_step_def osal_at holder_ok_def cond_set_def intro!: sync_invI)
  next
    case (Sw_blocked dl)
    with at_work assms(4) show ?thesis
      by (auto simp: caller_step_def osal_at holder_ok_def cond_set_def ETIMEDOUT_def intro!: sync_invI split: if_splits)
  next
    case (Sw_test r)
    with at_work show ?thesis
      by (auto simp: caller_step_def holder_ok_def intro!: sync_invI)
  next
    case (Sw_unlock r)
    with at_work show ?thesis
      by (auto simp: caller_step_def osal_at holder_ok_def intro!: sync_invI)
  next
    case (Sw_destroy_cond r)
    with at_work assms(3) show ?thesis
      by (auto simp: caller_step_def osal_at holder_ok_def intro!: sync_invI)
  next
    case (Sw_destroy_mutex r)
    with at_work assms(2) show ?thesis
      by (auto simp: caller_step_def osal_at sync_inv_def cond_set_def)
  qed (use at_work in simp)
qed (simp add: caller_step_def)

lemma callback_step_ok:
  assumes inv: "sync_inv strict mp cp data buf w" and p: "params w \<noteq> None"
    and pick: "\<forall>ws. ws \<noteq> [] \<longrightarrow> pick ws \<in> set ws"
  shows "(\<exists>r. callback_step pick data w = Ok r \<and> (\<forall>w'. r = Some w' \<longrightarrow> sync_inv strict mp cp data buf w'))
    \<or> (\<exists>r. caller w = Sw_destroy_mutex r) \<and> callback w = Cb_signal \<and> callback_step pick data w = Fault Use_after_free"
  using inv
proof (cases rule: sync_inv_cases)
  case (at_work f held)
  have pick0: "pick [0] = 0" using pick by (metis list.discI list.set_intros(1) set_ConsD empty_iff list.set(1))
  show ?thesis
  proof (cases "callback w")
    case Cb_copy
    with at_work show ?thesis
      by (cases "caller w") (auto simp: callback_step_def holder_ok_def cond_set_def answer_in_def intro!: sync_invI)
  next
    case Cb_lock
    with at_work show ?thesis
      by (cases "caller w") (auto simp: callback_step_def osal_at holder_ok_def cond_set_def intro!: sync_invI)
  next
    case Cb_set
    with at_work show ?thesis
      by (cases "caller w") (auto simp: callback_step_def holder_ok_def cond_set_def intro!: sync_invI)
  next
    case Cb_unlock
    with at_work show ?thesis
      by (cases "caller w") (auto simp: callback_step_def osal_at holder_ok_def cond_set_def intro!: sync_invI)
  next
    case Cb_signal
    with at_work pick0 show ?thesis
      by (cases "caller w") (auto simp: callback_step_def osal_at holder_ok_def cond_set_def
          osal_condition_unix_signal_def on_cond_def intro!: sync_invI)
  next
    case Cb_end
    then show ?thesis by (simp add: callback_step_def)
  qed
qed (use p in simp)

lemma callback_step_returned: "params w = None \<Longrightarrow> callback_step pick data w =
    (if callback w = Cb_end then Ok None else Fault Use_after_free)"
  by (simp add: callback_step_def)

section \<open>Runs\<close>

fun woken_only :: "sync_event \<Rightarrow> bool" where
  "woken_only (By_caller why tv) \<longleftrightarrow> why = Woken"
| "woken_only By_callback \<longleftrightarrow> True"

lemma sync_step_inv:
  assumes "sync_step pick ms data ev w = Ok (Some w')" and "sync_inv strict mp cp data buf w"
    and "mp \<noteq> s_default_mutex" and "cp \<noteq> s_default_condition"
    and "\<forall>ws. ws \<noteq> [] \<longrightarrow> pick ws \<in> set ws" and "strict \<longrightarrow> woken_only ev"
  shows "sync_inv strict mp cp data buf w'"
proof (cases ev)
  case (By_caller why tv)
  with assms caller_step_ok [OF assms(2,3,4), of why ms tv] show ?thesis by auto
next
  case By_callback
  show ?thesis
  proof (cases "params w")
    case None
    with assms(1) By_callback show ?thesis by (simp add: callback_step_returned split: if_splits)
  next
    case (Some f)
    with assms By_callback callback_step_ok [OF assms(2) _ assms(5)] show ?thesis by fastforce
  qed
qed

lemma sync_exec_inv:
  assumes "sync_exec pick ms data evs w = Ok (Some w')" and "sync_inv strict mp cp data buf w"
    and "mp \<noteq> s_default_mutex" and "cp \<noteq> s_default_condition"
    and "\<forall>ws. ws \<noteq> [] \<longrightarrow> pick ws \<in> set ws" and "strict \<longrightarrow> list_all woken_only evs"
  shows "sync_inv strict mp cp data buf w'"
  using assms(1,2,6)
proof (induction evs arbitrary: w)
  case (Cons ev evs)
  then obtain w1 where w1: "sync_step pick ms data ev w = Ok (Some w1)" "sync_exec pick ms data evs w1 = Ok (Some w')"
    by (auto simp: outcome_simps split: option.splits)
  with Cons sync_step_inv [OF w1(1) Cons.prems(2) assms(3,4,5)] show ?case by simp
qed simp

text \<open>The steps the two threads have left.\<close>

fun caller_left :: "wait_pc \<Rightarrow> nat" where
  "caller_left Sw_lock = 7"
| "caller_left Sw_check = 6"
| "caller_left (Sw_blocked dl) = 5"
| "caller_left (Sw_test r) = 4"
| "caller_left (Sw_unlock r) = 3"
| "caller_left (Sw_destroy_cond r) = 2"
| "caller_left (Sw_destroy_mutex r) = 1"
| "caller_left (Sw_done r b) = 0"

fun callback_left :: "cb_pc \<Rightarrow> nat" where
  "callback_left Cb_copy = 5"
| "callback_left Cb_lock = 4"
| "callback_left Cb_set = 3"
| "callback_left Cb_unlock = 2"
| "callback_left Cb_signal = 1"
| "callback_left Cb_end = 0"

lemma sync_step_left:
  assumes "sync_step pick ms data ev w = Ok (Some w')"
  shows "caller_left (caller w') + callback_left (callback w') < caller_left (caller w) + callback_left (callback w)"
proof (cases ev)
  case (By_caller why tv)
  with assms show ?thesis
    by (cases "caller w") (auto simp: caller_step_def outcome_simps Some_map_option split: option.splits if_splits)
next
  case By_callback
  with assms show ?thesis
    by (cases "callback w") (auto simp: callback_step_def outcome_simps Some_map_option split: option.splits if_splits)
qed

lemma sync_exec_left:
  "sync_exec pick ms data evs w = Ok (Some w') \<Longrightarrow>
     length evs + caller_left (caller w') + callback_left (callback w') \<le> caller_left (caller w) + callback_left (callback w)"
proof (induction evs arbitrary: w)
  case (Cons ev evs)
  then obtain w1 where w1: "sync_step pick ms data ev w = Ok (Some w1)" "sync_exec pick ms data evs w1 = Ok (Some w')"
    by (auto simp: outcome_simps split: option.splits)
  from sync_step_left [OF w1(1)] Cons.IH [OF w1(2)] show ?case by simp
qed simp

text \<open>The caller can go on when the callback is over, and before that one of the two can.\<close>

lemma sync_progress:
  assumes inv: "sync_inv strict mp cp data buf w" and "mp \<noteq> s_default_mutex" and "cp \<noteq> s_default_condition"
    and busy: "params w \<noteq> None"
  shows "(\<exists>w'. caller_step ms Woken tv w = Ok (Some w'))
    \<or> callback w \<noteq> Cb_end \<and> ((\<exists>w'. callback_step pick data w = Ok (Some w')))"
  using inv
proof (cases rule: sync_inv_cases)
  case (at_work f held)
  have held: "held = None \<or> held = Some 0 \<or> held = Some 1"
    using at_work(5) by (cases held) (auto simp: holder_ok_def le_Suc_eq)
  show ?thesis
  proof (cases "held = Some 1 \<or> (\<exists>dl. caller w = Sw_blocked dl) \<and> callback w \<noteq> Cb_end")
    case True
    then show ?thesis using at_work
      by (cases "callback w"; cases "caller w") (auto simp: callback_step_def osal_at holder_ok_def)
  next
    case False
    then have "\<exists>w'. caller_step ms Woken tv w = Ok (Some w')"
      using held at_work assms(2,3)
      by (cases "caller w") (auto simp: caller_step_def osal_at holder_ok_def split: if_splits)
    then show ?thesis by blast
  qed
qed (use busy in simp)

text \<open>A run faults only where the callback looks at the frame after the caller has begun to leave.\<close>

lemma sync_step_faults:
  assumes "sync_step pick ms data ev w = Fault e" and inv: "sync_inv False mp cp data buf w"
    and "mp \<noteq> s_default_mutex" and "cp \<noteq> s_default_condition" and "\<forall>ws. ws \<noteq> [] \<longrightarrow> pick ws \<in> set ws"
  shows "ev = By_callback \<and> e = Use_after_free
    \<and> ((\<exists>r b. caller w = Sw_done r b) \<or> (\<exists>r. caller w = Sw_destroy_mutex r) \<and> callback w = Cb_signal)"
proof (cases ev)
  case (By_caller why tv)
  with assms caller_step_ok [OF inv assms(3,4), of why ms tv] show ?thesis by auto
next
  case By_callback
  show ?thesis
  proof (cases "params w = None")
    case True
    with assms(1) By_callback inv show ?thesis
      by (auto simp: callback_step_returned split: if_splits elim: sync_inv_cases)
  next
    case False
    with assms(1) By_callback callback_step_ok [OF inv False assms(5)] show ?thesis by auto
  qed
qed

lemma sync_exec_faults:
  assumes "sync_exec pick ms data evs w = Fault e" and "sync_inv False mp cp data buf w"
    and "mp \<noteq> s_default_mutex" and "cp \<noteq> s_default_condition" and "\<forall>ws. ws \<noteq> [] \<longrightarrow> pick ws \<in> set ws"
  shows "e = Use_after_free \<and> (\<exists>before after w'. evs = before @ By_callback # after
    \<and> sync_exec pick ms data before w = Ok (Some w')
    \<and> ((\<exists>r b. caller w' = Sw_done r b) \<or> (\<exists>r. caller w' = Sw_destroy_mutex r) \<and> callback w' = Cb_signal))"
  using assms(1,2)
proof (induction evs arbitrary: w)
  case (Cons ev evs)
  show ?case
  proof (cases "sync_step pick ms data ev w")
    case (Fault e')
    with Cons.prems(1) have "sync_step pick ms data ev w = Fault e" by simp
    from sync_step_faults [OF this Cons.prems(2) assms(3,4,5)] show ?thesis
      by (intro conjI exI [of _ "[]"] exI [of _ evs] exI [of _ w]) auto
  next
    case (Ok r)
    with Cons.prems(1) obtain w1 where w1: "sync_step pick ms data ev w = Ok (Some w1)" "sync_exec pick ms data evs w1 = Fault e"
      by (auto split: option.splits)
    from Cons.IH [OF w1(2) sync_step_inv [OF w1(1) Cons.prems(2) assms(3,4,5)]]
    obtain before after w' where "e = Use_after_free" and *: "evs = before @ By_callback # after"
      "sync_exec pick ms data before w1 = Ok (Some w')"
      "(\<exists>r b. caller w' = Sw_done r b) \<or> (\<exists>r. caller w' = Sw_destroy_mutex r) \<and> callback w' = Cb_signal"
      by auto
    with w1(1) show ?thesis
      by (intro conjI exI [of _ "ev # before"] exI [of _ after] exI [of _ w']) auto
  qed
qed simp

lemmas sync_compute =
  sync_sent_def caller_step_def callback_step_def Let_def osal_mutex_unix_init_def
  osal_condition_unix_init_def osal_at s_default_mutex_def s_default_condition_def

end
