(* ===== verification/Wait_Properties.thy ===== *)
theory Wait_Properties
  imports Client_Wait
begin

text \<open>
  The wait of a synchronous command, for every interleaving of the caller and the callback: what the
  result means, that the wakeup is not lost, and the one way in which it goes wrong.
\<close>

definition first_waiter :: "nat list \<Rightarrow> nat" where
  "first_waiter ws = hd ws"

lemma first_waiter: "\<forall>ws. ws \<noteq> [] \<longrightarrow> first_waiter ws \<in> set ws"
  by (simp add: first_waiter_def)

definition clock :: timeval where
  "clock = \<lparr>tv_sec = 100, tv_usec = 5\<rparr>"

text \<open>The caller waits before the response comes, and is woken.\<close>

abbreviation caller_goes :: sync_event where
  "caller_goes \<equiv> By_caller Woken clock"

definition woken_run :: "sync_event list" where
  "woken_run = [caller_goes, caller_goes, By_callback, By_callback, By_callback, By_callback, By_callback,
     caller_goes, caller_goes, caller_goes, caller_goes, caller_goes]"

lemma woken_run:
  "\<exists>w. sync_exec first_waiter 500 [7, 8] woken_run (sync_sent 4096 8192 [0, 0, 0]) = Ok (Some w)
     \<and> (\<exists>r b. caller w = Sw_done r b)"
  by (simp add: woken_run_def sync_compute first_waiter_def)

lemma heap_addresses: "4096 \<noteq> s_default_mutex" "8192 \<noteq> s_default_condition"
  by (simp_all add: s_default_mutex_def s_default_condition_def)

text \<open>
  C20: Result 0 of the wait means that the response is in the caller's buffer, whatever the interleaving, the
  clock and the spurious wakeups; when the wait neither times out nor ends spuriously, the result is 0.
\<close>

lemma sync_wait_sound:
  assumes "sync_exec pick ms data evs (sync_sent mp cp buf) = Ok (Some w)" and "caller w = Sw_done r b"
    and "mp \<noteq> s_default_mutex" and "cp \<noteq> s_default_condition" and "\<forall>ws. ws \<noteq> [] \<longrightarrow> pick ws \<in> set ws"
  shows "(r = 0 \<longrightarrow> b = overlay (take (min (length buf) (length data)) data) buf)
    \<and> (list_all woken_only evs \<longrightarrow> r = 0)"
proof -
  have "sync_inv strict mp cp data buf w" if "strict \<longrightarrow> list_all woken_only evs" for strict
    using sync_exec_inv [OF assms(1) sync_sent_inv assms(3,4,5) that] .
  from this [of "list_all woken_only evs"] assms(2) show ?thesis
    by (auto simp: answer_in_def elim: sync_inv_cases)
qed

lemma sync_wait_sound_witness:
  "\<exists>w. sync_exec first_waiter 500 [7, 8] woken_run (sync_sent 4096 8192 [0, 0, 0]) = Ok (Some w)
     \<and> caller w = Sw_done 0 [7, 8, 0]"
proof -
  obtain w r b where w: "sync_exec first_waiter 500 [7, 8] woken_run (sync_sent 4096 8192 [0, 0, 0]) = Ok (Some w)"
    "caller w = Sw_done r b"
    using woken_run by blast
  have "list_all woken_only woken_run" by (simp add: woken_run_def)
  then show ?thesis
    using sync_wait_sound [OF w heap_addresses first_waiter] w by (simp add: overlay_def)
qed




text \<open>
  C34: The callback signals after it has freed the mutex: a caller that finds the response there returns before
  the signal, which is then sent through a frame that is gone.  Every fault of the wait is an access of the
  callback after the caller has returned or has destroyed the condition.
\<close>

lemma signal_after_return:
  assumes "mp \<noteq> s_default_mutex" and "cp \<noteq> s_default_condition" and "\<forall>ws. ws \<noteq> [] \<longrightarrow> pick ws \<in> set ws"
  shows "sync_exec pick ms data
      ([By_callback, By_callback, By_callback, By_callback]
        @ [By_caller Woken tv, By_caller Woken tv, By_caller Woken tv, By_caller Woken tv, By_caller Woken tv]
        @ [By_callback]) (sync_sent mp cp buf) = Fault Use_after_free
    \<and> (\<forall>evs e. sync_exec pick ms data evs (sync_sent mp cp buf) = Fault e \<longrightarrow>
         e = Use_after_free \<and> (\<exists>before after w. evs = before @ By_callback # after
           \<and> sync_exec pick ms data before (sync_sent mp cp buf) = Ok (Some w)
           \<and> ((\<exists>r b. caller w = Sw_done r b) \<or> (\<exists>r. caller w = Sw_destroy_mutex r))))"
proof (intro conjI allI impI)
  show "sync_exec pick ms data
      ([By_callback, By_callback, By_callback, By_callback]
        @ [By_caller Woken tv, By_caller Woken tv, By_caller Woken tv, By_caller Woken tv, By_caller Woken tv]
        @ [By_callback]) (sync_sent mp cp buf) = Fault Use_after_free"
    using assms(1,2) by (simp add: sync_compute)
qed (use sync_exec_faults [OF _ sync_sent_inv assms] in blast)+

lemma signal_after_return_witness:
  "sync_exec first_waiter 500 [7, 8]
      ([By_callback, By_callback, By_callback, By_callback]
        @ [caller_goes, caller_goes, caller_goes, caller_goes, caller_goes] @ [By_callback])
      (sync_sent 4096 8192 [0, 0, 0]) = Fault Use_after_free"
  using signal_after_return [OF heap_addresses first_waiter] by blast

section \<open>The wait as one step\<close>

text \<open>
  \<open>Uril_Client\<close> has the end of a synchronous command in three pieces, \<open>sync_check\<close>, \<open>async_cb\<close> and
  \<open>sync_return\<close>, each of them atomic; the callback comes first, while the caller waits, or not at all.
\<close>

datatype answer_time = Answer_first | Answer_while_waiting | No_answer

definition atomic_wait ::
    "answer_time \<Rightarrow> int \<Rightarrow> nat \<Rightarrow> u8 list \<Rightarrow> 's client \<Rightarrow> (u32 \<times> u8 list) outcome" where
  "atomic_wait order cond_ret f data c =
     map_ok (\<lambda>(r, b, c'). (r, b))
       (case order of
          Answer_first \<Rightarrow>
            bind_outcome (async_cb data (Cd_frame f) c) (\<lambda>c1.
              bind_outcome (sync_check f c1) (sync_return True cond_ret f))
        | Answer_while_waiting \<Rightarrow>
            bind_outcome (sync_check f c) (\<lambda>c1.
              bind_outcome (async_cb data (Cd_frame f) c1) (sync_return True cond_ret f))
        | No_answer \<Rightarrow> bind_outcome (sync_check f c) (sync_return True cond_ret f))"

definition fresh_params :: "u8 list \<Rightarrow> async_params" where
  "fresh_params buf =
     \<lparr>success = False, condition = False, resp = buf, resp_len = length buf, waiting_op = False\<rparr>"

lemma atomic_wait_results:
  assumes "frames c f = Some (fresh_params buf)"
  shows "atomic_wait order cond_ret f data c = Ok
    (case order of
       Answer_first \<Rightarrow> (0, answer_in data buf)
     | Answer_while_waiting \<Rightarrow> (if cond_ret = 0 then 0 else -1, answer_in data buf)
     | No_answer \<Rightarrow> (-1, buf))"
  using assms
  by (cases order)
    (simp_all add: atomic_wait_def fresh_params_def async_cb_def sync_check_def sync_return_def Let_def answer_in_def)

text \<open>What the caller may hand out, at each point of its code.\<close>

fun result_ok :: "u8 list \<Rightarrow> u8 list \<Rightarrow> wait_pc \<Rightarrow> bool" where
  "result_ok data buf (Sw_unlock r) \<longleftrightarrow> r = 0 \<or> r = -1"
| "result_ok data buf (Sw_destroy_cond r) \<longleftrightarrow> r = 0 \<or> r = -1"
| "result_ok data buf (Sw_destroy_mutex r) \<longleftrightarrow> r = 0 \<or> r = -1"
| "result_ok data buf (Sw_done r b) \<longleftrightarrow>
     r = 0 \<and> b = answer_in data buf \<or> r = -1 \<and> (b = buf \<or> b = answer_in data buf)"
| "result_ok data buf pc \<longleftrightarrow> True"

lemma result_ok_step:
  assumes "sync_step pick ms data ev w = Ok (Some w')" and "sync_inv False mp cp data buf w"
    and "result_ok data buf (caller w)" and "sync_inv False mp cp data buf w'"
  shows "result_ok data buf (caller w')"
proof (cases ev)
  case By_callback
  with assms(1,3) show ?thesis
    by (cases "callback w") (auto simp: callback_step_def outcome_simps Some_map_option split: option.splits)
next
  case (By_caller why tv)
  from assms(2) show ?thesis
  proof (cases rule: sync_inv_cases)
    case (at_work f held)
    with assms(1,3) By_caller assms(4) show ?thesis
      by (cases "caller w")
        (auto simp: caller_step_def sync_inv_def outcome_simps Some_map_option split: option.splits if_splits)
  qed (use assms(1) By_caller in \<open>simp add: caller_step_def\<close>)
qed

lemma result_ok_exec:
  assumes "sync_exec pick ms data evs w = Ok (Some w')" and "sync_inv False mp cp data buf w"
    and "result_ok data buf (caller w)"
    and "mp \<noteq> s_default_mutex" and "cp \<noteq> s_default_condition" and "\<forall>ws. ws \<noteq> [] \<longrightarrow> pick ws \<in> set ws"
  shows "result_ok data buf (caller w')"
  using assms(1-3)
proof (induction evs arbitrary: w)
  case (Cons ev evs)
  then obtain w1 where w1: "sync_step pick ms data ev w = Ok (Some w1)" "sync_exec pick ms data evs w1 = Ok (Some w')"
    by (auto simp: outcome_simps split: option.splits)
  have inv: "sync_inv False mp cp data buf w1"
    using sync_step_inv [OF w1(1) Cons.prems(2) assms(4,5,6)] by simp
  from Cons.IH [OF w1(2) inv result_ok_step [OF w1(1) Cons.prems(2,3) inv]] show ?case .
qed simp

text \<open>One interleaving for each result: the wakeup in time, and a wait that ends spuriously.\<close>

definition spurious_run :: "timeval \<Rightarrow> sync_event list" where
  "spurious_run tv = By_caller Woken tv # By_caller Woken tv # replicate 5 (By_caller Spurious tv)"

lemma spurious_result:
  assumes "mp \<noteq> s_default_mutex" and "cp \<noteq> s_default_condition"
  shows "\<exists>w. sync_exec pick ms data (spurious_run tv) (sync_sent mp cp buf) = Ok (Some w)
      \<and> caller w = Sw_done (-1) buf"
    "\<exists>w. sync_exec pick ms data (By_callback # spurious_run tv) (sync_sent mp cp buf) = Ok (Some w)
      \<and> caller w = Sw_done (-1) (answer_in data buf)"
    "\<exists>w. sync_exec pick ms data (replicate 4 By_callback @ replicate 5 (By_caller Woken tv)) (sync_sent mp cp buf)
      = Ok (Some w) \<and> caller w = Sw_done 0 (answer_in data buf)"
  using assms by (simp_all add: spurious_run_def eval_nat_numeral sync_compute answer_in_def)

text \<open>
  C21: What a caller can get from the wait, over all interleavings with the callback, lock by lock and for every
  clock and wakeup, is what it can get when the check, the callback and the return are three
  atomic steps: the two descriptions of the end of a synchronous command agree.
\<close>

lemma wait_atomic:
  assumes "mp \<noteq> s_default_mutex" and "cp \<noteq> s_default_condition" and "\<forall>ws. ws \<noteq> [] \<longrightarrow> pick ws \<in> set ws"
    and "frames c f = Some (fresh_params buf)"
  shows "(\<exists>evs w. sync_exec pick ms data evs (sync_sent mp cp buf) = Ok (Some w) \<and> caller w = Sw_done r b)
    \<longleftrightarrow> (\<exists>order cond_ret. atomic_wait order cond_ret f data c = Ok (r, b))" (is "?fine \<longleftrightarrow> ?atomic")
proof
  assume ?fine
  then obtain evs w where w: "sync_exec pick ms data evs (sync_sent mp cp buf) = Ok (Some w)" "caller w = Sw_done r b"
    by blast
  have "result_ok data buf (caller (sync_sent mp cp buf))" by (simp add: sync_sent_def Let_def split: prod.splits)
  from result_ok_exec [OF w(1) sync_sent_inv this assms(1-3)]
  consider "r = 0" "b = answer_in data buf" | "r = -1" "b = buf" | "r = -1" "b = answer_in data buf"
    by (auto simp: w(2))
  then show ?atomic
  proof cases
    case 1 then show ?thesis using atomic_wait_results [OF assms(4), of Answer_first] by auto
  next
    case 2 then show ?thesis using atomic_wait_results [OF assms(4), of No_answer] by auto
  next
    case 3 then show ?thesis using atomic_wait_results [OF assms(4), of Answer_while_waiting 1] by auto
  qed
next
  assume ?atomic
  then obtain order cond_ret where "atomic_wait order cond_ret f data c = Ok (r, b)" by blast
  then have "r = 0 \<and> b = answer_in data buf \<or> r = -1 \<and> b = buf \<or> r = -1 \<and> b = answer_in data buf"
    using atomic_wait_results [OF assms(4), of order cond_ret data] by (cases order) (auto split: if_splits)
  then show ?fine using spurious_result [OF assms(1,2)] by blast
qed

lemma wait_atomic_witness:
  "\<exists>evs w. sync_exec first_waiter 500 [7, 8] evs (sync_sent 4096 8192 [0, 0, 0]) = Ok (Some w)
     \<and> caller w = Sw_done (-1) [7, 8, 0]"
proof -
  define c :: "unit client" where "c = (new_client ())\<lparr>frames := [0 \<mapsto> fresh_params [0, 0, 0]]\<rparr>"
  have c: "frames c 0 = Some (fresh_params [0, 0, 0])" by (simp add: c_def)
  have "atomic_wait Answer_while_waiting 1 0 [7, 8] c = Ok (-1, [7, 8, 0])"
    by (simp add: atomic_wait_results [OF c] answer_in_def overlay_def)
  with wait_atomic [OF heap_addresses first_waiter c, where r = "-1" and b = "[7, 8, 0]" and ms = 500 and data = "[7, 8]"]
  show ?thesis by blast
qed

end
