(* ===== verification/Client_Receive.thy ===== *)
theory Client_Receive
  imports Client_Locks
begin

text \<open>
  \<open>handle_receive_rsp\<close> on the receive thread, step by step, beside the calls of \<open>Client_Locks\<close>: it locks
  \<open>cmd_mutex\<close>, compares the unique id slot by slot, clears \<open>busy\<close>, reads the two fields of the slot,
  unlocks and calls back.  The calls write the fields of their slots under no lock, also while the
  receive thread reads the table.

  What comes out: when the service answers each message once, a run of these steps is a run of
  \<open>Client_Locks\<close>, where a response is one step; and neither the calls nor the receive thread wait for good.
\<close>

section \<open>Steps\<close>

datatype receive_pc =
    R_idle
  | R_lock uril_protocol_msg_t
  | R_look uril_protocol_msg_t nat
  | R_clear uril_protocol_msg_t nat
  | R_read_cb uril_protocol_msg_t nat
  | R_read_data uril_protocol_msg_t nat "uril_client_async_cb option"
  | R_unlock uril_protocol_msg_t "uril_client_async_cb option" client_ptr
  | R_call uril_protocol_msg_t "uril_client_async_cb option" client_ptr

text \<open>A step of the receive thread, thread \<open>rt\<close>; \<open>None\<close> where it waits.\<close>

fun receive_section ::
    "nat \<Rightarrow> receive_pc \<Rightarrow> mutex_pool \<times> 's client \<Rightarrow> (receive_pc \<times> mutex_pool \<times> 's client) option outcome" where
  "receive_section rt R_idle (p, c) = Ok (Some (R_idle, p, c))"
| "receive_section rt (R_lock m) (p, c) =
     map_ok (map_option (\<lambda>(r, p'). (if r \<noteq> 0 then R_idle else R_look m 0, p', c)))
       (osal_mutex_unix_lock rt cmd_mutex p)"
| "receive_section rt (R_look m i) (p, c) =
     Ok (Some (if i < URIL_MAX_PENDING_OPS
               then if op_unique_id (pending_ops c ! i) = unique_id m then R_clear m i else R_look m (Suc i)
               else R_unlock m None Cd_null, p, c))"
| "receive_section rt (R_clear m i) (p, c) =
     Ok (Some (R_read_cb m i, p, write_slot i (\<lambda>x. x\<lparr>busy := 0\<rparr>) c))"
| "receive_section rt (R_read_cb m i) (p, c) =
     Ok (Some (R_read_data m i (async_resp_cb (pending_ops c ! i)), p, c))"
| "receive_section rt (R_read_data m i cb) (p, c) =
     Ok (Some (R_unlock m cb (client_data (pending_ops c ! i)), p, c))"
| "receive_section rt (R_unlock m cb cd) (p, c) =
     map_ok (map_option (\<lambda>(r, p'). (if r \<noteq> 0 then R_idle else R_call m cb cd, p', c)))
       (osal_mutex_unix_unlock cmd_mutex p)"
| "receive_section rt (R_call m cb cd) (p, c) =
     (case cb of
        None \<Rightarrow> Ok (Some (R_idle, p, c))
      | Some f \<Rightarrow> map_ok (\<lambda>c'. Some (R_idle, p, c')) (invoke_cb f m cd c))"

section \<open>The receive thread alone\<close>

fun receive_sections ::
    "nat \<Rightarrow> nat \<Rightarrow> receive_pc \<Rightarrow> mutex_pool \<times> 's client \<Rightarrow> (receive_pc \<times> mutex_pool \<times> 's client) option outcome" where
  "receive_sections 0 rt pc st = Ok (Some (pc, st))"
| "receive_sections (Suc n) rt pc st =
     bind_outcome (receive_section rt pc st) (\<lambda>r.
       case r of None \<Rightarrow> Ok None | Some (pc', st') \<Rightarrow> receive_sections n rt pc' st')"

lemma receive_sections_idle [simp]: "receive_sections n rt R_idle (p, c) = Ok (Some (R_idle, p, c))"
  by (induction n) auto

lemma receive_sections_add:
  "receive_sections (n + k) rt pc st
   = bind_outcome (receive_sections n rt pc st) (\<lambda>r.
       case r of None \<Rightarrow> Ok None | Some (pc', st') \<Rightarrow> receive_sections k rt pc' st')"
proof (induction n arbitrary: pc st)
  case (Suc n)
  then show ?case by (cases "receive_section rt pc st") (auto split: option.split)
qed simp

lemma receive_sections_called [simp]:
  "bind_outcome (map_ok (\<lambda>c'. Some (R_idle, p, c')) x) (case_option (Ok None) (\<lambda>(pc, st). receive_sections k rt pc st))
   = map_ok (\<lambda>c'. Some (R_idle, p, c')) x"
  by (cases x) auto

text \<open>The part after the search, with the mutex locked by \<open>rt\<close>.\<close>

lemma receive_tail:
  assumes "p s_default_mutex = Some (Some rt)" and "5 \<le> n"
  shows "receive_sections n rt (R_unlock m None Cd_null) (p, c) = Ok (Some (R_idle, p(s_default_mutex \<mapsto> None), c))"
    "receive_sections n rt (R_clear m i) (p, c)
      = (let c1 = write_slot i (\<lambda>x. x\<lparr>busy := 0\<rparr>) c; p1 = p(s_default_mutex \<mapsto> None)
         in case async_resp_cb (pending_ops c1 ! i) of
              None \<Rightarrow> Ok (Some (R_idle, p1, c1))
            | Some f \<Rightarrow> map_ok (\<lambda>c2. Some (R_idle, p1, c2)) (invoke_cb f m (client_data (pending_ops c1 ! i)) c1))"
proof -
  obtain k where n: "n = Suc (Suc (Suc (Suc (Suc k))))" using assms(2) that [of "n - 5"] by simp
  show "receive_sections n rt (R_unlock m None Cd_null) (p, c) = Ok (Some (R_idle, p(s_default_mutex \<mapsto> None), c))"
    using assms(1) by (simp add: n cmd_mutex_def unlock_default)
  show "receive_sections n rt (R_clear m i) (p, c)
      = (let c1 = write_slot i (\<lambda>x. x\<lparr>busy := 0\<rparr>) c; p1 = p(s_default_mutex \<mapsto> None)
         in case async_resp_cb (pending_ops c1 ! i) of
              None \<Rightarrow> Ok (Some (R_idle, p1, c1))
            | Some f \<Rightarrow> map_ok (\<lambda>c2. Some (R_idle, p1, c2)) (invoke_cb f m (client_data (pending_ops c1 ! i)) c1))"
    using assms(1)
    by (simp add: n cmd_mutex_def unlock_default Let_def split: option.split)
qed

lemma map_ok_twice: "map_ok f (map_ok g x) = map_ok (\<lambda>y. f (g y)) x"
  by (cases x) simp_all

text \<open>When nothing runs in between, the steps are \<open>handle_receive_rsp\<close>: 23 of them at most.\<close>

lemma receive_search:
  assumes "p s_default_mutex = Some (Some rt)" and "length (pending_ops c) = URIL_MAX_PENDING_OPS"
    and "i \<le> URIL_MAX_PENDING_OPS" and "\<forall>j < i. op_unique_id (pending_ops c ! j) \<noteq> unique_id m"
  shows "receive_sections (22 - i) rt (R_look m i) (p, c)
    = map_ok (\<lambda>(r, c'). Some (R_idle, p(s_default_mutex \<mapsto> None), c')) (handle_receive_rsp all_locks m c)"
  using assms(3,4)
proof (induction "URIL_MAX_PENDING_OPS - i" arbitrary: i)
  case 0
  then have i: "i = URIL_MAX_PENDING_OPS" by simp
  have "lookup_pending_op (unique_id m) c = None"
    using 0(3) assms(2) i by (auto simp: lookup_pending_op_def find_slot_None in_set_conv_nth)
  then have "handle_receive_rsp all_locks m c = Ok (-1, c)" by (simp add: handle_receive_rsp_def all_locks_def)
  moreover have "22 - i = Suc 5" by (simp add: i URIL_MAX_PENDING_OPS_def)
  ultimately show ?case
    using receive_tail(1) [of p rt 5 m c] receive_sections.simps(2) [of 5 rt "R_look m i" "(p, c)"] assms(1)
    by (simp add: i del: receive_sections.simps fun_upd_apply)
next
  case (Suc d)
  then have i: "i < URIL_MAX_PENDING_OPS" by simp
  then have n: "22 - i = Suc (21 - i)" "21 - i = 22 - Suc i" "5 \<le> 21 - i" by (simp_all add: URIL_MAX_PENDING_OPS_def)
  show ?case
  proof (cases "op_unique_id (pending_ops c ! i) = unique_id m")
    case True
    then have "lookup_pending_op (unique_id m) c = Some i"
      using Suc.prems(2) i assms(2) by (simp add: lookup_pending_op_def find_slot_0_Some)
    then show ?thesis
      using True i receive_tail(2) [of p rt "21 - i" m i c] assms(1,2) n(3)
      by (auto simp: n(1) handle_receive_rsp_def all_locks_def write_slot_def Let_def split: option.split)
        (simp add: map_ok_twice)
  next
    case False
    then have "\<forall>j < Suc i. op_unique_id (pending_ops c ! j) \<noteq> unique_id m"
      using Suc.prems(2) by (auto simp: less_Suc_eq)
    then have "receive_sections (21 - i) rt (R_look m (Suc i)) (p, c)
        = map_ok (\<lambda>(r, c'). Some (R_idle, p(s_default_mutex \<mapsto> None), c')) (handle_receive_rsp all_locks m c)"
      unfolding n(2) using Suc.hyps(2) i by (intro Suc.hyps(1)) simp_all
    then show ?thesis using False i by (simp add: n(1))
  qed
qed

lemma receive_alone:
  assumes "p s_default_mutex = Some None" and "length (pending_ops c) = URIL_MAX_PENDING_OPS"
  shows "receive_sections 23 rt (R_lock m) (p, c)
    = map_ok (\<lambda>(r, c'). Some (R_idle, p, c')) (handle_receive_rsp all_locks m c)"
proof -
  have "receive_section rt (R_lock m) (p, c) = Ok (Some (R_look m 0, p(s_default_mutex \<mapsto> Some rt), c))"
    using assms(1) by (simp add: cmd_mutex_def lock_default)
  then have "receive_sections 23 rt (R_lock m) (p, c)
      = receive_sections 22 rt (R_look m 0) (p(s_default_mutex \<mapsto> Some rt), c)"
    using receive_sections.simps(2) [of 22 rt "R_lock m" "(p, c)"]
    by (simp del: receive_section.simps receive_sections.simps)
  moreover have "p(s_default_mutex \<mapsto> None) = p" using assms(1) by (rule fun_upd_idem)
  ultimately show ?thesis
    using receive_search [of "p(s_default_mutex \<mapsto> Some rt)" rt c 0 m] assms(2) by simp
qed

section \<open>The receive thread and the calls\<close>

record 's receive_world =
  cmds :: "'s lock_world"
  receiver :: receive_pc

text \<open>
  Events of the calls are those of \<open>Client_Locks\<close>; \<open>Arrive m\<close>: the receive thread has read a response.
  The service answers each message it was sent at most once.  \<open>async_cb\<close> is only passed by synchronous
  commands, whose callback \<open>Client_Wait\<close> has.
\<close>

datatype receive_event = Of_call cmd_event | Arrive uril_protocol_msg_t | Receive

inductive receive_step ::
    "(uril_protocol_msg_t \<Rightarrow> 's \<Rightarrow> (int \<times> 's) outcome) \<Rightarrow> nat \<Rightarrow> receive_event \<Rightarrow> 's receive_world
     \<Rightarrow> 's receive_world \<Rightarrow> bool"
  for send rt where
  begin_: "threads (cmds w) t = None \<Longrightarrow> length (arg_req a) \<le> MAX_URIL_PAYLOAD_SIZE \<Longrightarrow> t \<noteq> rt \<Longrightarrow>
     cmd_callback a (client (cmds w)) \<noteq> Some Cb_async_cb \<Longrightarrow>
     receive_step send rt (Of_call (Begin t)) w
       (w\<lparr>cmds := (cmds w)\<lparr>threads := (threads (cmds w))(t \<mapsto> (a, Lock_gen))\<rparr>\<rparr>)"
| section_: "lock_step send True (Section t) (cmds w) l \<Longrightarrow>
     receive_step send rt (Of_call (Section t)) w (w\<lparr>cmds := l\<rparr>)"
| arrive: "receiver w = R_idle \<Longrightarrow> unique_id m \<in> dom (awaited (cmds w)) \<Longrightarrow>
     receive_step send rt (Arrive m) w (w\<lparr>receiver := R_lock m\<rparr>)"
| receive: "receiver w \<noteq> R_idle \<Longrightarrow>
     receive_section rt (receiver w) (pool (cmds w), client (cmds w)) = Ok (Some (pc', p', c')) \<Longrightarrow>
     u = (case receiver w of
            R_clear m i \<Rightarrow> (awaited (cmds w))(unique_id m := None)
          | _ \<Rightarrow> awaited (cmds w)) \<Longrightarrow>
     receive_step send rt Receive w
       (w\<lparr>cmds := (cmds w)\<lparr>pool := p', client := c', awaited := u\<rparr>, receiver := pc'\<rparr>)"

inductive receive_run ::
    "(uril_protocol_msg_t \<Rightarrow> 's \<Rightarrow> (int \<times> 's) outcome) \<Rightarrow> nat \<Rightarrow> receive_event list \<Rightarrow> 's receive_world
     \<Rightarrow> 's receive_world \<Rightarrow> bool"
  for send rt where
  receive_none: "receive_run send rt [] w w"
| receive_more: "receive_run send rt evs w w1 \<Longrightarrow> receive_step send rt ev w1 w2
     \<Longrightarrow> receive_run send rt (evs @ [ev]) w w2"

definition receive_start :: "'s client \<Rightarrow> 's receive_world" where
  "receive_start c = \<lparr>cmds = lock_start c, receiver = R_idle\<rparr>"

section \<open>The world in which a response is one step\<close>

fun receiver_holds :: "receive_pc \<Rightarrow> bool" where
  "receiver_holds R_idle = False"
| "receiver_holds (R_lock m) = False"
| "receiver_holds (R_call m cb cd) = False"
| "receiver_holds pc = True"

text \<open>The call of the user's function that is still to come, when the slot has been cleared.\<close>

definition call_back ::
    "uril_protocol_msg_t \<Rightarrow> uril_client_async_cb option \<Rightarrow> client_ptr \<Rightarrow> 's client \<Rightarrow> user_call list" where
  "call_back m cb cd c =
     (case cb of
        Some (Cb_user n) \<Rightarrow> [Resp_call n (handle c) (sim_id m) (msg_id m) (payload m) cd]
      | _ \<Rightarrow> [])"

fun owed :: "receive_pc \<Rightarrow> 's client \<Rightarrow> user_call list" where
  "owed (R_read_cb m i) c = call_back m (async_resp_cb (slot c i)) (client_data (slot c i)) c"
| "owed (R_read_data m i cb) c = call_back m cb (client_data (slot c i)) c"
| "owed (R_unlock m cb cd) c = call_back m cb cd c"
| "owed (R_call m cb cd) c = call_back m cb cd c"
| "owed pc c = []"

text \<open>The mutex is given back and the call is made ahead of time.\<close>

definition settled_pool :: "receive_pc \<Rightarrow> mutex_pool \<Rightarrow> mutex_pool" where
  "settled_pool pc p = (if receiver_holds pc then p(s_default_mutex \<mapsto> None) else p)"

definition settled_client :: "receive_pc \<Rightarrow> 's client \<Rightarrow> 's client" where
  "settled_client pc c = c\<lparr>user_calls := user_calls c @ owed pc c\<rparr>"

definition settled :: "'s receive_world \<Rightarrow> 's lock_world" where
  "settled w = (cmds w)\<lparr>pool := settled_pool (receiver w) (pool (cmds w)),
     client := settled_client (receiver w) (client (cmds w))\<rparr>"

text \<open>A call that has left the lock of the table never takes a slot again.\<close>

fun past_locks :: "lock_pc \<Rightarrow> bool" where
  "past_locks (Unlocked At_gen) = False"
| "past_locks (Unlocked (At_acquire uid)) = False"
| "past_locks pc = True"

fun receiver_ok :: "'s lock_world \<Rightarrow> receive_pc \<Rightarrow> bool" where
  "receiver_ok l (R_lock m) \<longleftrightarrow> unique_id m \<in> dom (awaited l)"
| "receiver_ok l (R_look m i) \<longleftrightarrow>
     unique_id m \<in> dom (awaited l) \<and> (\<forall>j < i. op_unique_id (slot (client l) j) \<noteq> unique_id m)"
| "receiver_ok l (R_clear m i) \<longleftrightarrow>
     unique_id m \<in> dom (awaited l) \<and> i < URIL_MAX_PENDING_OPS \<and> op_unique_id (slot (client l) i) = unique_id m"
| "receiver_ok l (R_read_cb m i) \<longleftrightarrow>
     async_resp_cb (slot (client l) i) \<noteq> Some Cb_async_cb
     \<and> (\<forall>t a pc. threads l t = Some (a, pc) \<longrightarrow> slot_of (section_pc pc) \<noteq> Some i)"
| "receiver_ok l (R_read_data m i cb) \<longleftrightarrow>
     cb \<noteq> Some Cb_async_cb
     \<and> (\<forall>t a pc. threads l t = Some (a, pc) \<longrightarrow> slot_of (section_pc pc) \<noteq> Some i)"
| "receiver_ok l (R_unlock m cb cd) \<longleftrightarrow> cb \<noteq> Some Cb_async_cb"
| "receiver_ok l (R_call m cb cd) \<longleftrightarrow> cb \<noteq> Some Cb_async_cb"
| "receiver_ok l R_idle \<longleftrightarrow> True"

definition receive_ok :: "nat \<Rightarrow> 's receive_world \<Rightarrow> bool" where
  "receive_ok rt w \<longleftrightarrow>
     receiver_ok (cmds w) (receiver w)
     \<and> (receiver_holds (receiver w) \<longrightarrow> pool (cmds w) s_default_mutex = Some (Some rt))
     \<and> threads (cmds w) rt = None
     \<and> (\<forall>t a pc. threads (cmds w) t = Some (a, pc) \<longrightarrow>
          past_locks pc \<and> cmd_callback a (client (cmds w)) \<noteq> Some Cb_async_cb)
     \<and> (\<forall>u a. awaited (cmds w) u = Some a \<longrightarrow> cmd_callback a (client (cmds w)) \<noteq> Some Cb_async_cb)"

lemma call_back_None [simp]: "call_back m None cd c = []"
  by (simp add: call_back_def)

lemma call_back_same: "handle c' = handle c \<Longrightarrow> call_back m cb cd c' = call_back m cb cd c"
  by (simp add: call_back_def split: option.split uril_client_async_cb.split)

lemma settled_start: "settled (receive_start c) = lock_start c"
  by (simp add: settled_def settled_pool_def settled_client_def receive_start_def lock_start_def)

lemma receive_start_ok: "receive_ok rt (receive_start c)"
  by (simp add: receive_ok_def receive_start_def lock_start_def)

section \<open>A step of a call\<close>

text \<open>A call does not look at the history of user calls, and changes only its own slot.\<close>

lemma call_section_calls:
  assumes "call_section send a pc c = Ok (pc', c')"
  shows "call_section send a pc (c\<lparr>user_calls := uc\<rparr>) = Ok (pc', c'\<lparr>user_calls := uc\<rparr>)"
    and "user_calls c' = user_calls c" and "handle c' = handle c" and "default_async_cb c' = default_async_cb c"
  using assms
  by (cases pc; auto simp: acquire_free_op_slot_def write_slot_def cmd_callback_def outcome_simps
      split: option.splits if_splits)+

lemma lock_section_calls:
  assumes "lock_section t send a pc (p, c) = Ok (Some (pc', p', c'))"
  shows "lock_section t send a pc (p, c\<lparr>user_calls := uc\<rparr>) = Ok (Some (pc', p', c'\<lparr>user_calls := uc\<rparr>))"
    and "user_calls c' = user_calls c" and "handle c' = handle c" and "default_async_cb c' = default_async_cb c"
proof -
  have "lock_section t send a pc (p, c\<lparr>user_calls := uc\<rparr>) = Ok (Some (pc', p', c'\<lparr>user_calls := uc\<rparr>))
      \<and> user_calls c' = user_calls c \<and> handle c' = handle c \<and> default_async_cb c' = default_async_cb c"
  proof (cases pc)
    case (Unlocked cpc)
    then obtain cpc' where "call_section send a cpc c = Ok (cpc', c')" "p' = p" "pc' = Unlocked cpc'"
      using assms by (auto simp: outcome_simps simp del: call_section.simps)
    then show ?thesis
      using call_section_calls [of send a cpc c cpc' c'] by (simp add: Unlocked del: call_section.simps)
  qed (use assms in \<open>auto simp: outcome_simps Some_map_option write_slot_def split: if_splits\<close>)
  then show "lock_section t send a pc (p, c\<lparr>user_calls := uc\<rparr>) = Ok (Some (pc', p', c'\<lparr>user_calls := uc\<rparr>))"
    "user_calls c' = user_calls c" "handle c' = handle c" "default_async_cb c' = default_async_cb c"
    by blast+
qed

lemma lock_section_slots:
  assumes "lock_section t send a pc (p, c) = Ok (Some (pc', p', c'))" and "past_locks pc" and "\<not> holding pc"
  shows "past_locks pc' \<and> (\<forall>i. slot_of (section_pc pc) \<noteq> Some i \<longrightarrow> slot c' i = slot c i)
    \<and> slot_of (section_pc pc') \<in> {None, slot_of (section_pc pc)}"
proof (cases pc)
  case (Unlocked cpc)
  then show ?thesis using assms
    by (cases cpc) (auto simp: outcome_simps write_slot_def nth_upd)
qed (use assms in \<open>auto simp: outcome_simps Some_map_option split: if_splits\<close>)

lemma lock_section_ids:
  assumes "lock_section t send a pc (p, c) = Ok (Some (pc', p', c'))"
  shows "op_unique_id (slot c' j) = op_unique_id (slot c j)
    \<or> uid_of (section_pc pc) = Some (op_unique_id (slot c' j))"
proof (cases pc)
  case (Unlocked cpc)
  then show ?thesis using assms
    by (cases cpc) (auto simp: outcome_simps write_slot_def nth_upd acquire_free_op_slot_def split: option.splits)
qed (use assms in \<open>auto simp: outcome_simps Some_map_option write_slot_def nth_upd split: if_splits\<close>)

lemma awaited_after_mono: "dom u \<subseteq> dom (awaited_after pc pc' a u)"
  by (auto simp: awaited_after_def split: lock_pc.split cmd_pc.split)

lemma settled_simps [simp]:
  "pool (settled w) = settled_pool (receiver w) (pool (cmds w))"
  "client (settled w) = settled_client (receiver w) (client (cmds w))"
  "threads (settled w) = threads (cmds w)" "awaited (settled w) = awaited (cmds w)"
  by (simp_all add: settled_def)

lemma settled_client_simps [simp]:
  "pending_ops (settled_client pc c) = pending_ops c" "s_unique_msg_id (settled_client pc c) = s_unique_msg_id c"
  "default_async_cb (settled_client pc c) = default_async_cb c" "handle (settled_client pc c) = handle c"
  "link (settled_client pc c) = link c" "cmd_callback a (settled_client pc c) = cmd_callback a c"
  by (simp_all add: settled_client_def cmd_callback_def cong: option.case_cong)

text \<open>While the receive thread has the mutex, the calls that make a step are past their locks.\<close>

lemma step_beside_receiver:
  assumes ok: "receive_ok rt w" and inv: "lock_inv (settled w)" and held: "receiver_holds (receiver w)"
    and t: "threads (cmds w) t = Some (a, pc)"
    and sec: "lock_section t send a pc (pool (cmds w), client (cmds w)) = Ok (Some (pc', p', c'))"
  shows "\<exists>cpc. pc = Unlocked cpc" and "p' = pool (cmds w)"
proof -
  have rt: "pool (cmds w) s_default_mutex = Some (Some rt)" using ok held by (simp add: receive_ok_def)
  have "\<not> holding pc" using free_mutex [OF inv] held t by (simp add: settled_pool_def)
  then show "\<exists>cpc. pc = Unlocked cpc"
    using sec rt by (cases pc) (auto simp: s_unique_id_gen_mutex_def cmd_mutex_def lock_default)
  then show "p' = pool (cmds w)" using sec by (auto simp: outcome_simps simp del: call_section.simps)
qed

lemma section_settles_step:
  assumes ok: "receive_ok rt w" and inv: "lock_inv (settled w)"
    and t: "threads (cmds w) t = Some (a, pc)"
    and sec: "lock_section t send a pc (pool (cmds w), client (cmds w)) = Ok (Some (pc', p', c'))"
    and owed: "owed (receiver w) c' = owed (receiver w) (client (cmds w))"
  shows "lock_section t send a pc (pool (settled w), client (settled w))
    = Ok (Some (pc', settled_pool (receiver w) p', settled_client (receiver w) c'))"
proof -
  have "lock_section t send a pc (settled_pool (receiver w) (pool (cmds w)), client (cmds w))
      = Ok (Some (pc', settled_pool (receiver w) p', c'))"
  proof (cases "receiver_holds (receiver w)")
    case True
    from step_beside_receiver [OF ok inv True t sec] sec show ?thesis
      by (auto simp: outcome_simps simp del: call_section.simps)
  qed (use sec in \<open>simp add: settled_pool_def\<close>)
  from lock_section_calls [OF this] show ?thesis by (simp add: settled_client_def owed)
qed

text \<open>The slot of an unanswered command: there is one, it is the only one with the id, and no call works on it.\<close>

lemma awaited_slot:
  assumes "cmd_inv (section_world (settled w))" and "awaited (cmds w) u = Some b"
  obtains k where "waits_at (client (cmds w)) b u k"
    and "\<And>t a pc. threads (cmds w) t = Some (a, pc) \<Longrightarrow> slot_of (section_pc pc) \<noteq> Some k"
    and "\<And>j. j < URIL_MAX_PENDING_OPS \<Longrightarrow> op_unique_id (slot (client (cmds w)) j) = u \<Longrightarrow> j = k"
proof -
  have "unanswered (section_world (settled w)) u = Some b" using assms(2) by (simp add: section_world_def)
  from cmd_invD(4) [OF assms(1) this] obtain k where
    k: "waits_at (shared (section_world (settled w))) b u k"
      "\<forall>t a pc. calls (section_world (settled w)) t = Some (a, pc) \<longrightarrow> slot_of pc \<noteq> Some k"
    by blast
  have w: "waits_at (client (cmds w)) b u k"
    using k(1) by (simp add: section_world_def waits_at_def holds_def)
  moreover have "slot_of (section_pc pc) \<noteq> Some k" if "threads (cmds w) t = Some (a, pc)" for t a pc
    using k(2) that by (auto simp: section_world_def)
  moreover have "j = k" if "j < URIL_MAX_PENDING_OPS" "op_unique_id (slot (client (cmds w)) j) = u" for j
    using cmd_invD(1) [OF assms(1)] that w
    unfolding table_ok_def waits_at_def holds_def section_world_def URIL_MAX_PENDING_OPS_def
    by (simp, metis)
  ultimately show thesis using that by blast
qed

lemma section_keeps_owed:
  assumes ok: "receive_ok rt w" and inv: "lock_inv (settled w)" and cmd: "cmd_inv (section_world (settled w))"
    and t: "threads (cmds w) t = Some (a, pc)"
    and sec: "lock_section t send a pc (pool (cmds w), client (cmds w)) = Ok (Some (pc', p', c'))"
    and l: "l = (cmds w)\<lparr>pool := p', client := c', threads := (threads (cmds w))(t \<mapsto> (a, pc')),
      awaited := awaited_after pc pc' a (awaited (cmds w))\<rparr>"
  shows "receiver_ok l (receiver w) \<and> owed (receiver w) c' = owed (receiver w) (client (cmds w))"
proof -
  note calls = call_back_same [OF lock_section_calls(3) [OF sec]]
  have rok: "receiver_ok (cmds w) (receiver w)" and past: "past_locks pc" using ok t by (auto simp: receive_ok_def)
  have dom: "u \<in> dom (awaited l)" if "u \<in> dom (awaited (cmds w))" for u
    using that awaited_after_mono [of "awaited (cmds w)" pc pc' a] by (auto simp: l)
  have apart: "slot c' i = slot (client (cmds w)) i
      \<and> (\<forall>t1 a1 p1. threads l t1 = Some (a1, p1) \<longrightarrow> slot_of (section_pc p1) \<noteq> Some i)"
    if i: "\<forall>t1 a1 p1. threads (cmds w) t1 = Some (a1, p1) \<longrightarrow> slot_of (section_pc p1) \<noteq> Some i"
      and "receiver_holds (receiver w)" for i
  proof -
    have ne: "slot_of (section_pc pc) \<noteq> Some i" using i t by blast
    have "\<not> holding pc" using step_beside_receiver(1) [OF ok inv that(2) t sec] by auto
    from lock_section_slots [OF sec past this] ne have "slot c' i = slot (client (cmds w)) i"
      "slot_of (section_pc pc') \<noteq> Some i" by auto
    then show ?thesis using i by (simp add: l)
  qed
  show ?thesis
  proof (cases "receiver w")
    case (R_lock m)
    with rok dom show ?thesis by simp
  next
    case (R_look m i)
    have "uid_of (section_pc pc) \<noteq> Some (unique_id m)"
      using cmd_invD(2) [OF cmd, of t a "section_pc pc"] t rok R_look
      by (auto simp: section_world_def call_ok_def)
    then have "op_unique_id (slot c' j) \<noteq> unique_id m" if "j < i" for j
      using lock_section_ids [OF sec, of j] rok R_look that by auto
    with rok dom R_look show ?thesis by (simp add: l)
  next
    case (R_clear m i)
    then obtain b where b: "awaited (cmds w) (unique_id m) = Some b" using rok by auto
    then have "slot_of (section_pc p1) \<noteq> Some i" if "threads (cmds w) t1 = Some (a1, p1)" for t1 a1 p1
      using awaited_slot [OF cmd b] rok R_clear that by simp metis
    then have "slot c' i = slot (client (cmds w)) i" using apart [of i] R_clear by simp
    with rok dom R_clear show ?thesis by (simp add: l)
  next
    case (R_read_cb m i)
    with apart [of i] rok calls show ?thesis by (simp add: l)
  next
    case (R_read_data m i cb)
    with apart [of i] rok calls show ?thesis by (simp add: l)
  qed (use rok calls in simp_all)
qed

lemma section_settles:
  assumes ok: "receive_ok rt w" and inv: "lock_inv (settled w)" and cmd: "cmd_inv (section_world (settled w))"
    and step: "lock_step send True (Section t) (cmds w) l"
  shows "receive_ok rt (w\<lparr>cmds := l\<rparr>) \<and> lock_step send True (Section t) (settled w) (settled (w\<lparr>cmds := l\<rparr>))"
  using step
proof cases
  case (lock_go a pc pc' p' c')
  note t = lock_go(2) and sec = lock_go(4)
  note owed = section_keeps_owed [OF ok inv cmd t sec lock_go(1)]
  note calls = lock_section_calls(3,4) [OF sec]
  have "past_locks pc'"
  proof (cases "holding pc")
    case True
    with sec show ?thesis
      by (cases pc) (auto simp: outcome_simps Some_map_option split: if_splits option.splits)
  next
    case False
    then show ?thesis using lock_section_slots [OF sec] ok t by (auto simp: receive_ok_def)
  qed
  moreover have "p' s_default_mutex = Some (Some rt)" if "receiver_holds (receiver w)"
    using step_beside_receiver(2) [OF ok inv that t sec] ok that by (simp add: receive_ok_def)
  moreover have "cmd_callback b c' \<noteq> Some Cb_async_cb" if "awaited l u = Some b" for u b
    using that ok t calls unfolding lock_go(1)
    by (auto simp: receive_ok_def awaited_after_def cmd_callback_def cong: option.case_cong
        split: lock_pc.splits cmd_pc.splits if_splits)
  ultimately have "receive_ok rt (w\<lparr>cmds := l\<rparr>)"
    using ok owed t calls unfolding lock_go(1)
    by (auto simp: receive_ok_def cmd_callback_def cong: option.case_cong)
  moreover have "settled (w\<lparr>cmds := l\<rparr>) = (settled w)\<lparr>pool := settled_pool (receiver w) p',
      client := settled_client (receiver w) c', threads := (threads (settled w))(t \<mapsto> (a, pc')),
      awaited := awaited_after pc pc' a (awaited (settled w))\<rparr>"
    by (simp add: settled_def lock_go(1))
  ultimately show ?thesis
    using lock_step.lock_go [of "settled w" t a pc send pc' _ _ True] t lock_go(3)
      section_settles_step [OF ok inv t sec] owed by simp
qed

section \<open>A step of the receive thread\<close>

text \<open>Clearing the slot is the moment at which the response counts as handled.\<close>

lemma clear_answers:
  assumes ok: "receive_ok rt w" and inv: "lock_inv (settled w)" and cmd: "cmd_inv (section_world (settled w))"
    and rc: "receiver w = R_clear m i"
    and w': "w' = w\<lparr>cmds := (cmds w)\<lparr>client := write_slot i (\<lambda>x. x\<lparr>busy := 0\<rparr>) (client (cmds w)),
      awaited := (awaited (cmds w))(unique_id m := None)\<rparr>, receiver := R_read_cb m i\<rparr>"
  shows "receive_ok rt w' \<and> lock_step send True (Answer m) (settled w) (settled w')"
proof -
  let ?c = "client (cmds w)"
  have r: "unique_id m \<in> dom (awaited (cmds w))" "i < URIL_MAX_PENDING_OPS" "op_unique_id (slot ?c i) = unique_id m"
    and rt: "pool (cmds w) s_default_mutex = Some (Some rt)"
    using ok rc by (auto simp: receive_ok_def)
  obtain b where b: "awaited (cmds w) (unique_id m) = Some b" using r(1) by blast
  obtain k where k: "waits_at ?c b (unique_id m) k"
    "\<And>t a pc. threads (cmds w) t = Some (a, pc) \<Longrightarrow> slot_of (section_pc pc) \<noteq> Some k"
    "\<And>j. j < URIL_MAX_PENDING_OPS \<Longrightarrow> op_unique_id (slot ?c j) = unique_id m \<Longrightarrow> j = k"
    using awaited_slot [OF cmd b] by metis
  have [simp]: "k = i" using k(3) r(2,3) by simp
  have cb: "async_resp_cb (slot ?c i) = cmd_callback b ?c" "cmd_callback b ?c \<noteq> Some Cb_async_cb" "unique_id m \<noteq> 0"
    using k(1) ok b by (auto simp: waits_at_def receive_ok_def)
  have table: "table_ok (settled_client (receiver w) ?c)" using cmd_invD(1) [OF cmd] by (simp add: section_world_def)
  have len: "length (pending_ops ?c) = URIL_MAX_PENDING_OPS" using inv by (simp add: lock_inv_def)
  have found: "lookup_pending_op (unique_id m) (settled_client (receiver w) ?c) = Some i"
    using lookup_first [OF table] r(2,3) cb(3) by (simp add: URIL_MAX_PENDING_OPS_def)
  have slot: "slot (write_slot i (\<lambda>x. x\<lparr>busy := 0\<rparr>) ?c) i = (slot ?c i)\<lparr>busy := 0\<rparr>"
    using r(2) len by (simp add: write_slot_def)
  have "\<exists>x. handle_receive_rsp all_locks m (client (settled w)) = Ok (x, client (settled w'))"
    using found cb(1,2) r(2) len
    by (cases "cmd_callback b ?c" rule: option.exhaust; cases "the (cmd_callback b ?c)")
      (auto simp: handle_receive_rsp_def all_locks_def w' rc settled_client_def slot call_back_def
        invoke_cb_def write_slot_def)
  then obtain x where "handle_receive_rsp all_locks m (client (settled w)) = Ok (x, client (settled w'))" ..
  moreover have "settled w' = (settled w)\<lparr>client := client (settled w'),
      awaited := (awaited (settled w))(unique_id m := None)\<rparr>"
    by (simp add: settled_def w' rc settled_pool_def)
  moreover have "pool (settled w) s_default_mutex = Some None" by (simp add: rc settled_pool_def)
  ultimately have "lock_step send True (Answer m) (settled w) (settled w')"
    using lock_answer [of True m "settled w" x "client (settled w')" send] r(1) by simp
  moreover have "cmd_callback a (write_slot i f ?c) = cmd_callback a ?c" for a f
    by (simp add: cmd_callback_def write_slot_def cong: option.case_cong)
  then have "receive_ok rt w'"
    using ok k(2) cb rt by (auto simp: receive_ok_def w' slot)
  ultimately show ?thesis by blast
qed

text \<open>The other steps do not show.\<close>

lemma receive_quiet:
  assumes ok: "receive_ok rt w" and inv: "lock_inv (settled w)"
    and step: "receive_step send rt Receive w w'" and quiet: "\<forall>m i. receiver w \<noteq> R_clear m i"
  shows "receive_ok rt w' \<and> settled w' = settled w"
  using step
proof cases
  case (receive pc' p' c' u)
  note sec = receive(3) and w' = receive(1)
  let ?c = "client (cmds w)" and ?p = "pool (cmds w)"
  obtain held where held: "settled_pool (receiver w) ?p s_default_mutex = Some held"
    using inv by (auto simp: lock_inv_def)
  show ?thesis
  proof (cases "receiver w")
    case (R_lock m)
    with held sec have e: "?p s_default_mutex = Some None" "pc' = R_look m 0" "p' = ?p(s_default_mutex \<mapsto> Some rt)" "c' = ?c"
      by (auto simp: settled_pool_def cmd_mutex_def lock_default split: if_splits)
    have "?p(s_default_mutex \<mapsto> None) = ?p" using e(1) by (rule fun_upd_idem)
    with ok R_lock e receive(4) show ?thesis
      by (auto simp: w' receive_ok_def settled_def settled_pool_def settled_client_def)
  next
    case (R_look m i)
    with ok R_look sec receive(4) show ?thesis
      by (auto simp: w' receive_ok_def settled_def settled_pool_def settled_client_def less_Suc_eq split: if_splits)
  next
    case (R_read_cb m i)
    with ok sec receive(4) show ?thesis
      by (auto simp: w' receive_ok_def settled_def settled_pool_def settled_client_def)
  next
    case (R_read_data m i cb)
    with ok sec receive(4) show ?thesis
      by (auto simp: w' receive_ok_def settled_def settled_pool_def settled_client_def)
  next
    case (R_unlock m cb cd)
    then have "?p s_default_mutex = Some (Some rt)" using ok by (simp add: receive_ok_def)
    with R_unlock sec have "pc' = R_call m cb cd" "p' = ?p(s_default_mutex \<mapsto> None)" "c' = ?c"
      by (simp_all add: cmd_mutex_def unlock_default)
    with ok R_unlock receive(4) show ?thesis
      by (auto simp: w' receive_ok_def settled_def settled_pool_def settled_client_def)
  next
    case (R_call m cb cd)
    have same: "cmd_callback a (?c\<lparr>user_calls := uc\<rparr>) = cmd_callback a ?c" for a uc
      by (simp add: cmd_callback_def cong: option.case_cong)
    have "c' = ?c\<lparr>user_calls := user_calls ?c @ call_back m cb cd ?c\<rparr> \<and> p' = ?p \<and> pc' = R_idle"
      using ok sec R_call
      by (cases cb; cases "the cb") (auto simp: receive_ok_def call_back_def invoke_cb_def)
    with ok R_call receive(4) show ?thesis
      by (simp add: w' receive_ok_def settled_def settled_pool_def settled_client_def same)
  qed (use receive(2) quiet in simp_all)
qed

lemma clear_step:
  assumes "receive_step send rt Receive w w'" and "receiver w = R_clear m i"
  shows "w' = w\<lparr>cmds := (cmds w)\<lparr>client := write_slot i (\<lambda>x. x\<lparr>busy := 0\<rparr>) (client (cmds w)),
      awaited := (awaited (cmds w))(unique_id m := None)\<rparr>, receiver := R_read_cb m i\<rparr>"
  using assms(1) by cases (use assms(2) in auto)

lemma receive_settles:
  assumes "receive_ok rt w" and "lock_inv (settled w)" and "cmd_inv (section_world (settled w))"
    and "receive_step send rt Receive w w'"
  shows "receive_ok rt w' \<and> (settled w' = settled w \<or> (\<exists>m. lock_step send True (Answer m) (settled w) (settled w')))"
proof (cases "\<exists>m i. receiver w = R_clear m i")
  case True
  then show ?thesis using clear_answers [OF assms(1,2,3)] clear_step [OF assms(4)] by blast
next
  case False
  with receive_quiet [OF assms(1,2,4)] show ?thesis by blast
qed

section \<open>A run of the steps is a run of the locks\<close>

lemma receive_step_settles:
  assumes ok: "receive_ok rt w" and inv: "lock_inv (settled w)" and cmd: "cmd_inv (section_world (settled w))"
    and step: "receive_step send rt ev w w'"
  shows "receive_ok rt w' \<and> (settled w' = settled w \<or> (\<exists>ev'. lock_step send True ev' (settled w) (settled w')))"
  using step
proof cases
  case (begin_ t a)
  have eq: "settled w' = (settled w)\<lparr>threads := (threads (settled w))(t \<mapsto> (a, Lock_gen))\<rparr>"
    by (simp add: settled_def begin_(2))
  have "lock_step send True (Begin t) (settled w) (settled w')"
    unfolding eq using lock_begin [of "settled w" t a send True] begin_(3,4) by simp
  moreover have "receiver_ok (cmds w') (receiver w)"
    using ok by (cases "receiver w") (auto simp: receive_ok_def begin_(2))
  then have "receive_ok rt w'" using ok begin_ by (auto simp: receive_ok_def)
  ultimately show ?thesis by blast
next
  case (section_ t l)
  then show ?thesis using section_settles [OF ok inv cmd] by blast
next
  case (arrive m)
  then show ?thesis using ok
    by (auto simp: receive_ok_def settled_def settled_pool_def settled_client_def)
next
  case (receive pc' p' c' u)
  then show ?thesis using receive_settles [OF ok inv cmd] step by blast
qed

text \<open>What is known of the settled world, as long as the unique ids do not wrap.\<close>

lemma settled_invs:
  assumes "lock_run send True evs (lock_start c) l" and "client_inv c"
    and "unat (s_unique_msg_id c) + length evs < 2 ^ 32"
  shows "lock_inv l" and "cmd_inv (section_world l)"
proof -
  from lock_run_simulates [OF assms(1) lock_start_inv [OF assms(2)]] obtain evs'
    where "lock_inv l" "length evs' \<le> length evs" "cmd_run send True evs' (start_world c) (section_world l)"
    unfolding section_world_start by blast
  with cmd_run_inv [OF _ start_inv [OF assms(2)], of send evs' "section_world l"] assms(3)
  show "lock_inv l" "cmd_inv (section_world l)" by (auto simp: start_world_def)
qed

lemma receive_run_settles:
  assumes "receive_run send rt evs w0 w" and "w0 = receive_start c" and "client_inv c"
    and "unat (s_unique_msg_id c) + length evs < 2 ^ 32"
  shows "receive_ok rt w \<and> (\<exists>evs'. length evs' \<le> length evs \<and> lock_run send True evs' (lock_start c) (settled w))"
  using assms
proof (induction rule: receive_run.induct)
  case (receive_none w)
  then show ?case using lock_none receive_start_ok by (auto simp: settled_start)
next
  case (receive_more evs w0 w1 ev w2)
  then obtain evs' where w1: "receive_ok rt w1" "length evs' \<le> length evs" "lock_run send True evs' (lock_start c) (settled w1)"
    by auto
  then have "unat (s_unique_msg_id c) + length evs' < 2 ^ 32" using receive_more.prems(3) by simp
  note inv = settled_invs [OF w1(3) receive_more.prems(2) this]
  from receive_step_settles [OF w1(1) inv receive_more.hyps(2)] w1(2) show ?case
    using w1(3) lock_more [OF w1(3)] by (metis (no_types) Suc_le_mono le_SucI length_append_singleton)
qed

section \<open>Nobody waits for good\<close>

text \<open>The receive thread waits only for the mutex, and no call does while the receive thread can go on.\<close>

lemma receiver_can_go:
  assumes ok: "receive_ok rt w" and nidle: "receiver w \<noteq> R_idle"
    and free: "receiver_holds (receiver w) \<or> (\<exists>m cb cd. receiver w = R_call m cb cd)
      \<or> pool (cmds w) s_default_mutex = Some None"
  shows "\<exists>w'. receive_step send rt Receive w w'"
proof -
  have "\<exists>pc' p' c'. receive_section rt (receiver w) (pool (cmds w), client (cmds w)) = Ok (Some (pc', p', c'))"
  proof (cases "receiver w")
    case (R_call m cb cd)
    with ok show ?thesis
      by (cases cb; cases "the cb") (auto simp: receive_ok_def invoke_cb_def)
  qed (use ok free in \<open>auto simp: receive_ok_def cmd_mutex_def lock_default unlock_default\<close>)
  with receive_step.receive [OF nidle _ refl] show ?thesis by blast
qed

lemma everybody_can_go:
  assumes ok: "receive_ok rt w" and inv: "lock_inv (settled w)"
    and send: "\<forall>m. \<exists>r. send m (link (client (cmds w))) = Ok r"
    and busy: "receiver w \<noteq> R_idle \<or> (\<exists>t a pc. threads (cmds w) t = Some (a, pc) \<and> \<not> finished pc)"
  shows "(\<exists>w'. receive_step send rt Receive w w') \<or> (\<exists>t w'. receive_step send rt (Of_call (Section t)) w w')"
proof (cases "receiver_holds (receiver w) \<or> (\<exists>m cb cd. receiver w = R_call m cb cd)")
  case True
  then have "receiver w \<noteq> R_idle" by auto
  with receiver_can_go [OF ok this] True show ?thesis by blast
next
  case False
  then have "receiver w = R_idle \<or> (\<exists>m. receiver w = R_lock m)" by (cases "receiver w") auto
  then have same: "settled w = cmds w" by (auto simp: settled_def settled_pool_def settled_client_def)
  show ?thesis
  proof (cases "\<exists>t a pc. threads (cmds w) t = Some (a, pc) \<and> \<not> finished pc")
    case True
    then obtain t a pc where t: "threads (cmds w) t = Some (a, pc)" "\<not> finished pc" by blast
    from somebody_can_go [OF inv [unfolded same] t, of send True] send
    show ?thesis by (blast intro: section_)
  next
    case none: False
    obtain held where held: "pool (cmds w) s_default_mutex = Some held"
      "\<And>t. held = Some t \<longleftrightarrow> (\<exists>a pc. threads (cmds w) t = Some (a, pc) \<and> holding pc)"
      using lock_invD [OF inv [unfolded same]] by blast
    have "held = None" using held(2) none by (cases held) (fastforce simp: finished_def)+
    then show ?thesis using receiver_can_go [OF ok, of send] held(1) busy none by blast
  qed
qed

text \<open>The steps the receive thread has left at most.\<close>

fun receive_left :: "receive_pc \<Rightarrow> nat" where
  "receive_left (R_lock m) = URIL_MAX_PENDING_OPS + 7"
| "receive_left (R_look m i) = URIL_MAX_PENDING_OPS - i + 6"
| "receive_left (R_clear m i) = 5"
| "receive_left (R_read_cb m i) = 4"
| "receive_left (R_read_data m i cb) = 3"
| "receive_left (R_unlock m cb cd) = 2"
| "receive_left (R_call m cb cd) = 1"
| "receive_left R_idle = 0"

lemma receive_left_step:
  assumes "receive_section rt pc (p, c) = Ok (Some (pc', p', c'))" and "pc \<noteq> R_idle"
  shows "receive_left pc' < receive_left pc"
  using assms
  by (cases pc) (auto simp: outcome_simps Some_map_option split: if_splits option.splits)

fun at_work :: "receive_event \<Rightarrow> bool" where
  "at_work (Of_call (Section t)) \<longleftrightarrow> True"
| "at_work Receive \<longleftrightarrow> True"
| "at_work ev \<longleftrightarrow> False"

lemma step_uses_receive_work:
  assumes "receive_step send rt ev w w'" and "at_work ev" and "finite (dom (threads (cmds w)))"
  shows "work_left (cmds w') + receive_left (receiver w') < work_left (cmds w) + receive_left (receiver w)"
  using assms(1)
proof cases
  case (section_ t l)
  then show ?thesis using step_uses_work [OF section_(3) assms(3)] by simp
next
  case (receive pc' p' c' u)
  then show ?thesis using receive_left_step [OF receive(4,3)] by (simp add: work_left_def)
qed (use assms(2) in simp_all)

lemma receive_step_finite:
  assumes "receive_step send rt ev w w'" and "finite (dom (threads (cmds w)))"
  shows "finite (dom (threads (cmds w')))"
  using assms(1)
proof cases
  case (section_ t l)
  then show ?thesis using lock_step_finite [OF section_(3) assms(2)] by simp
qed (use assms(2) in \<open>simp_all\<close>)

lemma receive_run_finite:
  "receive_run send rt evs w w' \<Longrightarrow> finite (dom (threads (cmds w))) \<Longrightarrow> finite (dom (threads (cmds w')))"
  by (induction rule: receive_run.induct) (blast intro: receive_step_finite)+

lemma receive_run_work:
  "receive_run send rt evs w w' \<Longrightarrow> finite (dom (threads (cmds w))) \<Longrightarrow> list_all at_work evs
   \<Longrightarrow> length evs + work_left (cmds w') + receive_left (receiver w') \<le> work_left (cmds w) + receive_left (receiver w)"
proof (induction rule: receive_run.induct)
  case (receive_more evs w w1 ev w2)
  then have "work_left (cmds w2) + receive_left (receiver w2) < work_left (cmds w1) + receive_left (receiver w1)"
    using step_uses_receive_work receive_run_finite by fastforce
  with receive_more.IH receive_more.prems show ?case by simp
qed simp

lemma receive_run_append:
  "receive_run send rt evs2 w1 w2 \<Longrightarrow> receive_run send rt evs1 w w1 \<Longrightarrow> receive_run send rt (evs1 @ evs2) w w2"
proof (induction rule: receive_run.induct)
  case (receive_more evs w w1 ev w2)
  then show ?case using receive_run.receive_more [of send rt "evs1 @ evs"] by simp
qed simp

text \<open>A property of the connector that \<open>send\<close> keeps is kept.\<close>

lemma receive_step_link:
  assumes "receive_step send rt ev w w'"
  shows "link (client (cmds w')) = link (client (cmds w))
    \<or> (\<exists>m r. send m (link (client (cmds w))) = Ok (r, link (client (cmds w'))))"
  using assms
proof cases
  case (section_ t l)
  then show ?thesis using lock_step_link [OF section_(3)] by simp
next
  case (receive pc' p' c' u)
  then have "link c' = link (client (cmds w))"
    by (cases "receiver w")
      (auto simp: outcome_simps Some_map_option write_slot_def split: if_splits option.splits dest: invoke_cb_link)
  then show ?thesis by (simp add: receive(2))
qed simp_all

lemma receive_run_link:
  assumes "\<And>m s r s'. P s \<Longrightarrow> send m s = Ok (r, s') \<Longrightarrow> P s'"
  shows "receive_run send rt evs w w' \<Longrightarrow> P (link (client (cmds w))) \<Longrightarrow> P (link (client (cmds w')))"
proof (induction rule: receive_run.induct)
  case (receive_more evs w w1 ev w2)
  then show ?case using receive_step_link [OF receive_more.hyps(2)] assms by metis
qed

section \<open>What becomes of one response\<close>

text \<open>The response \<open>m\<close> has arrived and its slot is still to be found or to be cleared.\<close>

fun looking :: "uril_protocol_msg_t \<Rightarrow> receive_pc \<Rightarrow> bool" where
  "looking m (R_lock m') \<longleftrightarrow> m' = m"
| "looking m (R_look m' i) \<longleftrightarrow> m' = m"
| "looking m (R_clear m' i) \<longleftrightarrow> m' = m"
| "looking m pc \<longleftrightarrow> False"

fun cleared :: "receive_pc \<Rightarrow> bool" where
  "cleared (R_lock m) = False"
| "cleared (R_look m i) = False"
| "cleared (R_clear m i) = False"
| "cleared pc = True"

text \<open>
  \<open>before\<close> are the user calls when the response arrived, \<open>a\<close> are the arguments of the command that waits.
\<close>

definition in_progress :: "uril_protocol_msg_t \<Rightarrow> cmd_args \<Rightarrow> user_call list \<Rightarrow> user_call list \<Rightarrow> 's receive_world \<Rightarrow> bool" where
  "in_progress m a before call w \<longleftrightarrow>
     call = call_back m (cmd_callback a (client (cmds w))) (arg_data a) (client (cmds w))
     \<and> (looking m (receiver w) \<and> awaited (cmds w) (unique_id m) = Some a \<and> user_calls (client (settled w)) = before
        \<or> cleared (receiver w) \<and> user_calls (client (settled w)) = before @ call)"

lemma receive_step_constants:
  assumes "receive_step send rt ev w w'"
  shows "handle (client (cmds w')) = handle (client (cmds w)) \<and> cmd_callback a (client (cmds w')) = cmd_callback a (client (cmds w))"
proof -
  have "handle (client (cmds w')) = handle (client (cmds w))
      \<and> default_async_cb (client (cmds w')) = default_async_cb (client (cmds w))"
    using assms
  proof cases
    case (section_ t l)
    from section_(3) show ?thesis
      by cases (use lock_section_calls(3,4) section_(2) in auto)
  next
    case (receive pc' p' c' u)
    then show ?thesis
      by (cases "receiver w")
        (auto simp: outcome_simps Some_map_option write_slot_def invoke_cb_def async_cb_def
          split: if_splits option.splits uril_client_async_cb.splits client_ptr.splits)
  qed auto
  then show ?thesis by (simp add: cmd_callback_def cong: option.case_cong)
qed

lemma section_progress:
  assumes ok: "receive_ok rt w" and inv: "lock_inv (settled w)" and cmd: "cmd_inv (section_world (settled w))"
    and step: "receive_step send rt (Of_call ev) w w'" and prog: "in_progress m a before call w"
  shows "in_progress m a before call w'"
proof -
  have "receiver w' = receiver w \<and> user_calls (client (settled w')) = user_calls (client (settled w))
      \<and> (awaited (cmds w) (unique_id m) = Some a \<longrightarrow> awaited (cmds w') (unique_id m) = Some a)"
    using step
  proof cases
    case (begin_ t b)
    then show ?thesis by (simp add: settled_client_def)
  next
    case (section_ t l)
    from section_(3) show ?thesis
    proof cases
      case (lock_go b pc pc' p' c')
      note owed = section_keeps_owed [OF ok inv cmd lock_go(2,4,1)]
      have "awaited l (unique_id m) = Some a" if "awaited (cmds w) (unique_id m) = Some a"
      proof -
        have "uid_of (section_pc pc) \<noteq> Some (unique_id m)"
          using cmd_invD(2) [OF cmd, of t b "section_pc pc"] lock_go(2) that
          by (auto simp: section_world_def call_ok_def)
        with that show ?thesis by (auto simp: lock_go(1) awaited_after_def split: lock_pc.split cmd_pc.split)
      qed
      then show ?thesis
        using owed lock_section_calls(2) [OF lock_go(4)] section_(2) by (simp add: settled_client_def lock_go(1))
    qed
  qed
  with prog receive_step_constants [OF step] call_back_same show ?thesis
    unfolding in_progress_def by metis
qed

lemma receive_progress:
  assumes ok: "receive_ok rt w" and inv: "lock_inv (settled w)" and cmd: "cmd_inv (section_world (settled w))"
    and step: "receive_step send rt Receive w w'" and prog: "in_progress m a before call w"
  shows "in_progress m a before call w'"
proof -
  have call: "call = call_back m (cmd_callback a (client (cmds w'))) (arg_data a) (client (cmds w'))"
    using prog receive_step_constants [OF step] call_back_same unfolding in_progress_def by metis
  show ?thesis
  proof (cases "\<exists>m' i. receiver w = R_clear m' i")
    case True
    then obtain i where rc: "receiver w = R_clear m i" and aw: "awaited (cmds w) (unique_id m) = Some a"
      and before: "user_calls (client (cmds w)) = before"
      using prog by (auto simp: in_progress_def settled_client_def)
    obtain k where k: "waits_at (client (cmds w)) a (unique_id m) k"
      "\<And>j. j < URIL_MAX_PENDING_OPS \<Longrightarrow> op_unique_id (slot (client (cmds w)) j) = unique_id m \<Longrightarrow> j = k"
      using awaited_slot [OF cmd aw] by metis
    have "k = i" using ok rc k(2) by (auto simp: receive_ok_def)
    moreover have "i < length (pending_ops (client (cmds w)))"
      using inv ok rc by (simp add: lock_inv_def receive_ok_def)
    moreover have "call = call_back m (cmd_callback a (client (cmds w))) (arg_data a) (client (cmds w'))"
      using call receive_step_constants [OF step] by simp
    ultimately have "user_calls (client (settled w')) = before @ call"
      using clear_step [OF step rc] k(1) before
      by (simp add: settled_client_def write_slot_def waits_at_def)
    then show ?thesis using call clear_step [OF step rc] by (simp add: in_progress_def)
  next
    case False
    with receive_quiet [OF ok inv step] have same: "settled w' = settled w" by blast
    have "looking m (receiver w')" if l: "looking m (receiver w)" and aw: "awaited (cmds w) (unique_id m) = Some a"
    proof -
      obtain k where k: "waits_at (client (cmds w)) a (unique_id m) k" using awaited_slot [OF cmd aw] by metis
      obtain held where held: "settled_pool (receiver w) (pool (cmds w)) s_default_mutex = Some held"
        using inv by (auto simp: lock_inv_def)
      have "i < URIL_MAX_PENDING_OPS" if "receiver w = R_look m i" for i
        using ok that k unfolding receive_ok_def waits_at_def holds_def URIL_MAX_PENDING_OPS_def
        by (metis le_less_trans linorder_not_less receiver_ok.simps(2))
      with step l False held show ?thesis
        by cases (cases "receiver w", auto simp: settled_pool_def cmd_mutex_def lock_default split: if_splits)
    qed
    moreover have "cleared (receiver w')" if "cleared (receiver w)"
      using step
    proof cases
      case (receive pc' p' c' u)
      with that False show ?thesis
        by (cases "receiver w") (auto simp: outcome_simps Some_map_option split: if_splits option.splits)
    qed
    ultimately show ?thesis
      using prog call same unfolding in_progress_def by (metis settled_simps(4))
  qed
qed

lemma response_progress:
  assumes "receive_run send rt evs w1 w2" and "receive_run send rt evs0 (receive_start c) w1"
    and "client_inv c" and "unat (s_unique_msg_id c) + length evs0 + length evs < 2 ^ 32"
    and "\<forall>ev \<in> set evs. \<forall>m. ev \<noteq> Arrive m" and "in_progress m a before call w1"
  shows "in_progress m a before call w2"
  using assms
proof (induction rule: receive_run.induct)
  case (receive_more evs w w1 ev w2)
  then have prog: "in_progress m a before call w1" by simp
  have "receive_run send rt (evs0 @ evs) (receive_start c) w1"
    using receive_run_append [OF receive_more.hyps(1) receive_more.prems(1)] .
  from receive_run_settles [OF this refl assms(3)] receive_more.prems(3)
  obtain evs' where ok: "receive_ok rt w1" and run: "length evs' \<le> length (evs0 @ evs)"
    "lock_run send True evs' (lock_start c) (settled w1)" by auto
  have "unat (s_unique_msg_id c) + length evs' < 2 ^ 32" using run(1) receive_more.prems(3) by simp
  note inv = settled_invs [OF run(2) assms(3) this]
  show ?case
  proof (cases ev)
    case (Of_call cev)
    then show ?thesis using section_progress [OF ok inv _ prog] receive_more.hyps(2) by blast
  next
    case Receive
    then show ?thesis using receive_progress [OF ok inv _ prog] receive_more.hyps(2) by blast
  qed (use receive_more.prems(4) in simp)
qed simp

end
