(* ===== verification/Receive_Properties.thy ===== *)
theory Receive_Properties
  imports Client_Receive Lock_Properties
begin

text \<open>
  The receive thread step by step beside concurrent commands: a response calls back the command that
  asked, once, the steps amount to one, and nobody waits for good.
\<close>

section \<open>Runs by computation\<close>

fun receive_perform ::
    "(uril_protocol_msg_t \<Rightarrow> 's \<Rightarrow> (int \<times> 's) outcome) \<Rightarrow> nat \<Rightarrow> (nat \<Rightarrow> cmd_args) \<Rightarrow> receive_event
     \<Rightarrow> 's receive_world \<Rightarrow> 's receive_world option" where
  "receive_perform send rt args (Of_call (Begin t)) w =
     (if t \<noteq> rt \<and> cmd_callback (args t) (client (cmds w)) \<noteq> Some Cb_async_cb
      then map_option (\<lambda>l. w\<lparr>cmds := l\<rparr>) (lock_perform send args (Begin t) (cmds w)) else None)"
| "receive_perform send rt args (Of_call (Section t)) w =
     map_option (\<lambda>l. w\<lparr>cmds := l\<rparr>) (lock_perform send args (Section t) (cmds w))"
| "receive_perform send rt args (Of_call (Answer m)) w = None"
| "receive_perform send rt args (Arrive m) w =
     (case (receiver w, awaited (cmds w) (unique_id m)) of
        (R_idle, Some a) \<Rightarrow> Some (w\<lparr>receiver := R_lock m\<rparr>)
      | _ \<Rightarrow> None)"
| "receive_perform send rt args Receive w =
     (case receiver w of
        R_idle \<Rightarrow> None
      | pc \<Rightarrow> (case receive_section rt pc (pool (cmds w), client (cmds w)) of
                Ok (Some (pc', p', c')) \<Rightarrow>
                  Some (w\<lparr>cmds := (cmds w)\<lparr>pool := p', client := c',
                    awaited := (case pc of
                        R_clear m i \<Rightarrow> (awaited (cmds w))(unique_id m := None)
                      | _ \<Rightarrow> awaited (cmds w))\<rparr>, receiver := pc'\<rparr>)
              | _ \<Rightarrow> None))"

fun receive_performs ::
    "(uril_protocol_msg_t \<Rightarrow> 's \<Rightarrow> (int \<times> 's) outcome) \<Rightarrow> nat \<Rightarrow> (nat \<Rightarrow> cmd_args) \<Rightarrow> receive_event list
     \<Rightarrow> 's receive_world \<Rightarrow> 's receive_world option" where
  "receive_performs send rt args [] w = Some w"
| "receive_performs send rt args (ev # evs) w =
     Option.bind (receive_perform send rt args ev w) (receive_performs send rt args evs)"

lemma receive_perform_step:
  assumes "receive_perform send rt args ev w = Some w'"
  shows "receive_step send rt ev w w'"
proof (cases ev)
  case (Of_call cev)
  show ?thesis
  proof (cases cev)
    case (Begin t)
    with assms Of_call show ?thesis by (auto intro: begin_ split: if_splits)
  next
    case (Section t)
    with assms Of_call show ?thesis by (auto intro: section_ lock_perform_step simp del: lock_perform.simps)
  qed (use assms Of_call in simp)
next
  case (Arrive m)
  with assms show ?thesis by (auto intro: arrive split: receive_pc.splits option.splits)
next
  case Receive
  with assms have n: "receiver w \<noteq> R_idle" by auto
  then obtain pc' p' c' where sec: "receive_section rt (receiver w) (pool (cmds w), client (cmds w)) = Ok (Some (pc', p', c'))"
    using assms Receive
    by (auto simp del: receive_section.simps split: receive_pc.splits outcome.splits option.splits)
  with assms Receive n receive_step.receive [OF n sec refl, of send] show ?thesis
    by (cases "receiver w") (simp_all del: receive_section.simps)
qed

lemma receive_performs_run_from:
  "receive_performs send rt args evs w1 = Some w2 \<Longrightarrow> receive_run send rt evs0 w w1
   \<Longrightarrow> receive_run send rt (evs0 @ evs) w w2"
proof (induction evs arbitrary: w1 evs0)
  case (Cons ev evs)
  then obtain w' where w': "receive_perform send rt args ev w1 = Some w'" "receive_performs send rt args evs w' = Some w2"
    by (auto simp: bind_eq_Some_conv)
  from Cons.IH [OF w'(2) receive_more [OF Cons.prems(2) receive_perform_step [OF w'(1)]]] show ?case by simp
qed simp

lemma receive_performs_run: "receive_performs send rt args evs w = Some w' \<Longrightarrow> receive_run send rt evs w w'"
  using receive_performs_run_from [OF _ receive_none] by fastforce

text \<open>One command is sent; its response arrives while another call has the mutex.\<close>

definition one_sent :: "receive_event list" where
  "one_sent = Of_call (Begin 0) # replicate 10 (Of_call (Section 0)) @ [Of_call (Begin 1), Of_call (Section 1), Arrive (reply 1)]"

text \<open>The call frees the mutex, the receive thread takes it, and the call gets it back before the callback.\<close>

definition one_answered :: "receive_event list" where
  "one_answered = [Of_call (Section 1), Of_call (Section 1), Receive, Receive, Receive, Receive, Receive, Receive,
     Of_call (Section 1), Receive]"

definition sample_receive :: "receive_event list \<Rightarrow> service_connector_t receive_world \<Rightarrow> service_connector_t receive_world option" where
  "sample_receive = receive_performs (send_routine (\<lambda>s. True)) 7 (\<lambda>t. sample_args)"

lemma sample_receive_runs:
  "\<exists>w w'. receive_run (send_routine (\<lambda>s. True)) 7 one_sent (receive_start sample_client) w
     \<and> receive_run (send_routine (\<lambda>s. True)) 7 one_answered w w'
     \<and> receiver w = R_lock (reply 1) \<and> awaited (cmds w) 1 = Some sample_args
     \<and> handle (client (cmds w)) = 1 \<and> user_calls (client (cmds w)) = [] \<and> receiver w' = R_idle"
proof -
  have "case sample_receive one_sent (receive_start sample_client) of
      None \<Rightarrow> False
    | Some w \<Rightarrow> (case sample_receive one_answered w of
        None \<Rightarrow> False
      | Some w' \<Rightarrow> receiver w = R_lock (reply 1) \<and> awaited (cmds w) 1 = Some sample_args
         \<and> handle (client (cmds w)) = 1 \<and> user_calls (client (cmds w)) = [] \<and> receiver w' = R_idle)"
    by code_simp
  then show ?thesis
    unfolding sample_receive_def using receive_performs_run by (fastforce split: option.splits)
qed

section \<open>The guarantees\<close>

text \<open>
  C5: The response to a command that was sent, from its arrival until the receive thread is idle again, makes
  exactly one call of the user, of that command's callback with that command's data, however the
  steps of the receive thread and of any number of commands are interleaved: the search of the table,
  the clearing of the slot and the reading of its fields are not disturbed by the commands that
  write to the table without its lock.
\<close>

lemma response_called_back:
  assumes "client_inv c" and "receive_run send rt evs (receive_start c) w"
    and "receiver w = R_lock m" and "awaited (cmds w) (unique_id m) = Some a"
    and "cmd_callback a (client (cmds w)) = Some (Cb_user n)"
    and "receive_run send rt evs' w w'" and "\<forall>ev \<in> set evs'. \<forall>m. ev \<noteq> Arrive m"
    and "receiver w' = R_idle" and "unat (s_unique_msg_id c) + length evs + length evs' < 2 ^ 32"
  shows "user_calls (client (cmds w')) = user_calls (client (cmds w))
    @ [Resp_call n (handle (client (cmds w))) (sim_id m) (msg_id m) (payload m) (arg_data a)]"
proof -
  let ?call = "[Resp_call n (handle (client (cmds w))) (sim_id m) (msg_id m) (payload m) (arg_data a)]"
  have "in_progress m a (user_calls (client (cmds w))) ?call w"
    using assms(3,4,5) by (simp add: in_progress_def settled_client_def call_back_def)
  from response_progress [OF assms(6,2,1,9,7) this] show ?thesis
    by (simp add: in_progress_def settled_client_def assms(8))
qed

lemma response_called_back_witness:
  "\<exists>w w'. receive_run (send_routine (\<lambda>s. True)) 7 one_sent (receive_start sample_client) w
     \<and> receive_run (send_routine (\<lambda>s. True)) 7 one_answered w w'
     \<and> user_calls (client (cmds w')) = [Resp_call 3 1 0 0x0500 (payload (reply 1)) (Cd_user 8)]"
proof -
  obtain w w' where w: "receive_run (send_routine (\<lambda>s. True)) 7 one_sent (receive_start sample_client) w"
    "receive_run (send_routine (\<lambda>s. True)) 7 one_answered w w'"
    "receiver w = R_lock (reply 1)" "awaited (cmds w) 1 = Some sample_args"
    "handle (client (cmds w)) = 1" "user_calls (client (cmds w)) = []" "receiver w' = R_idle"
    using sample_receive_runs by blast
  have "awaited (cmds w) (unique_id (reply 1)) = Some sample_args" using w(4) by (simp add: reply_def)
  moreover have "cmd_callback sample_args (client (cmds w)) = Some (Cb_user 3)"
    by (simp add: cmd_callback_def sample_args_def)
  moreover have "\<forall>ev \<in> set one_answered. \<forall>m. ev \<noteq> Arrive m" by (simp add: one_answered_def)
  moreover have "unat (s_unique_msg_id sample_client) + length one_sent + length one_answered < 2 ^ 32"
    by (simp add: sample_client_def new_client_def one_sent_def one_answered_def)
  ultimately have "user_calls (client (cmds w')) = user_calls (client (cmds w))
      @ [Resp_call 3 (handle (client (cmds w))) (sim_id (reply 1)) (msg_id (reply 1)) (payload (reply 1))
          (arg_data sample_args)]"
    using response_called_back [OF sample_inv w(1,3) _ _ w(2) _ w(7)] by blast
  moreover have "sim_id (reply 1) = 0" "msg_id (reply 1) = 0x0500" "arg_data sample_args = Cd_user 8"
    by (simp_all add: reply_def sample_args_def)
  ultimately show ?thesis using w(1,2,5,6) by (intro exI [of _ w] exI [of _ w']) simp
qed

text \<open>
  C16: A command is six atomic steps and a response is one: every interleaving of the single steps, of the calls
  of lock and unlock, the search of the table slot by slot, and \<open>handle_receive_rsp\<close> read by read, has the effect
  of a run of those atomic steps, each response at the moment its slot is cleared; between responses
  the two have the same state.
\<close>

lemma receive_thread_atomic:
  assumes "client_inv c" and "receive_run send rt evs (receive_start c) w"
    and "unat (s_unique_msg_id c) + length evs < 2 ^ 32"
  shows "\<exists>evs'. length evs' \<le> length evs
    \<and> cmd_run send True evs' (start_world c)
        \<lparr>shared = settled_client (receiver w) (client (cmds w)),
         calls = (\<lambda>t. map_option (\<lambda>(a, pc). (a, section_pc pc)) (threads (cmds w) t)),
         unanswered = awaited (cmds w)\<rparr>
    \<and> (receiver w = R_idle \<longrightarrow> settled_client (receiver w) (client (cmds w)) = client (cmds w))"
proof -
  obtain evs1 where evs1: "length evs1 \<le> length evs" "lock_run send True evs1 (lock_start c) (settled w)"
    using receive_run_settles [OF assms(2) refl assms(1,3)] by blast
  obtain evs2 where "length evs2 \<le> length evs1"
    "cmd_run send True evs2 (start_world c) (section_world (settled w))"
    using lock_run_simulates [OF evs1(2) lock_start_inv [OF assms(1)]] unfolding section_world_start by blast
  with evs1(1) show ?thesis
    by (intro exI [of _ evs2]) (simp add: section_world_def settled_client_def)
qed

lemma receive_thread_atomic_witness:
  "\<exists>w evs'. receive_run (send_routine (\<lambda>s. True)) 7 (one_sent @ one_answered) (receive_start sample_client) w
     \<and> length evs' \<le> 24
     \<and> cmd_run (send_routine (\<lambda>s. True)) True evs' (start_world sample_client)
        \<lparr>shared = client (cmds w),
         calls = (\<lambda>t. map_option (\<lambda>(a, pc). (a, section_pc pc)) (threads (cmds w) t)),
         unanswered = awaited (cmds w)\<rparr>"
proof -
  obtain w where w: "receive_run (send_routine (\<lambda>s. True)) 7 (one_sent @ one_answered) (receive_start sample_client) w"
    "receiver w = R_idle"
    using sample_receive_runs receive_run_append by blast
  have n: "length (one_sent @ one_answered) = 24" by (simp add: one_sent_def one_answered_def)
  then have "unat (s_unique_msg_id sample_client) + length (one_sent @ one_answered) < 2 ^ 32"
    by (simp add: sample_client_def new_client_def)
  from receive_thread_atomic [OF sample_inv w(1) this] w n show ?thesis by (intro exI [of _ w]) auto
qed

text \<open>
  C17: Neither the commands nor the receive thread wait for good, when the connector's send returns and keeps the
  connector usable: from any reachable state they make at most 27 steps for every command and 23 for the
  response, and when none can make a step every command has returned and the receive thread is idle.
\<close>

lemma everybody_returns:
  assumes "client_inv c" and "receive_run send rt evs (receive_start c) w"
    and "link_ok (link c)"
    and "\<forall>m s. link_ok s \<longrightarrow> (\<exists>r s'. send m s = Ok (r, s') \<and> link_ok s')"
    and "receive_run send rt evs' w w'" and "list_all at_work evs'"
    and "unat (s_unique_msg_id c) + length evs + length evs' < 2 ^ 32"
  shows "length evs' \<le> 27 * card (dom (threads (cmds w))) + 23
    \<and> ((\<forall>t w''. \<not> receive_step send rt (Of_call (Section t)) w' w'') \<and> (\<forall>w''. \<not> receive_step send rt Receive w' w'') \<longrightarrow>
         receiver w' = R_idle \<and> (\<forall>t a pc. threads (cmds w') t = Some (a, pc) \<longrightarrow> (\<exists>r. pc = Unlocked (Returned r))))"
proof -
  have fin: "finite (dom (threads (cmds w)))"
    using receive_run_finite [OF assms(2)] by (simp add: receive_start_def lock_start_def)
  have "receive_left pc \<le> 23" for pc by (cases pc) (simp_all add: URIL_MAX_PENDING_OPS_def)
  then have "length evs' \<le> 27 * card (dom (threads (cmds w))) + 23"
    using receive_run_work [OF assms(5) fin assms(6)] work_left_bound [of "cmds w"]
    by (meson add_mono le_trans add_leD1 le_add1)
  moreover have all: "receive_run send rt (evs @ evs') (receive_start c) w'"
    using receive_run_append [OF assms(5,2)] .
  have keep: "link_ok s'" if "link_ok s" "send m s = Ok (r, s')" for m s r s'
    using assms(4) that by (metis Pair_inject outcome.inject(1))
  have "link_ok (link (client (cmds w')))"
    using receive_run_link [of link_ok, OF keep all] assms(3) by (simp add: receive_start_def lock_start_def)
  then have send: "\<forall>m. \<exists>r. send m (link (client (cmds w'))) = Ok r" using assms(4) by blast
  from receive_run_settles [OF all refl assms(1)] assms(7) obtain es
    where es: "receive_ok rt w'" "length es \<le> length (evs @ evs')" "lock_run send True es (lock_start c) (settled w')"
    by auto
  have "lock_inv (settled w')" using settled_invs(1) [OF es(3) assms(1)] es(2) assms(7) by simp
  note everybody_can_go [of rt w' send, OF es(1) this send]
  ultimately show ?thesis unfolding finished_def by blast
qed

text \<open>The response and the second command to their ends.\<close>

definition both_done :: "receive_event list" where
  "both_done = one_answered @ replicate 6 (Of_call (Section 1))"

lemma both_done_run:
  "\<exists>w w'. receive_run (send_routine (\<lambda>s. True)) 7 one_sent (receive_start sample_client) w
     \<and> receive_run (send_routine (\<lambda>s. True)) 7 both_done w w' \<and> receiver w' = R_idle
     \<and> threads (cmds w') 0 = Some (sample_args, Unlocked (Returned 0))
     \<and> threads (cmds w') 1 = Some (sample_args, Unlocked (Returned 0))"
proof -
  have "case sample_receive one_sent (receive_start sample_client) of
      None \<Rightarrow> False
    | Some w \<Rightarrow> (case sample_receive both_done w of
        None \<Rightarrow> False
      | Some w' \<Rightarrow> receiver w' = R_idle
         \<and> threads (cmds w') 0 = Some (sample_args, Unlocked (Returned 0))
         \<and> threads (cmds w') 1 = Some (sample_args, Unlocked (Returned 0)))"
    by code_simp
  then show ?thesis
    unfolding sample_receive_def using receive_performs_run by (fastforce split: option.splits)
qed

lemma everybody_returns_witness:
  "\<exists>w w'. receive_run (send_routine (\<lambda>s. True)) 7 one_sent (receive_start sample_client) w
     \<and> receive_run (send_routine (\<lambda>s. True)) 7 both_done w w' \<and> receiver w' = R_idle
     \<and> threads (cmds w') 0 = Some (sample_args, Unlocked (Returned 0))
     \<and> threads (cmds w') 1 = Some (sample_args, Unlocked (Returned 0))
     \<and> 16 \<le> 27 * card (dom (threads (cmds w))) + 23"
proof -
  obtain w w' where w: "receive_run (send_routine (\<lambda>s. True)) 7 one_sent (receive_start sample_client) w"
    "receive_run (send_routine (\<lambda>s. True)) 7 both_done w w'" "receiver w' = R_idle"
    "threads (cmds w') 0 = Some (sample_args, Unlocked (Returned 0))"
    "threads (cmds w') 1 = Some (sample_args, Unlocked (Returned 0))"
    using both_done_run by blast
  have n: "length both_done = 16" "list_all at_work both_done" by (simp_all add: both_done_def one_answered_def eval_nat_numeral)
  then have "unat (s_unique_msg_id sample_client) + length one_sent + length both_done < 2 ^ 32"
    by (simp add: sample_client_def new_client_def one_sent_def)
  moreover have "connected (link sample_client)"
    using sample_connected by (simp add: sample_client_def new_client_def)
  ultimately show ?thesis
    using everybody_returns [OF sample_inv w(1) _ sends_connected w(2) n(2)] w n(1) by auto
qed

end
