(* ===== verification/Tracker_Threads.thy ===== *)
theory Tracker_Threads
  imports Message_Tracker "HOL-Library.Multiset"
begin

text \<open>
  The message tracker as the threads of the service run it: the pumps of the connections call
  \<open>trackAndDispatchRequest\<close>, the threads of the vendor RIL call \<open>processResponse\<close>, the accept loop adds
  connections, all at once.  The table is used under \<open>mRequestsLock\<close>; the next processor is called and
  messages are sent outside it, and the connections are copied under no lock at all.
\<close>

section \<open>Handlers\<close>

text \<open>
  Where a call is: before the locked part and before the dispatch of a request; before the locked part
  and before the send of a response; before and within the copy of the connections for an indication,
  and in the loop over the copy.
\<close>

datatype handler_pc =
    Track nat uril_protocol_msg_t
  | Dispatch nat uril_protocol_msg_t
  | Lookup uril_protocol_msg_t
  | Send uril_protocol_msg_t "nat option"
  | Copy uril_protocol_msg_t
  | Copying uril_protocol_msg_t
  | Spread uril_protocol_msg_t "nat list" bool
  | Over bool

fun handler_section ::
    "(int \<Rightarrow> bool) \<Rightarrow> 'a request_processor option \<Rightarrow> handler_pc \<Rightarrow> connector tracker \<times> 'a
     \<Rightarrow> (handler_pc \<times> connector tracker \<times> 'a) outcome" where
  "handler_section net mNextProcessor (Track p m) (t, a) = Ok (Dispatch p m, track_request p (unique_id m) t, a)"
| "handler_section net mNextProcessor (Dispatch p m) (t, a) =
     (case mNextProcessor of
        Some process \<Rightarrow> map_ok (\<lambda>(b, a'). (Over b, t, a')) (process (Some m) a)
      | None \<Rightarrow> Ok (Over False, t, a))"
| "handler_section net mNextProcessor (Lookup m) (t, a) =
     Ok (Send m (mPendingRequests t (unique_id m)),
         t\<lparr>mPendingRequests := (mPendingRequests t)(unique_id m := None)\<rparr>, a)"
| "handler_section net mNextProcessor (Send m connection) (t, a) =
     (case connection of
        None \<Rightarrow> Ok (Over True, t, a)
      | Some p \<Rightarrow> map_ok (\<lambda>(b, c). (Over b, t\<lparr>mConnector := c\<rparr>, a)) (sendMessageToClient net p m (mConnector t)))"
| "handler_section net mNextProcessor (Copy m) (t, a) = Ok (Copying m, t, a)"
| "handler_section net mNextProcessor (Copying m) (t, a) = Ok (Spread m (getConnections (mConnector t)) True, t, a)"
| "handler_section net mNextProcessor (Spread m ps ret) (t, a) =
     (case ps of
        [] \<Rightarrow> Ok (Over ret, t, a)
      | p # ps' \<Rightarrow> map_ok (\<lambda>(b, c). (Spread m ps' (ret \<and> b), t\<lparr>mConnector := c\<rparr>, a))
                     (sendMessageToClient net p m (mConnector t)))"
| "handler_section net mNextProcessor (Over b) (t, a) = Ok (Over b, t, a)"

section \<open>One handler alone\<close>

fun handler_sections ::
    "nat \<Rightarrow> (int \<Rightarrow> bool) \<Rightarrow> 'a request_processor option \<Rightarrow> handler_pc \<Rightarrow> connector tracker \<times> 'a
     \<Rightarrow> (handler_pc \<times> connector tracker \<times> 'a) outcome" where
  "handler_sections 0 net nxt pc st = Ok (pc, st)"
| "handler_sections (Suc n) net nxt pc st =
     bind_outcome (handler_section net nxt pc st) (\<lambda>(pc', st'). handler_sections n net nxt pc' st')"

text \<open>A handler whose sections run without another in between is the function of \<open>Message_Tracker\<close>.\<close>

lemma request_sections:
  "handler_sections 2 net nxt (Track p m) (t, a)
   = map_ok (\<lambda>(b, t', a'). (Over b, t', a')) (trackAndDispatchRequest nxt p (Some m) (t, a))"
proof (cases nxt)
  case (Some process)
  then show ?thesis
    by (cases "process (Some m) a") (auto simp: eval_nat_numeral trackAndDispatchRequest_def Let_def)
qed (simp add: eval_nat_numeral trackAndDispatchRequest_def Let_def)

lemma response_sections:
  assumes "is_indication m = 0"
  shows "handler_sections 2 net nxt (Lookup m) (t, a)
    = map_ok (\<lambda>(t', b). (Over b, t', a)) (processResponse (sendMessageToClient net) getConnections (Some m) t)"
proof (cases "mPendingRequests t (unique_id m)")
  case None
  with assms show ?thesis by (simp add: eval_nat_numeral processResponse_def Let_def)
next
  case (Some p)
  with assms show ?thesis
    by (cases "sendMessageToClient net p m (mConnector t)")
      (auto simp: eval_nat_numeral processResponse_def Let_def)
qed

lemma spread_sections:
  "handler_sections (Suc (length ps)) net nxt (Spread m ps ret) (t, a)
   = map_ok (\<lambda>(b, c). (Over b, t\<lparr>mConnector := c\<rparr>, a)) (send_to_all (sendMessageToClient net) ps m ret (mConnector t))"
proof (induction ps arbitrary: ret t)
  case (Cons p ps)
  then show ?case by (cases "sendMessageToClient net p m (mConnector t)") auto
qed simp

lemma indication_sections:
  assumes "is_indication m \<noteq> 0"
  shows "handler_sections (3 + length (mConnections (mConnector t))) net nxt (Copy m) (t, a)
    = map_ok (\<lambda>(t', b). (Over b, t', a)) (processResponse (sendMessageToClient net) getConnections (Some m) t)"
proof -
  let ?n = "length (mConnections (mConnector t))"
  have "handler_sections (3 + ?n) net nxt (Copy m) (t, a)
      = handler_sections (Suc ?n) net nxt (Spread m (mConnections (mConnector t)) True) (t, a)"
    by (simp add: eval_nat_numeral getConnections_def del: handler_sections.simps(2))
      (simp add: getConnections_def)
  also have "\<dots> = map_ok (\<lambda>(t', b). (Over b, t', a)) (processResponse (sendMessageToClient net) getConnections (Some m) t)"
    unfolding spread_sections using assms
    by (cases "send_to_all (sendMessageToClient net) (mConnections (mConnector t)) m True (mConnector t)")
      (auto simp: processResponse_def getConnections_def)
  finally show ?thesis .
qed

section \<open>The handlers together\<close>

text \<open>
  The calls that have begun, each with the connection it is about: of a request the one it came from, of
  a response the one that asked.  \<open>awaiting\<close> has the requests the next processor has accepted and not
  answered; \<open>begun\<close>, \<open>replies\<close> and \<open>locked\<close> are histories: the responses that came up, those that were
  sent, each with the connection that asked, and the locked sections in their order.
\<close>

record 'a tracker_world =
  the_table :: "connector tracker"
  below :: 'a
  handlers :: "(handler_pc \<times> nat) list"
  awaiting :: "u32 \<rightharpoonup> nat"
  begun :: "(nat \<times> uril_protocol_msg_t) list"
  replies :: "(nat \<times> uril_protocol_msg_t) list"
  locked :: "tracker_event list"

fun in_flight :: "handler_pc \<Rightarrow> u32 option" where
  "in_flight (Track p m) = Some (unique_id m)"
| "in_flight (Dispatch p m) = Some (unique_id m)"
| "in_flight (Lookup m) = Some (unique_id m)"
| "in_flight pc = None"

text \<open>
  What can happen: a pump begins with a message of a client, whose id no request has that is not answered;
  the vendor RIL answers a request or reports something; a handler goes on; a client connects.  The
  vector of the connections may not grow while it is copied.
\<close>

datatype tracker_do =
    Ask nat uril_protocol_msg_t
  | Reply uril_protocol_msg_t
  | Indicate uril_protocol_msg_t
  | Go nat
  | Join int

definition copying :: "handler_pc \<Rightarrow> bool" where
  "copying pc \<longleftrightarrow> (case pc of Copying m \<Rightarrow> True | _ \<Rightarrow> False)"

definition go_on ::
    "(int \<Rightarrow> bool) \<Rightarrow> 'a request_processor option \<Rightarrow> nat \<Rightarrow> handler_pc \<Rightarrow> nat \<Rightarrow> 'a tracker_world
     \<Rightarrow> 'a tracker_world outcome" where
  "go_on net nxt i pc p w =
     map_ok (\<lambda>(pc', t, a).
       w\<lparr>the_table := t, below := a, handlers := (handlers w)[i := (pc', p)],
         awaiting := (case pc of
             Dispatch q m \<Rightarrow> if pc' = Over True then (awaiting w)(unique_id m \<mapsto> q) else awaiting w
           | _ \<Rightarrow> awaiting w),
         replies := (case pc of
             Send m q \<Rightarrow> if pc' = Over True then replies w @ [(p, m)] else replies w
           | _ \<Rightarrow> replies w),
         locked := (case pc of
             Track q m \<Rightarrow> locked w @ [Requested q m]
           | Lookup m \<Rightarrow> locked w @ [Responded m]
           | _ \<Rightarrow> locked w)\<rparr>)
       (handler_section net nxt pc (the_table w, below w))"

fun tracker_does ::
    "(int \<Rightarrow> bool) \<Rightarrow> 'a request_processor option \<Rightarrow> tracker_do \<Rightarrow> 'a tracker_world
     \<Rightarrow> 'a tracker_world option outcome" where
  "tracker_does net nxt (Ask p m) w =
     Ok (if p \<in> set (mConnections (mConnector (the_table w))) \<and> awaiting w (unique_id m) = None
            \<and> list_all (\<lambda>(pc, q). in_flight pc \<noteq> Some (unique_id m)) (handlers w)
         then Some (w\<lparr>handlers := handlers w @ [(Track p m, p)]\<rparr>) else None)"
| "tracker_does net nxt (Reply m) w =
     Ok (case awaiting w (unique_id m) of
           None \<Rightarrow> None
         | Some p \<Rightarrow>
             if is_indication m = 0
             then Some (w\<lparr>handlers := handlers w @ [(Lookup m, p)],
                         awaiting := (awaiting w)(unique_id m := None), begun := begun w @ [(p, m)]\<rparr>)
             else None)"
| "tracker_does net nxt (Indicate m) w =
     Ok (if is_indication m \<noteq> 0 then Some (w\<lparr>handlers := handlers w @ [(Copy m, 0)]\<rparr>) else None)"
| "tracker_does net nxt (Go i) w =
     (if i < length (handlers w)
      then (case handlers w ! i of
              (Over b, p) \<Rightarrow> Ok None
            | (pc, p) \<Rightarrow> map_ok Some (go_on net nxt i pc p w))
      else Ok None)"
| "tracker_does net nxt (Join s) w =
     (if list_ex (\<lambda>(pc, q). copying pc) (handlers w) then Fault Data_race
      else map_ok (\<lambda>c. Some (w\<lparr>the_table := (the_table w)\<lparr>mConnector := c\<rparr>\<rparr>))
             (accept_client s (mConnector (the_table w))))"

fun tracker_exec ::
    "(int \<Rightarrow> bool) \<Rightarrow> 'a request_processor option \<Rightarrow> tracker_do list \<Rightarrow> 'a tracker_world
     \<Rightarrow> 'a tracker_world option outcome" where
  "tracker_exec net nxt [] w = Ok (Some w)"
| "tracker_exec net nxt (ev # evs) w =
     bind_outcome (tracker_does net nxt ev w) (\<lambda>r.
       case r of None \<Rightarrow> Ok None | Some w' \<Rightarrow> tracker_exec net nxt evs w')"

definition idle_world :: "connector tracker \<Rightarrow> 'a \<Rightarrow> 'a tracker_world" where
  "idle_world t a =
     \<lparr>the_table = t, below = a, handlers = [], awaiting = Map.empty, begun = [], replies = [], locked = []\<rparr>"

section \<open>The invariant\<close>

definition responses_to :: "nat \<Rightarrow> connector \<Rightarrow> uril_protocol_msg_t list" where
  "responses_to q c = filter (\<lambda>m. is_indication m = 0) (delivered_to q c)"

definition replies_for :: "nat \<Rightarrow> (nat \<times> uril_protocol_msg_t) list \<Rightarrow> uril_protocol_msg_t list" where
  "replies_for q xs = map snd (filter (\<lambda>x. fst x = q) xs)"

definition ids_in_flight :: "(handler_pc \<times> nat) list \<Rightarrow> u32 list" where
  "ids_in_flight hs = concat (map (\<lambda>(pc, p). case in_flight pc of None \<Rightarrow> [] | Some u \<Rightarrow> [u]) hs)"

text \<open>What a handler knows of the table and the connections at each point.\<close>

fun handler_ok :: "connector tracker \<Rightarrow> nat \<Rightarrow> handler_pc \<Rightarrow> bool" where
  "handler_ok t p (Track q m) \<longleftrightarrow> q = p \<and> p \<in> dom (objects (mConnector t))"
| "handler_ok t p (Dispatch q m) \<longleftrightarrow> q = p \<and> mPendingRequests t (unique_id m) = Some p"
| "handler_ok t p (Lookup m) \<longleftrightarrow> is_indication m = 0 \<and> mPendingRequests t (unique_id m) = Some p"
| "handler_ok t p (Send m c) \<longleftrightarrow> is_indication m = 0 \<and> c = Some p \<and> p \<in> dom (objects (mConnector t))"
| "handler_ok t p (Copy m) \<longleftrightarrow> is_indication m \<noteq> 0"
| "handler_ok t p (Copying m) \<longleftrightarrow> is_indication m \<noteq> 0"
| "handler_ok t p (Spread m qs r) \<longleftrightarrow> is_indication m \<noteq> 0 \<and> set qs \<subseteq> dom (objects (mConnector t))"
| "handler_ok t p (Over b) \<longleftrightarrow> True"

definition tracker_world_inv :: "'a tracker_world \<Rightarrow> bool" where
  "tracker_world_inv w \<longleftrightarrow>
     connector_inv (mConnector (the_table w)) \<and> mObservers (mConnector (the_table w)) = [Obs_message_tracker]
     \<and> ran (mPendingRequests (the_table w)) \<subseteq> dom (objects (mConnector (the_table w)))
     \<and> distinct (ids_in_flight (handlers w)) \<and> (\<forall>u \<in> set (ids_in_flight (handlers w)). awaiting w u = None)
     \<and> (\<forall>u p. awaiting w u = Some p \<longrightarrow> mPendingRequests (the_table w) u = Some p)
     \<and> (\<forall>(pc, p) \<in> set (handlers w). handler_ok (the_table w) p pc)
     \<and> (\<forall>q. responses_to q (mConnector (the_table w)) = replies_for q (replies w))"

lemma ids_in_flight_simps [simp]:
  "ids_in_flight [] = []"
  "ids_in_flight (xs @ ys) = ids_in_flight xs @ ids_in_flight ys"
  "ids_in_flight ((pc, p) # xs) = (case in_flight pc of None \<Rightarrow> [] | Some u \<Rightarrow> [u]) @ ids_in_flight xs"
  by (simp_all add: ids_in_flight_def)

lemma in_flight_listed: "(pc, p) \<in> set hs \<Longrightarrow> in_flight pc = Some u \<Longrightarrow> u \<in> set (ids_in_flight hs)"
  by (force simp: ids_in_flight_def)

lemma tracker_world_invD:
  assumes "tracker_world_inv w"
  shows "connector_inv (mConnector (the_table w))" "mObservers (mConnector (the_table w)) = [Obs_message_tracker]"
    "ran (mPendingRequests (the_table w)) \<subseteq> dom (objects (mConnector (the_table w)))"
    "distinct (ids_in_flight (handlers w))" "u \<in> set (ids_in_flight (handlers w)) \<Longrightarrow> awaiting w u = None"
    "awaiting w u = Some p \<Longrightarrow> mPendingRequests (the_table w) u = Some p"
    "(pc, p) \<in> set (handlers w) \<Longrightarrow> handler_ok (the_table w) p pc"
    "responses_to q (mConnector (the_table w)) = replies_for q (replies w)"
  using assms unfolding tracker_world_inv_def by (blast, blast, blast, blast, blast, blast, fast, blast)

text \<open>A handler keeps what it knows when the objects stay and its own entry of the table stays.\<close>

lemma handler_ok_frame:
  assumes "handler_ok t p pc" and "dom (objects (mConnector t)) \<subseteq> dom (objects (mConnector t'))"
    and "\<forall>u. in_flight pc = Some u \<longrightarrow> mPendingRequests t' u = mPendingRequests t u"
  shows "handler_ok t' p pc"
  using assms by (cases pc) (force dest: subsetD)+

lemma inv_go:
  assumes inv: "tracker_world_inv w" and h: "handlers w = xs @ (pc, p) # ys"
    and conn: "connector_inv (mConnector t)" "mObservers (mConnector t) = [Obs_message_tracker]"
      "dom (objects (mConnector (the_table w))) \<subseteq> dom (objects (mConnector t))"
      "ran (mPendingRequests t) \<subseteq> dom (objects (mConnector t))"
    and pend: "\<And>u. in_flight pc \<noteq> Some u \<Longrightarrow> mPendingRequests t u = mPendingRequests (the_table w) u"
    and fl: "in_flight pc' \<in> {None, in_flight pc}"
    and aw: "aw = awaiting w \<or> (\<exists>u. in_flight pc = Some u \<and> in_flight pc' = None
      \<and> aw = (awaiting w)(u \<mapsto> p) \<and> mPendingRequests t u = Some p)"
    and ok: "handler_ok t p pc'" and rep: "\<And>q. responses_to q (mConnector t) = replies_for q rs"
  shows "tracker_world_inv (w\<lparr>the_table := t, below := a, handlers := xs @ (pc', p) # ys, awaiting := aw,
      replies := rs, locked := ls\<rparr>)"
proof -
  note D = tracker_world_invD [OF inv]
  have fly: "distinct (ids_in_flight (xs @ (pc', p) # ys))"
    "\<forall>u \<in> set (ids_in_flight (xs @ (pc', p) # ys)). aw u = None"
    using D(4,5) fl aw by (auto simp: h split: option.splits)
  have own: "in_flight pc \<noteq> Some u" if "aw u = Some q" "awaiting w u = Some q" for u q
    using D(5) that by (force simp: h split: option.splits)
  have "mPendingRequests t u = Some q" if u: "aw u = Some q" for u q
  proof (cases "awaiting w u = Some q")
    case True
    with own [OF u True] pend D(6) show ?thesis by simp
  next
    case False
    with u aw show ?thesis by (auto split: if_splits)
  qed
  moreover have "handler_ok t q pc1" if "(pc1, q) \<in> set (xs @ (pc', p) # ys)" for pc1 q
  proof (cases "(pc1, q) \<in> set xs \<union> set ys")
    case True
    then have "(pc1, q) \<in> set (handlers w)" by (auto simp: h)
    moreover have "in_flight pc \<noteq> Some u" if "in_flight pc1 = Some u" for u
      using True that D(4) in_flight_listed [OF _ that] by (auto simp: h split: option.splits)
    ultimately show ?thesis using D(7) conn(3) pend by (blast intro: handler_ok_frame)
  next
    case False
    with that ok show ?thesis by auto
  qed
  ultimately show ?thesis using conn fly rep by (auto simp: tracker_world_inv_def)
qed

section \<open>Every step keeps the invariant\<close>

lemma send_outbox:
  assumes "sendMessageToClient net p m c = Ok (b, c')"
  shows "objects c' = objects c" "mConnections c' = mConnections c" "mObservers c' = mObservers c"
    "next_object c' = next_object c"
    "responses_to q c' = responses_to q c @ (if b \<and> q = p \<and> is_indication m = 0 then [m] else [])"
  using assms
  by (auto simp: sendMessageToClient_def responses_to_def delivered_to_def split: option.splits if_splits)

lemma replies_for_snoc [simp]:
  "replies_for q (xs @ [(p, m)]) = replies_for q xs @ (if p = q then [m] else [])"
  by (simp add: replies_for_def)

lemma connector_inv_outbox:
  assumes "sendMessageToClient net p m c = Ok (b, c')"
  shows "connector_inv c' = connector_inv c"
  using send_outbox [OF assms] by (simp add: connector_inv_def)

lemma ran_erase: "ran (f(u := None)) \<subseteq> ran f"
  by (auto simp: ran_def)

text \<open>What a section does to the connector and to the table.\<close>

lemma section_sends:
  assumes "handler_section net nxt pc (t, a) = Ok (pc', t', a')"
  shows "mConnector t' = mConnector t \<or> (\<exists>p m b. sendMessageToClient net p m (mConnector t) = Ok (b, mConnector t'))"
  using assms
  by (cases pc) (auto simp: outcome_simps track_request_def split: option.splits list.splits)

lemma section_connector:
  assumes "handler_section net nxt pc (t, a) = Ok (pc', t', a')"
  shows "objects (mConnector t') = objects (mConnector t)"
    "mConnections (mConnector t') = mConnections (mConnector t)"
    "mObservers (mConnector t') = mObservers (mConnector t)"
    "next_object (mConnector t') = next_object (mConnector t)"
    "connector_inv (mConnector t') = connector_inv (mConnector t)"
  using section_sends [OF assms] by (auto dest: send_outbox connector_inv_outbox)

lemma section_table:
  assumes "handler_section net nxt pc (t, a) = Ok (pc', t', a')"
  shows "mPendingRequests t' = (case pc of
      Track p m \<Rightarrow> (mPendingRequests t)(unique_id m \<mapsto> p)
    | Lookup m \<Rightarrow> (mPendingRequests t)(unique_id m := None)
    | _ \<Rightarrow> mPendingRequests t)"
  using assms
  by (cases pc) (auto simp: outcome_simps track_request_def split: option.splits list.splits)

lemma section_next:
  assumes "handler_section net nxt pc (t, a) = Ok (pc', t', a')" and "handler_ok t p pc"
    and "connector_inv (mConnector t)" and "ran (mPendingRequests t) \<subseteq> dom (objects (mConnector t))"
  shows "handler_ok t' p pc' \<and> in_flight pc' \<in> {None, in_flight pc}"
proof (cases pc)
  case (Lookup m)
  with assms(1,2) subsetD [OF assms(4) ranI] show ?thesis by auto
next
  case (Copying m)
  with assms(1-3) show ?thesis by (auto simp: getConnections_def connector_inv_def)
next
  case (Spread m qs r)
  with assms(1,2) section_connector(1) [OF assms(1)] show ?thesis
    by (auto simp: outcome_simps split: list.splits)
qed (use assms(1,2) in \<open>auto simp: outcome_simps track_request_def split: option.splits\<close>)

lemma section_delivers:
  assumes "handler_section net nxt pc (t, a) = Ok (pc', t', a')" and "handler_ok t p pc"
  shows "responses_to q (mConnector t') = responses_to q (mConnector t)
    @ (case pc of Send m c \<Rightarrow> if pc' = Over True \<and> q = p then [m] else [] | _ \<Rightarrow> [])"
  using assms
  by (cases pc) (auto simp: outcome_simps track_request_def send_outbox(5) split: option.splits list.splits if_splits)

lemma go_inv:
  assumes inv: "tracker_world_inv w" and i: "i < length (handlers w)" "handlers w ! i = (pc, p)"
    and go: "go_on net nxt i pc p w = Ok w'"
  shows "tracker_world_inv w'"
proof -
  note D = tracker_world_invD [OF inv]
  define xs ys where "xs = take i (handlers w)" and "ys = drop (Suc i) (handlers w)"
  have h: "handlers w = xs @ (pc, p) # ys" using id_take_nth_drop [OF i(1)] i(2) by (simp add: xs_def ys_def)
  have upd: "(handlers w)[i := x] = xs @ x # ys" for x
    using i(1) by (simp add: xs_def ys_def upd_conv_take_nth_drop)
  have ok: "handler_ok (the_table w) p pc" using D(7) [of pc p] by (simp add: h)
  obtain pc' t a where sec: "handler_section net nxt pc (the_table w, below w) = Ok (pc', t, a)"
    and w': "w' = w\<lparr>the_table := t, below := a, handlers := xs @ (pc', p) # ys,
         awaiting := (case pc of
             Dispatch q m \<Rightarrow> if pc' = Over True then (awaiting w)(unique_id m \<mapsto> q) else awaiting w
           | _ \<Rightarrow> awaiting w),
         replies := (case pc of
             Send m q \<Rightarrow> if pc' = Over True then replies w @ [(p, m)] else replies w
           | _ \<Rightarrow> replies w),
         locked := (case pc of
             Track q m \<Rightarrow> locked w @ [Requested q m]
           | Lookup m \<Rightarrow> locked w @ [Responded m]
           | _ \<Rightarrow> locked w)\<rparr>"
    using go unfolding go_on_def upd by (auto simp: outcome_simps simp del: handler_section.simps)
  note conn = section_connector [OF sec] and table = section_table [OF sec]
    and nx = section_next [OF sec ok D(1,3)]
  show ?thesis
    unfolding w'
  proof (rule inv_go [OF inv h])
    show "ran (mPendingRequests t) \<subseteq> dom (objects (mConnector t))"
      using D(3) ok by (cases pc) (auto simp: conn table ran_def)
  next
    fix u assume "in_flight pc \<noteq> Some u"
    then show "mPendingRequests t u = mPendingRequests (the_table w) u" by (cases pc) (simp_all add: table)
  next
    fix q show "responses_to q (mConnector t) = replies_for q (case pc of
             Send m q \<Rightarrow> if pc' = Over True then replies w @ [(p, m)] else replies w
           | _ \<Rightarrow> replies w)"
      using D(8) [of q] by (cases pc) (simp_all add: section_delivers [OF sec ok])
  next
    show "(case pc of
             Dispatch q m \<Rightarrow> if pc' = Over True then (awaiting w)(unique_id m \<mapsto> q) else awaiting w
           | _ \<Rightarrow> awaiting w) = awaiting w \<or> (\<exists>u. in_flight pc = Some u \<and> in_flight pc' = None
      \<and> (case pc of
             Dispatch q m \<Rightarrow> if pc' = Over True then (awaiting w)(unique_id m \<mapsto> q) else awaiting w
           | _ \<Rightarrow> awaiting w) = (awaiting w)(u \<mapsto> p) \<and> mPendingRequests t u = Some p)"
      using ok by (cases pc) (auto simp: table)
  qed (use D nx in \<open>simp_all add: conn\<close>)
qed

lemma begin_inv:
  assumes inv: "tracker_world_inv w" and ok: "handler_ok (the_table w) p pc"
    and aw: "aw = awaiting w \<or> (\<exists>u. aw = (awaiting w)(u := None))"
    and fresh: "\<And>u. in_flight pc = Some u \<Longrightarrow> u \<notin> set (ids_in_flight (handlers w)) \<and> aw u = None"
  shows "tracker_world_inv (w\<lparr>handlers := handlers w @ [(pc, p)], awaiting := aw\<rparr>)"
proof -
  note D = tracker_world_invD [OF inv]
  have "aw u = None" if "awaiting w u = None" for u using aw that by auto
  moreover have "awaiting w u = Some q" if "aw u = Some q" for u q using aw that by (auto split: if_splits)
  ultimately show ?thesis using D ok fresh by (auto simp: tracker_world_inv_def split: option.splits)
qed

lemma accept_keeps:
  assumes "accept_client s c = Ok c'" and "mObservers c = [Obs_message_tracker]" and "connector_inv c"
  shows "connector_inv c'" "mObservers c' = [Obs_message_tracker]" "dom (objects c) \<subseteq> dom (objects c')"
    "delivered_to q c' = delivered_to q c"
proof -
  obtain c1 where "accept_client s c = Ok c1"
    "objects c1 = (objects c)(next_object c \<mapsto> accepted_connection s)" "next_object c1 = Suc (next_object c)"
    "mConnections c1 = mConnections c @ [next_object c]" "mObservers c1 = mObservers c" "outbox c1 = outbox c"
    "mIsRunning c1 = mIsRunning c"
    using accept_client_result [OF assms(2), of s] by blast
  then have c': "objects c' = (objects c)(next_object c \<mapsto> accepted_connection s)" "next_object c' = Suc (next_object c)"
    "mConnections c' = mConnections c @ [next_object c]" "mObservers c' = mObservers c" "outbox c' = outbox c"
    using assms(1) by auto
  have "set (mConnections c) \<subseteq> {..<next_object c}" using assms(3) by (auto simp: connector_inv_def)
  then show "connector_inv c'"
    using assms(3) by (auto simp: connector_inv_def c' less_Suc_eq dest: subsetD)
  show "mObservers c' = [Obs_message_tracker]" "dom (objects c) \<subseteq> dom (objects c')" "delivered_to q c' = delivered_to q c"
    using assms(2) by (auto simp: c' delivered_to_def)
qed

lemma does_inv:
  assumes "tracker_does net nxt ev w = Ok (Some w')" and inv: "tracker_world_inv w"
  shows "tracker_world_inv w'"
proof (cases ev)
  case (Ask p m)
  note D = tracker_world_invD [OF inv]
  have w': "w' = w\<lparr>handlers := handlers w @ [(Track p m, p)], awaiting := awaiting w\<rparr>"
    and a: "p \<in> set (mConnections (mConnector (the_table w)))" "awaiting w (unique_id m) = None"
    "list_all (\<lambda>(pc, q). in_flight pc \<noteq> Some (unique_id m)) (handlers w)"
    using assms(1) Ask by (auto split: if_splits)
  have "unique_id m \<notin> set (ids_in_flight (handlers w))"
    using a(3) by (auto simp: ids_in_flight_def list_all_iff split: option.splits)
  moreover have "p \<in> dom (objects (mConnector (the_table w)))" using D(1) a(1) by (auto simp: connector_inv_def)
  ultimately show ?thesis unfolding w' using a(2) by (intro begin_inv [OF inv]) auto
next
  case (Reply m)
  note D = tracker_world_invD [OF inv]
  obtain p where p: "awaiting w (unique_id m) = Some p" "is_indication m = 0"
    and w': "w' = (w\<lparr>handlers := handlers w @ [(Lookup m, p)], awaiting := (awaiting w)(unique_id m := None)\<rparr>)
      \<lparr>begun := begun w @ [(p, m)]\<rparr>"
    using assms(1) Reply by (auto split: option.splits if_splits)
  have "unique_id m \<notin> set (ids_in_flight (handlers w))" using D(5) p(1) by force
  then have "tracker_world_inv (w\<lparr>handlers := handlers w @ [(Lookup m, p)],
      awaiting := (awaiting w)(unique_id m := None)\<rparr>)"
    using p D(6) by (intro begin_inv [OF inv]) auto
  then show ?thesis unfolding w' by (simp add: tracker_world_inv_def)
next
  case (Indicate m)
  then have "w' = w\<lparr>handlers := handlers w @ [(Copy m, 0)], awaiting := awaiting w\<rparr>" "is_indication m \<noteq> 0"
    using assms(1) by (auto split: if_splits)
  then show ?thesis using begin_inv [OF inv, of 0 "Copy m" "awaiting w"] by simp
next
  case (Go i)
  obtain pc p where h: "i < length (handlers w)" "handlers w ! i = (pc, p)"
    using assms(1) Go by (cases "handlers w ! i") (auto split: if_splits)
  with assms(1) Go have "go_on net nxt i pc p w = Ok w'"
    by (auto simp: outcome_simps split: handler_pc.splits)
  from go_inv [OF inv h this] show ?thesis .
next
  case (Join s)
  then obtain c where c: "accept_client s (mConnector (the_table w)) = Ok c"
    and w': "w' = w\<lparr>the_table := (the_table w)\<lparr>mConnector := c\<rparr>\<rparr>"
    using assms(1) by (auto simp: outcome_simps split: if_splits)
  note D = tracker_world_invD [OF inv]
  note k = accept_keeps [OF c D(2,1)]
  have "handler_ok (the_table w') p pc" if "(pc, p) \<in> set (handlers w)" for pc p
    using handler_ok_frame [OF D(7) [OF that]] k(3) by (simp add: w')
  then show ?thesis
    using D k subset_trans [OF D(3) k(3)]
    by (simp add: w' tracker_world_inv_def responses_to_def split_beta)
qed

lemma exec_inv:
  "tracker_exec net nxt evs w = Ok (Some w') \<Longrightarrow> tracker_world_inv w \<Longrightarrow> tracker_world_inv w'"
proof (induction evs arbitrary: w)
  case (Cons ev evs)
  then show ?case by (auto simp: outcome_simps split: option.splits dest: does_inv)
qed simp

text \<open>The table is what the locked sections, in their order, make of it.\<close>

lemma owner_spec_snoc:
  "owner_spec (evs @ [ev]) uid = (if concerns uid ev then (case ev of Requested p m \<Rightarrow> Some p | _ \<Rightarrow> None)
     else owner_spec evs uid)"
  by (cases ev) (simp_all add: owner_spec_def)

lemma go_locked:
  assumes "go_on net nxt i pc p w = Ok w'" and "mPendingRequests (the_table w) = owner_spec (locked w)"
    and "handler_ok (the_table w) p pc"
  shows "mPendingRequests (the_table w') = owner_spec (locked w')"
proof -
  obtain pc' t a where sec: "handler_section net nxt pc (the_table w, below w) = Ok (pc', t, a)"
    "the_table w' = t" "locked w' = (case pc of
             Track q m \<Rightarrow> locked w @ [Requested q m]
           | Lookup m \<Rightarrow> locked w @ [Responded m]
           | _ \<Rightarrow> locked w)"
    using assms(1) by (auto simp: go_on_def outcome_simps simp del: handler_section.simps)
  show ?thesis
    using section_table [OF sec(1)] assms(2,3) sec(2,3)
    by (cases pc) (auto simp: fun_eq_iff owner_spec_snoc)
qed

lemma does_locked:
  assumes "tracker_does net nxt ev w = Ok (Some w')" and inv: "tracker_world_inv w"
    and "mPendingRequests (the_table w) = owner_spec (locked w)"
  shows "mPendingRequests (the_table w') = owner_spec (locked w')"
proof (cases ev)
  case (Go i)
  obtain pc p where h: "i < length (handlers w)" "handlers w ! i = (pc, p)"
    using assms(1) Go by (cases "handlers w ! i") (auto split: if_splits)
  with assms(1) Go have "go_on net nxt i pc p w = Ok w'"
    by (auto simp: outcome_simps split: handler_pc.splits)
  moreover have "handler_ok (the_table w) p pc" using tracker_world_invD(7) [OF inv, of pc p] h by (metis nth_mem)
  ultimately show ?thesis using go_locked assms(3) by blast
qed (use assms in \<open>auto simp: outcome_simps split: if_splits option.splits\<close>)

lemma exec_locked:
  "tracker_exec net nxt evs w = Ok (Some w') \<Longrightarrow> tracker_world_inv w
   \<Longrightarrow> mPendingRequests (the_table w) = owner_spec (locked w)
   \<Longrightarrow> mPendingRequests (the_table w') = owner_spec (locked w')"
proof (induction evs arbitrary: w)
  case (Cons ev evs)
  then obtain w1 where w1: "tracker_does net nxt ev w = Ok (Some w1)" "tracker_exec net nxt evs w1 = Ok (Some w')"
    by (auto simp: outcome_simps split: option.splits)
  from Cons.IH [OF w1(2) does_inv [OF w1(1)] does_locked [OF w1(1)]] Cons.prems show ?case by simp
qed simp

section \<open>Faults\<close>

lemma section_faults:
  assumes "handler_section net nxt pc (t, a) = Fault e" and "handler_ok t p pc"
    and below: "\<forall>process m a e. nxt = Some process \<longrightarrow> process (Some m) a \<noteq> Fault e"
  shows False
proof (cases pc)
  case (Dispatch q m)
  with assms(1) below show ?thesis by (cases nxt) (auto simp: map_ok_Fault_iff)
qed (use assms(1,2) in \<open>auto simp: map_ok_Fault_iff sendMessageToClient_def split: option.splits list.splits if_splits\<close>)

lemma does_faults:
  assumes "tracker_does net nxt ev w = Fault e" and inv: "tracker_world_inv w"
    and below: "\<forall>process m a e. nxt = Some process \<longrightarrow> process (Some m) a \<noteq> Fault e"
  shows "e = Data_race \<and> (\<exists>s. ev = Join s) \<and> (\<exists>m p. (Copying m, p) \<in> set (handlers w))"
proof (cases ev)
  case (Go i)
  obtain pc p where h: "i < length (handlers w)" "handlers w ! i = (pc, p)"
    using assms(1) Go by (cases "handlers w ! i") (auto split: if_splits)
  then have "handler_ok (the_table w) p pc" using tracker_world_invD(7) [OF inv] by (metis nth_mem)
  moreover have "handler_section net nxt pc (the_table w, below w) = Fault e"
    using assms(1) Go h by (auto simp: map_ok_Fault_iff go_on_def simp del: handler_section.simps split: handler_pc.splits)
  ultimately have False using section_faults [OF _ _ below] by blast
  then show ?thesis ..
next
  case (Join s)
  obtain c where "accept_client s (mConnector (the_table w)) = Ok c"
    using accept_client_result [OF tracker_world_invD(2) [OF inv]] by blast
  with assms(1) Join show ?thesis
    by (fastforce simp: list_ex_iff copying_def split: if_splits handler_pc.splits)
qed (use assms(1) in \<open>auto split: if_splits option.splits\<close>)

lemma exec_faults:
  assumes "tracker_exec net nxt evs w = Fault e" and "tracker_world_inv w"
    and below: "\<forall>process m a e. nxt = Some process \<longrightarrow> process (Some m) a \<noteq> Fault e"
  shows "e = Data_race \<and> (\<exists>before s after w' m p. evs = before @ Join s # after
    \<and> tracker_exec net nxt before w = Ok (Some w') \<and> (Copying m, p) \<in> set (handlers w'))"
  using assms(1,2)
proof (induction evs arbitrary: w)
  case (Cons ev evs)
  show ?case
  proof (cases "tracker_does net nxt ev w")
    case (Fault e')
    with Cons.prems(1) have f: "tracker_does net nxt ev w = Fault e" by simp
    from does_faults [OF f Cons.prems(2) below] show ?thesis
      by (fastforce intro: exI [of _ "[]"])
  next
    case (Ok r)
    with Cons.prems(1) obtain w1 where w1: "tracker_does net nxt ev w = Ok (Some w1)" "tracker_exec net nxt evs w1 = Fault e"
      by (auto split: option.splits)
    from Cons.IH [OF w1(2) does_inv [OF w1(1) Cons.prems(2)]]
    obtain before s after w' m p where "e = Data_race" and *: "evs = before @ Join s # after"
      "tracker_exec net nxt before w1 = Ok (Some w')" "(Copying m, p) \<in> set (handlers w')"
      by blast
    with w1(1) show ?thesis
      by (intro conjI exI [of _ "ev # before"] exI [of _ s] exI [of _ after] exI [of _ w'] exI [of _ m] exI [of _ p]) auto
  qed
qed simp

section \<open>Every response is sent\<close>

definition open_replies :: "(handler_pc \<times> nat) list \<Rightarrow> (nat \<times> uril_protocol_msg_t) multiset" where
  "open_replies hs = mset (concat (map (\<lambda>(pc, p). case pc of
     Lookup m \<Rightarrow> [(p, m)] | Send m c \<Rightarrow> [(p, m)] | _ \<Rightarrow> []) hs))"

definition replies_balance :: "(int \<Rightarrow> bool) \<Rightarrow> 'a tracker_world \<Rightarrow> bool" where
  "replies_balance net w \<longleftrightarrow>
     (\<exists>lost. mset (begun w) = mset (replies w) + open_replies (handlers w) + lost
        \<and> ((\<forall>s. net s) \<longrightarrow> lost = {#}))"

lemma open_replies_simps [simp]:
  "open_replies [] = {#}"
  "open_replies (xs @ ys) = open_replies xs + open_replies ys"
  "open_replies ((pc, p) # xs) =
     (case pc of Lookup m \<Rightarrow> {#(p, m)#} | Send m c \<Rightarrow> {#(p, m)#} | _ \<Rightarrow> {#}) + open_replies xs"
  by (simp_all add: open_replies_def split: handler_pc.splits)

text \<open>A section of a response keeps it open, sends it, or loses it on a socket that fails.\<close>

lemma section_replies:
  assumes "handler_section net nxt pc st = Ok (pc', st')"
  shows "\<exists>lost. open_replies [(pc, p)] = open_replies [(pc', p)] + lost
      + (case pc of Send m c \<Rightarrow> if pc' = Over True then {#(p, m)#} else {#} | _ \<Rightarrow> {#})
    \<and> ((\<forall>s. net s) \<longrightarrow> lost = {#})"
proof -
  obtain t a where st: "st = (t, a)" by (cases st)
  show ?thesis
  proof (cases pc)
    case (Send m c)
    show ?thesis
    proof (cases "pc' = Over True")
      case True
      then show ?thesis using Send by simp
    next
      case False
      then have "pc' = Over False \<and> \<not> (\<forall>s. net s)" using assms Send st
        by (auto simp: outcome_simps sendMessageToClient_def split: option.splits if_splits)
      then show ?thesis using Send by (intro exI [of _ "{#(p, m)#}"]) simp
    qed
  qed (use assms in \<open>auto simp: st outcome_simps split: option.splits list.splits\<close>)
qed

lemma does_balance:
  assumes "tracker_does net nxt ev w = Ok (Some w')" and bal: "replies_balance net w"
  shows "replies_balance net w'"
proof (cases ev)
  case (Go i)
  obtain pc p where h: "i < length (handlers w)" "handlers w ! i = (pc, p)"
    using assms(1) Go by (cases "handlers w ! i") (auto split: if_splits)
  with assms(1) Go have "go_on net nxt i pc p w = Ok w'"
    by (auto simp: outcome_simps split: handler_pc.splits)
  then obtain pc' st where sec: "handler_section net nxt pc (the_table w, below w) = Ok (pc', st)"
    and w': "handlers w' = (handlers w)[i := (pc', p)]" "begun w' = begun w" "replies w' = (case pc of
             Send m q \<Rightarrow> if pc' = Over True then replies w @ [(p, m)] else replies w
           | _ \<Rightarrow> replies w)"
    by (auto simp: go_on_def outcome_simps simp del: handler_section.simps)
  define xs ys where "xs = take i (handlers w)" and "ys = drop (Suc i) (handlers w)"
  have hs: "handlers w = xs @ (pc, p) # ys" "handlers w' = xs @ (pc', p) # ys"
    using id_take_nth_drop [OF h(1)] h by (simp_all add: xs_def ys_def w'(1) upd_conv_take_nth_drop)
  obtain l where l: "mset (begun w) = mset (replies w) + open_replies (handlers w) + l" "(\<forall>s. net s) \<longrightarrow> l = {#}"
    using bal by (auto simp: replies_balance_def)
  obtain l' where l': "open_replies [(pc, p)] = open_replies [(pc', p)] + l'
      + (case pc of Send m c \<Rightarrow> if pc' = Over True then {#(p, m)#} else {#} | _ \<Rightarrow> {#})" "(\<forall>s. net s) \<longrightarrow> l' = {#}"
    using section_replies [OF sec] by blast
  have cons: "open_replies (x # ys) = open_replies [x] + open_replies ys" for x by (cases x) simp
  have "mset (begun w') = mset (replies w') + open_replies (handlers w') + (l + l')"
    using l(1) l'(1) unfolding hs w'(2,3) open_replies_simps(2) cons
    by (simp only: union_assoc) (auto simp: union_ac split: handler_pc.split)
  then show ?thesis using l(2) l'(2) unfolding replies_balance_def by (intro exI [of _ "l + l'"]) simp
qed (use assms in \<open>auto simp: replies_balance_def outcome_simps split: if_splits option.splits\<close>)

lemma exec_balance:
  "tracker_exec net nxt evs w = Ok (Some w') \<Longrightarrow> replies_balance net w \<Longrightarrow> replies_balance net w'"
proof (induction evs arbitrary: w)
  case (Cons ev evs)
  then show ?case by (auto simp: outcome_simps split: option.splits dest: does_balance)
qed simp

lemma idle_world_ok:
  assumes "connector_inv c" and "mObservers c = [Obs_message_tracker]" and "outbox c = []"
  shows "tracker_world_inv (idle_world (new_tracker c) a)" "replies_balance net (idle_world (new_tracker c) a)"
    "mPendingRequests (the_table (idle_world (new_tracker c) a)) = owner_spec (locked (idle_world (new_tracker c) a))"
  using assms
  by (simp_all add: idle_world_def tracker_world_inv_def new_tracker_def responses_to_def delivered_to_def
      replies_for_def replies_balance_def owner_spec_def fun_eq_iff)

end
