(* ===== verification/Tracker_Properties.thy ===== *)
theory Tracker_Properties
  imports Tracker_Threads
begin

text \<open>
  The tracker under concurrent pumps and vendor threads: responses find the connection that asked, the
  table is what the locked sections make of it, and the one race is the copy of the connections.
\<close>

section \<open>A run to evaluate\<close>

definition quiet_connector :: connector where
  "quiet_connector = registerObserver Obs_message_tracker (new_connector 5)"

lemma quiet_connector:
  "connector_inv quiet_connector" "mObservers quiet_connector = [Obs_message_tracker]" "outbox quiet_connector = []"
  by (simp_all add: quiet_connector_def registerObserver_def new_connector_def connector_inv_def)

definition with_id :: "u32 \<Rightarrow> uril_protocol_msg_t" where
  "with_id u = \<lparr>is_indication = 0, unique_id = u, sim_id = 0, msg_id = 0x0500, plen = 0, payload = zero_payload\<rparr>"

lemma with_id_simps [simp]: "unique_id (with_id u) = u" "is_indication (with_id u) = 0"
  by (simp_all add: with_id_def)

definition accept_all :: "unit request_processor" where
  "accept_all m a = Ok (True, a)"

text \<open>Two clients ask at once; the second is dispatched and answered first, while the first is under way.\<close>

definition crossing :: "tracker_do list" where
  "crossing = [Join 3, Join 4, Ask 0 (with_id 5), Ask 1 (with_id 6), Go 0, Go 1, Go 1, Reply (with_id 6), Go 2,
     Go 0, Reply (with_id 5), Go 3, Go 3, Go 2]"

lemmas tracker_compute =
  idle_world_def new_tracker_def quiet_connector_def registerObserver_def new_connector_def
  accept_all_def go_on_def accept_client_def connection_registerObserver_def with_object_def
  tracker_onNewConnection_def ignitPump_def vec_push_back_def vec_elems_def vec_empty_def
  track_request_def sendMessageToClient_def copying_def Let_def

lemma crossing_run:
  "\<exists>w. tracker_exec (\<lambda>s. True) (Some accept_all) crossing (idle_world (new_tracker quiet_connector) ()) = Ok (Some w)
     \<and> handlers w = [(Over True, 0), (Over True, 1), (Over True, 1), (Over True, 0)]
     \<and> replies w = [(0, with_id 5), (1, with_id 6)] \<and> awaiting w = Map.empty
     \<and> locked w = [Requested 0 (with_id 5), Requested 1 (with_id 6), Responded (with_id 6), Responded (with_id 5)]"
  by (simp add: crossing_def tracker_compute)

section \<open>Properties\<close>

text \<open>
  The handlers of the tracker, cut where a lock is taken or released, are its functions when no other
  handler runs in between: a request takes two sections, a response two, an indication three and one for
  every connection.
\<close>

lemma handlers_sequential:
  "handler_sections 2 net nxt (Track p m) (t, a)
     = map_ok (\<lambda>(b, t', a'). (Over b, t', a')) (trackAndDispatchRequest nxt p (Some m) (t, a))
   \<and> handler_sections (if is_indication m = 0 then 2 else 3 + length (mConnections (mConnector t))) net nxt
       (if is_indication m = 0 then Lookup m else Copy m) (t, a)
     = map_ok (\<lambda>(t', b). (Over b, t', a)) (processResponse (sendMessageToClient net) getConnections (Some m) t)"
  using request_sections [of net nxt p m t a] response_sections [of m net nxt t a]
    indication_sections [of m t net nxt a]
  by (simp del: handler_sections.simps)

text \<open>
  C6: However the pumps, the vendor's threads and the accept loop are interleaved, when clients do not use an
  id that is still unanswered: every response finds a connection and it is the one that asked, each
  connection has been sent exactly the responses to its requests, in the order of the sends, and when the
  sockets work and no handler is under way every response that came up has been sent.
\<close>

lemma concurrent_responses_routed:
  assumes "connector_inv c" and "mObservers c = [Obs_message_tracker]" and "outbox c = []"
    and "tracker_exec net nxt evs (idle_world (new_tracker c) a) = Ok (Some w)"
  shows "(\<forall>m d p. (Send m d, p) \<in> set (handlers w) \<longrightarrow> d = Some p)
    \<and> (\<forall>u p. awaiting w u = Some p \<longrightarrow> mPendingRequests (the_table w) u = Some p)
    \<and> (\<forall>q. filter (\<lambda>m. is_indication m = 0) (delivered_to q (mConnector (the_table w)))
          = map snd (filter (\<lambda>x. fst x = q) (replies w)))
    \<and> ((\<forall>s. net s) \<and> (\<forall>(pc, p) \<in> set (handlers w). \<exists>b. pc = Over b) \<longrightarrow> mset (replies w) = mset (begun w))"
proof -
  note ok = idle_world_ok [OF assms(1,2,3)]
  have inv: "tracker_world_inv w" using exec_inv [OF assms(4) ok(1)] .
  note D = tracker_world_invD [OF inv]
  have "d = Some p" if "(Send m d, p) \<in> set (handlers w)" for m d p using D(7) [OF that] by simp
  moreover have "mset (replies w) = mset (begun w)"
    if "\<forall>s. net s" and over: "\<forall>(pc, p) \<in> set (handlers w). \<exists>b. pc = Over b"
  proof -
    have "concat (map (\<lambda>(pc, p). case pc of Lookup m \<Rightarrow> [(p, m)] | Send m c \<Rightarrow> [(p, m)] | _ \<Rightarrow> []) (handlers w)) = []"
      using over by fastforce
    then have "open_replies (handlers w) = {#}" by (simp add: open_replies_def)
    with that(1) exec_balance [OF assms(4) ok(2)] show ?thesis by (auto simp: replies_balance_def)
  qed
  ultimately show ?thesis using D(6,8) unfolding responses_to_def replies_for_def by blast
qed

lemma concurrent_responses_routed_witness:
  "\<exists>w. tracker_exec (\<lambda>s. True) (Some accept_all) crossing (idle_world (new_tracker quiet_connector) ()) = Ok (Some w)
     \<and> filter (\<lambda>m. is_indication m = 0) (delivered_to 1 (mConnector (the_table w))) = [with_id 6]
     \<and> mset (begun w) = {#(0, with_id 5), (1, with_id 6)#}"
proof -
  obtain w where w: "tracker_exec (\<lambda>s. True) (Some accept_all) crossing (idle_world (new_tracker quiet_connector) ()) = Ok (Some w)"
    "handlers w = [(Over True, 0), (Over True, 1), (Over True, 1), (Over True, 0)]"
    "replies w = [(0, with_id 5), (1, with_id 6)]"
    using crossing_run by blast
  note r = concurrent_responses_routed [OF quiet_connector w(1)]
  have "filter (\<lambda>m. is_indication m = 0) (delivered_to 1 (mConnector (the_table w)))
      = map snd (filter (\<lambda>x. fst x = 1) (replies w))"
    using r by blast
  moreover have "mset (replies w) = mset (begun w)" using r w(2) by auto
  ultimately show ?thesis using w by (intro exI [of _ w]) simp
qed





end
