(* ===== verification/Callback_Properties.thy ===== *)
theory Callback_Properties
  imports Service_Properties
begin

text \<open>
  The callback of the vendor RIL when several run at a time: in sections it is what it is as a whole, and it
  uses a freed context exactly when a follow-up thread outruns the callback that started it.
\<close>

definition outrun :: "u32 \<Rightarrow> u8 \<Rightarrow> RIL_Errno \<Rightarrow> ril_data \<Rightarrow> ril_data \<Rightarrow> callback_event list" where
  "outrun uid sid e voice rest =
     [Ev_call Op_getNetworkRegistrationStatusV1 [] uid sid, Ev_answered 0 RIL_E_SUCCESS voice, Ev_step 0,
      Ev_follow_up RIL_REQUEST_DATA_REGISTRATION_STATE 0, Ev_answered 0 e rest, Ev_step 1, Ev_step 1, Ev_step 1, Ev_step 1, Ev_step 0]"

text \<open>
  C35: The handler of the voice registration starts a thread that hands the context to the vendor RIL again, and
  the callback then looks at \<open>ctx->isCompleted\<close>: when the vendor answers the second request with an
  error before that look, the context has been freed.  Over all interleavings of requests, callbacks and threads
  this is the only use of a freed context: it takes a follow-up thread that sends while the callback
  that started it still has its look ahead.
\<close>

lemma follow_up_outruns_callback:
  assumes "tracker_ok t" and "e \<noteq> RIL_E_SUCCESS"
    and "handleRilVoiceRegStateResponseV1 H
      (with_rsp (new_context RIL_REQUEST_VOICE_REGISTRATION_STATE uid sid)) RIL_E_SUCCESS voice = Ok res"
  shows "callback_exec H (tracker_pr net) (outrun uid sid e voice rest) (quiet_world t) = Fault Use_after_free
    \<and> (\<forall>evs. callback_exec H (tracker_pr net) evs (quiet_world t) = Fault Use_after_free \<longrightarrow>
         (\<exists>before r p after w ret. evs = before @ Ev_follow_up r p # after
            \<and> callback_exec H (tracker_pr net) before (quiet_world t) = Ok (Some w)
            \<and> Rc_check p ret \<in> set (callbacks w)))"
proof (intro conjI allI impI)
  have up: "tracker_ok (upper (the_ril (quiet_world t)))"
    using assms(1) by (simp add: quiet_world_def new_adapter_def)
  show "\<exists>before r p after w ret. evs = before @ Ev_follow_up r p # after
      \<and> callback_exec H (tracker_pr net) before (quiet_world t) = Ok (Some w) \<and> Rc_check p ret \<in> set (callbacks w)"
    if "callback_exec H (tracker_pr net) evs (quiet_world t) = Fault Use_after_free" for evs
    using service_responses.callback_exec_safe [OF that quiet_inv up] .
  let ?c0 = "with_rsp (new_context RIL_REQUEST_VOICE_REGISTRATION_STATE uid sid)"
  obtain r2 s where res: "res = (True, ?c0\<lparr>rsp := Some r2, isCompleted := False,
      rilReqId := RIL_REQUEST_DATA_REGISTRATION_STATE\<rparr>, [RIL_REQUEST_DATA_REGISTRATION_STATE])" "r_body r2 = Body_reg s"
    using assms(3)
    by (auto simp: handleRilVoiceRegStateResponseV1_def outcome_simps Let_def put_reg_def put_rsp_def
        split: option.splits if_splits)
  define c1 where "c1 = ?c0\<lparr>rsp := Some r2, isCompleted := False, rilReqId := RIL_REQUEST_DATA_REGISTRATION_STATE\<rparr>"
  have c1: "with_rsp c1 = c1" "rilReqId c1 = RIL_REQUEST_DATA_REGISTRATION_STATE" by (simp_all add: c1_def with_rsp_def)
  have voice: "handleRilVoiceRegStateResponseV1 H ?c0 RIL_E_SUCCESS voice = Ok (True, c1, [RIL_REQUEST_DATA_REGISTRATION_STATE])"
    using assms(3) res by (simp add: c1_def)
  obtain r3 where rest: "handleRilDataRegStateResponseV1 H c1 e rest = Ok (True, c1\<lparr>rsp := Some r3, isCompleted := True\<rparr>, [])"
    using assms(2) res(2) by (simp add: handleRilDataRegStateResponseV1_def c1_def Let_def reg_of_body_def)
  obtain u b where pr: "tracker_pr net t (msg_of_rsp r3) = Ok (u, b)"
    using service_responses.respond_returns [OF assms(1), of net] by blast
  have "rilReqId (new_context RIL_REQUEST_VOICE_REGISTRATION_STATE uid sid) = RIL_REQUEST_VOICE_REGISTRATION_STATE"
    by (simp add: new_context_def)
  then show "callback_exec H (tracker_pr net) (outrun uid sid e voice rest) (quiet_world t) = Fault Use_after_free"
    by (simp add: outrun_def quiet_world_def new_adapter_def getNetworkRegistrationStatusV1_def send_request_def
        makeTokenForMessage_def sendToVendorRil_def sent_tokens_def follow_up_thread_def c1 voice rest pr)
qed

text \<open>A registration answer without any strings.\<close>

lemma voice_sample:
  "\<exists>res. handleRilVoiceRegStateResponseV1 sample_h
      (with_rsp (new_context RIL_REQUEST_VOICE_REGISTRATION_STATE 7 1)) RIL_E_SUCCESS (Data_strings []) = Ok res"
  by (auto simp: handleRilVoiceRegStateResponseV1_def with_rsp_def new_context_def fresh_rsp_def reg_of_body_def
      strings_of_def entry_def rilNwRegToUrilNwReg_def Let_def)

lemma follow_up_outruns_callback_witness:
  "callback_exec sample_h (tracker_pr (\<lambda>s. True))
     (outrun 7 1 RIL_E_RADIO_NOT_AVAILABLE (Data_strings []) Data_null) (quiet_world two_clients_tracker) = Fault Use_after_free"
proof -
  obtain res where "handleRilVoiceRegStateResponseV1 sample_h
      (with_rsp (new_context RIL_REQUEST_VOICE_REGISTRATION_STATE 7 1)) RIL_E_SUCCESS (Data_strings []) = Ok res"
    using voice_sample by blast
  from follow_up_outruns_callback [OF two_clients_ok _ this] show ?thesis by simp
qed

section \<open>The radio mode\<close>

text \<open>
  C36: The thread that reads the radio mode outlives its method: \<open>getRadioModeV1\<close> returns as soon as the thread is started, and a
  thread that has not read both ids by then reads parameters that are gone.  Over all interleavings of any
  number of queries the only faults are that and a radio state the code does not know; and a response that is passed up
  has the ids of its own request.
\<close>

lemma radio_thread_outlives_call:
  assumes "tracker_ok t"
  shows "radio_exec (tracker_pr net) [Rq_call req uid sid, Rq_return 0, Rq_step 0 st] (radio_quiet t) = Fault Use_after_free
    \<and> (\<forall>evs e. radio_exec (tracker_pr net) evs (radio_quiet t) = Fault e \<longrightarrow>
         (\<exists>before i s after w. evs = before @ Rq_step i s # after
            \<and> radio_exec (tracker_pr net) before (radio_quiet t) = Ok (Some w) \<and> i < length (queries w)
            \<and> ((e = Use_after_free \<and> q_returned (queries w ! i)
                 \<and> (q_pc (queries w ! i) = Rm_uid \<or> (\<exists>u. q_pc (queries w ! i) = Rm_sid u)))
              \<or> (e = Assert_failed \<and> (\<exists>n. s = RADIO_STATE_other n)))))
    \<and> (\<forall>evs w q m. radio_exec (tracker_pr net) evs (radio_quiet t) = Ok (Some w) \<and> q \<in> set (queries w)
         \<and> q_pc q = Rm_respond m \<longrightarrow> unique_id m = fst (q_params q) \<and> sim_id m = snd (q_params q))"
proof (intro conjI allI impI)
  show "radio_exec (tracker_pr net) [Rq_call req uid sid, Rq_return 0, Rq_step 0 st] (radio_quiet t) = Fault Use_after_free"
    by (simp add: radio_quiet_def getRadioModeV1_def q_frame_def)
next
  fix evs e assume "radio_exec (tracker_pr net) evs (radio_quiet t) = Fault e"
  from service_responses.radio_exec_fault [OF this radio_quiet_ok] assms
  show "\<exists>before i s after w. evs = before @ Rq_step i s # after
      \<and> radio_exec (tracker_pr net) before (radio_quiet t) = Ok (Some w) \<and> i < length (queries w)
      \<and> ((e = Use_after_free \<and> q_returned (queries w ! i)
           \<and> (q_pc (queries w ! i) = Rm_uid \<or> (\<exists>u. q_pc (queries w ! i) = Rm_sid u)))
        \<or> (e = Assert_failed \<and> (\<exists>n. s = RADIO_STATE_other n)))"
    by (simp add: radio_quiet_def new_adapter_def)
next
  fix evs w q m
  assume run: "radio_exec (tracker_pr net) evs (radio_quiet t) = Ok (Some w) \<and> q \<in> set (queries w) \<and> q_pc q = Rm_respond m"
  have "radio_ok w" using radio_exec_ok [OF conjunct1 [OF run] radio_quiet_ok] .
  with run have "read_so_far q (Rm_respond m)" by (auto simp: radio_ok_def)
  then show "unique_id m = fst (q_params q)" "sim_id m = snd (q_params q)" by (auto simp: radio_mode_msg_def)
qed

lemma radio_thread_outlives_call_witness:
  "radio_exec (tracker_pr (\<lambda>s. True)) [Rq_call [] 7 1, Rq_return 0, Rq_step 0 RADIO_STATE_ON] (radio_quiet two_clients_tracker)
   = Fault Use_after_free"
  using radio_thread_outlives_call [OF two_clients_ok] by blast

end
