(* ===== verification/Client_Lifetime.thy ===== *)
theory Client_Lifetime
  imports Client_Threads
begin

text \<open>
  The client library from its initialisation to its release, with everything that can run at the same
  time: commands, whose guards read the context under no lock, \<open>uril_client_release\<close> and
  \<open>uril_client_init\<close>, which write it under no lock, and the receive thread, which looks at \<open>ind_cb\<close> before it
  calls it.  The commands past their guards are those of \<open>Client_Threads\<close>; a response is one step, which
  \<open>Client_Receive\<close> justifies.
\<close>

section \<open>Sections\<close>

text \<open>A command: the handle it is given, whether its request is null, and the rest of its arguments.\<close>

record job =
  job_hndl :: u32
  job_null :: bool
  job_args :: cmd_args

text \<open>Before each of the three guards; past them.\<close>

datatype job_pc = G_init | G_handle | G_req | G_work cmd_pc

fun job_section ::
    "(uril_protocol_msg_t \<Rightarrow> 's \<Rightarrow> (int \<times> 's) outcome) \<Rightarrow> job \<Rightarrow> job_pc \<Rightarrow> 's client
     \<Rightarrow> (job_pc \<times> 's client) outcome" where
  "job_section send j G_init c = Ok (if initialized c = 0 then G_work (Returned (-1)) else G_handle, c)"
| "job_section send j G_handle c = Ok (if job_hndl j \<noteq> handle c then G_work (Returned (-1)) else G_req, c)"
| "job_section send j G_req c =
     (if job_null j then Ok (G_work (Returned (-1)), c)
      else if length (arg_req (job_args j)) > MAX_URIL_PAYLOAD_SIZE then Fault Out_of_bounds_write
      else Ok (G_work At_gen, c))"
| "job_section send j (G_work pc) c =
     map_ok (\<lambda>(pc', c'). (G_work pc', c')) (call_section send (job_args j) pc c)"

text \<open>\<open>uril_client_release\<close>: the test, and three writes.\<close>

datatype release_pc = Rl_test | Rl_ind | Rl_default | Rl_flag | Rl_over u32

fun release_section :: "release_pc \<Rightarrow> 's client \<Rightarrow> release_pc \<times> 's client" where
  "release_section Rl_test c = (if initialized c \<noteq> 0 then Rl_ind else Rl_over (-1), c)"
| "release_section Rl_ind c = (Rl_default, c\<lparr>ind_cb := None\<rparr>)"
| "release_section Rl_default c = (Rl_flag, c\<lparr>default_async_cb := None\<rparr>)"
| "release_section Rl_flag c = (Rl_over 0, c\<lparr>initialized := 0\<rparr>)"
| "release_section (Rl_over r) c = (Rl_over r, c)"

text \<open>
  \<open>uril_client_init\<close>: the checks, the \<open>memset\<close>, the two callbacks, the connects, the flag, and the handle, which is
  drawn under \<open>s_init_mutex\<close>.
\<close>

record 'e init_args =
  ia_valid :: bool
  ia_connector :: bool
  ia_lock :: bool
  ia_envs :: "nat \<Rightarrow> 'e"
  ia_ind :: "nat option"
  ia_default :: "uril_client_async_cb option"

datatype init_pc =
    It_check
  | It_clear
  | It_ind
  | It_default
  | It_connect nat
  | It_flag
  | It_handle
  | It_over u32 "u32 option"

fun init_section ::
    "('e \<Rightarrow> 's \<Rightarrow> int \<times> 's) \<Rightarrow> 'e init_args \<Rightarrow> init_pc \<Rightarrow> 's client \<Rightarrow> init_pc \<times> 's client" where
  "init_section connect x It_check c =
     (if ia_valid x \<and> ia_connector x then It_clear else It_over (-1) None, c)"
| "init_section connect x It_clear c = (It_ind, clear_context c)"
| "init_section connect x It_ind c = (It_default, c\<lparr>ind_cb := ia_ind x\<rparr>)"
| "init_section connect x It_default c = (It_connect 0, c\<lparr>default_async_cb := ia_default x\<rparr>)"
| "init_section connect x (It_connect k) c =
     (if k < URIL_CONNECT_ATTEMPTS_COUNT
      then let (r, s) = connect (ia_envs x k) (link c)
           in (if r = 0 then It_flag else It_connect (Suc k), c\<lparr>link := s\<rparr>)
      else (It_over (-1) None, c))"
| "init_section connect x It_flag c = (It_handle, c\<lparr>initialized := 1\<rparr>)"
| "init_section connect x It_handle c =
     (if ia_lock x
      then let h = s_unique_handle c + 1 in (It_over 0 (Some h), c\<lparr>s_unique_handle := h, handle := h\<rparr>)
      else (It_over (-1) None, c))"
| "init_section connect x (It_over r h) c = (It_over r h, c)"

text \<open>\<open>handle_receive_ind\<close> reads \<open>ind_cb\<close> twice: for the test and for the call.\<close>

datatype ind_pc = Id_idle | Id_test uril_protocol_msg_t | Id_call uril_protocol_msg_t

fun ind_section :: "ind_pc \<Rightarrow> 's client \<Rightarrow> (ind_pc \<times> 's client) outcome" where
  "ind_section Id_idle c = Ok (Id_idle, c)"
| "ind_section (Id_test m) c = Ok (if ind_cb c \<noteq> None then Id_call m else Id_idle, c)"
| "ind_section (Id_call m) c =
     (case ind_cb c of
        None \<Rightarrow> Fault Null_deref
      | Some n \<Rightarrow>
          Ok (Id_idle, c\<lparr>user_calls := user_calls c @ [Ind_call n (handle c) (sim_id m) (msg_id m)]\<rparr>))"

section \<open>Each alone\<close>

fun job_sections ::
    "nat \<Rightarrow> (uril_protocol_msg_t \<Rightarrow> 's \<Rightarrow> (int \<times> 's) outcome) \<Rightarrow> job \<Rightarrow> job_pc \<times> 's client
     \<Rightarrow> (job_pc \<times> 's client) outcome" where
  "job_sections 0 send j st = Ok st"
| "job_sections (Suc n) send j st =
     bind_outcome (job_section send j (fst st) (snd st)) (job_sections n send j)"

fun init_sections ::
    "nat \<Rightarrow> ('e \<Rightarrow> 's \<Rightarrow> int \<times> 's) \<Rightarrow> 'e init_args \<Rightarrow> init_pc \<times> 's client \<Rightarrow> init_pc \<times> 's client" where
  "init_sections 0 connect x st = st"
| "init_sections (Suc n) connect x st = init_sections n connect x (init_section connect x (fst st) (snd st))"

lemma job_sections_returned [simp]: "job_sections n send j (G_work (Returned r), c) = Ok (G_work (Returned r), c)"
  by (induction n) auto

lemma init_sections_over [simp]: "init_sections n connect x (It_over r h, c) = (It_over r h, c)"
  by (induction n) auto

lemma job_work_alone:
  "job_sections n send j (G_work pc, c)
   = map_ok (\<lambda>(pc', c'). (G_work pc', c')) (call_sections n send (job_args j) (pc, c))"
proof (induction n arbitrary: pc c)
  case (Suc n)
  then show ?case by (cases "call_section send (job_args j) pc c") auto
qed simp

lemma job_alone:
  "job_sections 9 send j (G_init, c)
   = map_ok (\<lambda>(r, c'). (G_work (Returned r), c'))
       (uril_client_execute_command_async send all_locks (job_hndl j) (arg_sim (job_args j)) (arg_msg (job_args j))
          (if job_null j then None else Some (arg_req (job_args j))) (arg_cb (job_args j)) (arg_data (job_args j)) c)"
proof -
  have guards: "job_sections 9 send j (G_init, c)
      = (if initialized c = 0 \<or> job_hndl j \<noteq> handle c \<or> job_null j then Ok (G_work (Returned (-1)), c)
         else if length (arg_req (job_args j)) > MAX_URIL_PAYLOAD_SIZE then Fault Out_of_bounds_write
         else job_sections 6 send j (G_work At_gen, c))"
    using job_sections.simps(2) [of 8 send j] job_sections.simps(2) [of 7 send j] job_sections.simps(2) [of 6 send j]
    by (simp del: job_sections.simps)
  show ?thesis
  proof (cases "initialized c = 0 \<or> job_hndl j \<noteq> handle c \<or> job_null j
      \<or> length (arg_req (job_args j)) > MAX_URIL_PAYLOAD_SIZE")
    case True
    then show ?thesis unfolding guards by (auto simp: uril_client_execute_command_async_def)
  next
    case False
    then show ?thesis
      unfolding guards job_work_alone
      using sections_in_a_row [of c "job_args j" send]
      by (cases "uril_client_execute_command_async send all_locks (handle c) (arg_sim (job_args j))
          (arg_msg (job_args j)) (Some (arg_req (job_args j))) (arg_cb (job_args j)) (arg_data (job_args j)) c")
        (auto simp del: call_sections.simps)
  qed
qed

fun release_sections :: "nat \<Rightarrow> release_pc \<times> 's client \<Rightarrow> release_pc \<times> 's client" where
  "release_sections 0 st = st"
| "release_sections (Suc n) st = release_sections n (release_section (fst st) (snd st))"

lemma release_alone:
  "release_sections 4 (Rl_test, c) = (let (r, c') = uril_client_release h c in (Rl_over r, c'))"
  by (simp add: eval_nat_numeral uril_client_release_def Let_def)

lemma ind_alone:
  "bind_outcome (ind_section (Id_test m) c) (\<lambda>(pc, c'). ind_section pc c') = Ok (Id_idle, snd (handle_receive_ind m c))"
  by (simp add: handle_receive_ind_def split: option.split)

text \<open>The connects from number \<open>k\<close> on, and what follows them.\<close>

lemma connects_alone:
  "init_sections (n + 3) connect x (It_connect (URIL_CONNECT_ATTEMPTS_COUNT - n), c)
   = (let (ok, s) = connect_loop connect (ia_envs x) (URIL_CONNECT_ATTEMPTS_COUNT - n) n (link c)
      in if ok then init_sections 2 connect x (It_flag, c\<lparr>link := s\<rparr>) else (It_over (-1) None, c\<lparr>link := s\<rparr>))"
  if "n \<le> URIL_CONNECT_ATTEMPTS_COUNT"
  using that
proof (induction n arbitrary: c)
  case 0
  then show ?case by (simp add: eval_nat_numeral)
next
  case (Suc n)
  let ?k = "URIL_CONNECT_ATTEMPTS_COUNT - Suc n"
  have k: "?k < URIL_CONNECT_ATTEMPTS_COUNT" "Suc ?k = URIL_CONNECT_ATTEMPTS_COUNT - n" using Suc.prems by auto
  obtain r s where r: "connect (ia_envs x ?k) (link c) = (r, s)" by (cases "connect (ia_envs x ?k) (link c)")
  show ?case
  proof (cases "r = 0")
    case True
    have over: "init_sections (m + 2) connect x (It_flag, c') = init_sections 2 connect x (It_flag, c')" for m c'
      by (simp add: eval_nat_numeral Let_def)
    show ?thesis using r True k(1) over [of "Suc n"] by (simp add: Let_def numeral_3_eq_3 numeral_2_eq_2)
  next
    case False
    have "init_sections (Suc n + 3) connect x (It_connect ?k, c)
        = init_sections (n + 3) connect x (It_connect (URIL_CONNECT_ATTEMPTS_COUNT - n), c\<lparr>link := s\<rparr>)"
      using r False k init_sections.simps(2) [of "n + 3" connect x] by (simp del: init_sections.simps)
    also have "\<dots> = (let (ok, s) = connect_loop connect (ia_envs x) (URIL_CONNECT_ATTEMPTS_COUNT - n) n s
        in if ok then init_sections 2 connect x (It_flag, c\<lparr>link := s\<rparr>) else (It_over (-1) None, c\<lparr>link := s\<rparr>))"
      using Suc by (simp split: prod.split)
    finally show ?thesis using r False k(2) by (simp add: Let_def)
  qed
qed

lemma init_alone:
  "init_sections 27 connect x (It_check, c)
   = (let (r, h, c') = uril_client_init connect (all_locks\<lparr>init_lock := ia_lock x\<rparr>) (ia_envs x) (ia_valid x)
          (ia_connector x) (ia_ind x) (ia_default x) c
      in (It_over r h, c'))"
proof -
  let ?c = "(clear_context c)\<lparr>ind_cb := ia_ind x, default_async_cb := ia_default x\<rparr>"
  have n: "23 = URIL_CONNECT_ATTEMPTS_COUNT + 3" by (simp add: URIL_CONNECT_ATTEMPTS_COUNT_def)
  have "init_sections 27 connect x (It_check, c)
      = (if ia_valid x \<and> ia_connector x then init_sections 23 connect x (It_connect 0, ?c) else (It_over (-1) None, c))"
    using init_sections.simps(2) [of 26 connect x] init_sections.simps(2) [of 25 connect x]
      init_sections.simps(2) [of 24 connect x] init_sections.simps(2) [of 23 connect x]
    by (simp del: init_sections.simps)
  moreover have "init_sections 23 connect x (It_connect 0, ?c)
      = (let (ok, s) = connect_loop connect (ia_envs x) 0 URIL_CONNECT_ATTEMPTS_COUNT (link ?c)
         in if ok then init_sections 2 connect x (It_flag, ?c\<lparr>link := s\<rparr>) else (It_over (-1) None, ?c\<lparr>link := s\<rparr>))"
    unfolding n using connects_alone [of URIL_CONNECT_ATTEMPTS_COUNT connect x ?c] by simp
  ultimately show ?thesis
    by (auto simp: uril_client_init_def Let_def all_locks_def numeral_2_eq_2 split: prod.split)
qed

section \<open>All together\<close>

datatype 'e activity =
    Command job job_pc
  | Release release_pc
  | Init "'e init_args" init_pc

fun finished :: "'e activity \<Rightarrow> bool" where
  "finished (Command j (G_work (Returned r))) = True"
| "finished (Release (Rl_over r)) = True"
| "finished (Init x (It_over r h)) = True"
| "finished x = False"

fun activity_section ::
    "(uril_protocol_msg_t \<Rightarrow> 's \<Rightarrow> (int \<times> 's) outcome) \<Rightarrow> ('e \<Rightarrow> 's \<Rightarrow> int \<times> 's) \<Rightarrow> 'e activity \<Rightarrow> 's client
     \<Rightarrow> ('e activity \<times> 's client) outcome" where
  "activity_section send connect (Command j pc) c =
     map_ok (\<lambda>(pc', c'). (Command j pc', c')) (job_section send j pc c)"
| "activity_section send connect (Release pc) c = (let (pc', c') = release_section pc c in Ok (Release pc', c'))"
| "activity_section send connect (Init x pc) c =
     (let (pc', c') = init_section connect x pc c in Ok (Init x pc', c'))"

text \<open>
  \<open>awaiting\<close>: the commands the service was sent and has not answered.  \<open>receiving\<close>: a connect has started the
  receive thread, which handles one message at a time.
\<close>

record ('s, 'e) life_world =
  lib :: "'s client"
  activities :: "nat \<rightharpoonup> 'e activity"
  indication :: ind_pc
  receiving :: bool
  awaiting :: "u32 \<rightharpoonup> cmd_args"

definition awaiting_next ::
    "'e activity \<Rightarrow> 'e activity \<Rightarrow> (u32 \<rightharpoonup> cmd_args) \<Rightarrow> (u32 \<rightharpoonup> cmd_args)" where
  "awaiting_next x x' u =
     (case (x, x') of
        (Command j (G_work (At_send uid i)), Command j' (G_work (Returned r))) \<Rightarrow>
          if r = 0 then u(uid \<mapsto> job_args j) else u
      | _ \<Rightarrow> u)"

definition connected_now :: "'e activity \<Rightarrow> bool" where
  "connected_now x \<longleftrightarrow> (case x of Init y pc \<Rightarrow> pc = It_flag | _ \<Rightarrow> False)"

definition begin_activity :: "nat \<Rightarrow> 'e activity \<Rightarrow> ('s, 'e) life_world \<Rightarrow> ('s, 'e) life_world option" where
  "begin_activity t x w =
     (if activities w t = None then Some (w\<lparr>activities := (activities w)(t \<mapsto> x)\<rparr>) else None)"

datatype 'e life_event =
    Ev_command nat job
  | Ev_release nat
  | Ev_init nat "'e init_args"
  | Ev_section nat
  | Ev_indication uril_protocol_msg_t
  | Ev_ind_section
  | Ev_response uril_protocol_msg_t

text \<open>The world after an event; \<open>None\<close> where it cannot happen.\<close>

fun life_does ::
    "(uril_protocol_msg_t \<Rightarrow> 's \<Rightarrow> (int \<times> 's) outcome) \<Rightarrow> ('e \<Rightarrow> 's \<Rightarrow> int \<times> 's) \<Rightarrow> 'e life_event
     \<Rightarrow> ('s, 'e) life_world \<Rightarrow> ('s, 'e) life_world option outcome" where
  "life_does send connect (Ev_command t j) w = Ok (begin_activity t (Command j G_init) w)"
| "life_does send connect (Ev_release t) w = Ok (begin_activity t (Release Rl_test) w)"
| "life_does send connect (Ev_init t x) w = Ok (begin_activity t (Init x It_check) w)"
| "life_does send connect (Ev_section t) w =
     (case activities w t of
        None \<Rightarrow> Ok None
      | Some x \<Rightarrow>
          if finished x then Ok None
          else map_ok (\<lambda>(x', c'). Some (w\<lparr>lib := c', activities := (activities w)(t \<mapsto> x'),
                   receiving := receiving w \<or> connected_now x', awaiting := awaiting_next x x' (awaiting w)\<rparr>))
                 (activity_section send connect x (lib w)))"
| "life_does send connect (Ev_indication m) w =
     Ok (if receiving w \<and> indication w = Id_idle then Some (w\<lparr>indication := Id_test m\<rparr>) else None)"
| "life_does send connect Ev_ind_section w =
     (if indication w = Id_idle then Ok None
      else map_ok (\<lambda>(pc, c'). Some (w\<lparr>lib := c', indication := pc\<rparr>)) (ind_section (indication w) (lib w)))"
| "life_does send connect (Ev_response m) w =
     (if receiving w \<and> indication w = Id_idle \<and> awaiting w (unique_id m) \<noteq> None
      then map_ok (\<lambda>(r, c'). Some (w\<lparr>lib := c', awaiting := (awaiting w)(unique_id m := None)\<rparr>))
             (handle_receive_rsp all_locks m (lib w))
      else Ok None)"

fun life_exec ::
    "(uril_protocol_msg_t \<Rightarrow> 's \<Rightarrow> (int \<times> 's) outcome) \<Rightarrow> ('e \<Rightarrow> 's \<Rightarrow> int \<times> 's) \<Rightarrow> 'e life_event list
     \<Rightarrow> ('s, 'e) life_world \<Rightarrow> ('s, 'e) life_world option outcome" where
  "life_exec send connect [] w = Ok (Some w)"
| "life_exec send connect (ev # evs) w =
     bind_outcome (life_does send connect ev w) (\<lambda>r.
       case r of None \<Rightarrow> Ok None | Some w' \<Rightarrow> life_exec send connect evs w')"

text \<open>A library that has been initialised, and one that has not.\<close>

definition life_start :: "bool \<Rightarrow> 's client \<Rightarrow> ('s, 'e) life_world" where
  "life_start up c =
     \<lparr>lib = c, activities = Map.empty, indication = Id_idle, receiving = up, awaiting = Map.empty\<rparr>"

lemma life_exec_Cons:
  assumes "life_exec send connect (ev # evs) w = Ok (Some w')"
  obtains w1 where "life_does send connect ev w = Ok (Some w1)" and "life_exec send connect evs w1 = Ok (Some w')"
  using assms by (auto simp: outcome_simps split: option.splits)

lemma life_exec_append:
  "life_exec send connect (evs @ fs) w
   = bind_outcome (life_exec send connect evs w) (\<lambda>r.
       case r of None \<Rightarrow> Ok None | Some w' \<Rightarrow> life_exec send connect fs w')"
proof (induction evs arbitrary: w)
  case (Cons ev evs)
  then show ?case by (cases "life_does send connect ev w") (auto split: option.split)
qed simp

text \<open>Facts about every world of a run, from one lemma on one event.\<close>

lemma life_exec_induct [consumes 1, case_names start step]:
  assumes "life_exec send connect evs w = Ok (Some w')" and "P w"
    and "\<And>ev w1 w2. ev \<in> set evs \<Longrightarrow> P w1 \<Longrightarrow> life_does send connect ev w1 = Ok (Some w2) \<Longrightarrow> P w2"
  shows "P w'"
  using assms
proof (induction evs arbitrary: w)
  case (Cons ev evs)
  obtain w1 where w1: "life_does send connect ev w = Ok (Some w1)" "life_exec send connect evs w1 = Ok (Some w')"
    using life_exec_Cons [OF Cons.prems(1)] .
  have "P w1" using Cons.prems(3) [OF _ Cons.prems(2) w1(1)] by simp
  then show ?case by (rule Cons.IH [OF w1(2)]) (rule Cons.prems(3), simp_all)
qed simp

section \<open>The commands in it\<close>

fun cmd_of :: "'e activity \<Rightarrow> (cmd_args \<times> cmd_pc) option" where
  "cmd_of (Command j (G_work pc)) = Some (job_args j, pc)"
| "cmd_of x = None"

text \<open>What the world is for the commands past their guards: that of \<open>Client_Threads\<close>.\<close>

definition view :: "('s, 'e) life_world \<Rightarrow> 's cmd_world" where
  "view w = \<lparr>shared = lib w, calls = (\<lambda>t. Option.bind (activities w t) cmd_of), unanswered = awaiting w\<rparr>"

definition own_callbacks :: "('s, 'e) life_world \<Rightarrow> bool" where
  "own_callbacks w \<longleftrightarrow>
     (\<forall>t j pc. activities w t = Some (Command j pc) \<longrightarrow> arg_cb (job_args j) \<noteq> None)
     \<and> (\<forall>u a. awaiting w u = Some a \<longrightarrow> arg_cb a \<noteq> None)"

definition no_init :: "('s, 'e) life_world \<Rightarrow> bool" where
  "no_init w \<longleftrightarrow> (\<forall>t x pc. activities w t = Some (Init x pc) \<longrightarrow> finished (Init x pc))"

definition life_ok :: "('s, 'e) life_world \<Rightarrow> bool" where
  "life_ok w \<longleftrightarrow> cmd_inv (view w) \<and> own_callbacks w \<and> no_init w"

fun harmless :: "'e life_event \<Rightarrow> bool" where
  "harmless (Ev_command t j) \<longleftrightarrow> arg_cb (job_args j) \<noteq> None"
| "harmless (Ev_init t x) \<longleftrightarrow> False"
| "harmless ev \<longleftrightarrow> True"

lemma cmd_of_Some: "cmd_of x = Some (a, pc) \<longleftrightarrow> (\<exists>j. x = Command j (G_work pc) \<and> a = job_args j)"
  by (cases x rule: cmd_of.cases) auto

lemma view_simps [simp]:
  "shared (view w) = lib w" "unanswered (view w) = awaiting w"
  "calls (view w) t = Some (a, pc) \<longleftrightarrow>
     (\<exists>j. activities w t = Some (Command j (G_work pc)) \<and> a = job_args j)"
  by (auto simp: view_def bind_eq_Some_conv cmd_of_Some)

lemma own_callback: "arg_cb a \<noteq> None \<Longrightarrow> cmd_callback a c = arg_cb a"
  by (auto simp: cmd_callback_def)

text \<open>
  Commands with callbacks of their own do not notice what is done to the rest of the context.
\<close>

lemma slot_ok_context:
  "pending_ops c' = pending_ops c \<Longrightarrow> arg_cb a \<noteq> None \<Longrightarrow> slot_ok c' a pc = slot_ok c a pc"
  by (cases pc) (simp_all add: unused_def holds_def own_callback)

lemma cmd_inv_context:
  assumes inv: "cmd_inv v" and c': "pending_ops c' = pending_ops (shared v)" "s_unique_msg_id c' = s_unique_msg_id (shared v)"
    and calls: "\<And>t a pc. calls v t = Some (a, pc) \<Longrightarrow> arg_cb a \<noteq> None"
    and sent: "\<And>u a. unanswered v u = Some a \<Longrightarrow> arg_cb a \<noteq> None"
  shows "cmd_inv (v\<lparr>shared := c'\<rparr>)"
proof -
  have "call_ok (v\<lparr>shared := c'\<rparr>) a pc" if "calls v t = Some (a, pc)" for t a pc
    using cmd_invD(2) [OF inv that] slot_ok_context [OF c'(1) calls [OF that]] c'(2) by (simp add: call_ok_def)
  moreover have "waits_at c' a u i" if "unanswered v u = Some a" "waits_at (shared v) a u i" for u a i
    using that(2) sent [OF that(1)] c'(1) by (simp add: waits_at_def holds_def own_callback)
  ultimately show ?thesis
    using inv c' unfolding cmd_inv_def table_ok_def by simp metis
qed

text \<open>One lemma for each kind of event.\<close>

lemma calls_view_upd:
  "activities w' = (activities w)(t \<mapsto> x) \<Longrightarrow> calls (view w') = (calls (view w))(t := cmd_of x)"
  by (rule ext) (simp add: view_def)

lemma guard_ok:
  assumes ok: "life_ok w" and t: "activities w t = Some (Command j pc)" and pc: "\<forall>p. pc \<noteq> G_work p"
    and sec: "job_section send j pc (lib w) = Ok (pc', c')"
  shows "cmd_inv (view (w\<lparr>activities := (activities w)(t \<mapsto> Command j pc')\<rparr>)) \<and> c' = lib w"
proof -
  have inv: "cmd_inv (view w)" using ok by (simp add: life_ok_def)
  have c': "c' = lib w" using sec pc by (cases pc) (auto split: if_splits)
  have pc': "(\<forall>p. pc' \<noteq> G_work p) \<or> (\<exists>r. pc' = G_work (Returned r)) \<or> pc' = G_work At_gen"
    using sec pc by (cases pc) (auto split: if_splits)
  have none: "calls (view w) t = None" using t pc by (cases pc) (auto simp: view_def)
  let ?w = "view (w\<lparr>activities := (activities w)(t \<mapsto> Command j pc')\<rparr>)"
  let ?o = "case pc' of G_work p \<Rightarrow> Some (job_args j, p) | _ \<Rightarrow> None"
  have calls: "calls ?w = (calls (view w))(t := ?o)"
    using calls_view_upd [of "w\<lparr>activities := (activities w)(t \<mapsto> Command j pc')\<rparr>" w t "Command j pc'"]
    by (cases pc') simp_all
  have new: "uid_of p = None \<and> slot_of p = None \<and> slot_ok (lib w) a p" if "?o = Some (a, p)" for a p
    using pc' that by (auto split: job_pc.splits)
  have rest: "shared ?w = shared (view w)" "unanswered ?w = unanswered (view w)" by simp_all
  have "cmd_inv ?w"
    unfolding cmd_inv_def
  proof (intro conjI allI impI)
    show "table_ok (shared ?w)" using cmd_invD(1) [OF inv] by simp
  next
    fix t1 a p assume "calls ?w t1 = Some (a, p)"
    then show "call_ok ?w a p"
      using cmd_invD(2) [OF inv] new unfolding calls call_ok_def rest by (auto split: if_splits)
  next
    fix t1 t2 a1 p1 a2 p2 assume c: "calls ?w t1 = Some (a1, p1)" "calls ?w t2 = Some (a2, p2)" "t1 \<noteq> t2"
    show "apart p1 p2"
    proof (cases "t1 = t \<or> t2 = t")
      case True
      with c new show ?thesis unfolding calls apart_def by (auto simp del: view_simps)
    next
      case False
      with c have "calls (view w) t1 = Some (a1, p1)" "calls (view w) t2 = Some (a2, p2)"
        unfolding calls by (auto simp del: view_simps)
      from cmd_invD(3) [OF inv this c(3)] show ?thesis .
    qed
  next
    fix u a assume "unanswered ?w u = Some a"
    then obtain i where i: "waits_at (lib w) a u i" "\<forall>t a' p. calls (view w) t = Some (a', p) \<longrightarrow> slot_of p \<noteq> Some i"
      using cmd_invD(4) [OF inv] by fastforce
    then show "\<exists>i. waits_at (shared ?w) a u i \<and> (\<forall>t a' p. calls ?w t = Some (a', p) \<longrightarrow> slot_of p \<noteq> Some i)"
      using new unfolding calls by (intro exI [of _ i]) (auto split: if_splits)
  qed
  with c' show ?thesis by blast
qed

lemma work_ok:
  assumes inv: "cmd_inv (view w)" and max: "s_unique_msg_id (lib w) \<noteq> -1"
    and t: "activities w t = Some (Command j (G_work pc))"
    and sec: "call_section send (job_args j) pc (lib w) = Ok (pc', c')"
  shows "cmd_inv (view (w\<lparr>lib := c', activities := (activities w)(t \<mapsto> Command j (G_work pc')), receiving := b,
    awaiting := awaiting_next (Command j (G_work pc)) (Command j (G_work pc')) (awaiting w)\<rparr>))" (is "cmd_inv (view ?w)")
proof -
  have "calls (view w) t = Some (job_args j, pc)" using t by (simp add: view_def)
  then have next_inv: "cmd_inv ((view w)\<lparr>shared := c', calls := (calls (view w))(t \<mapsto> (job_args j, pc')),
      unanswered := (case pc of
          At_send uid i \<Rightarrow> if pc' = Returned 0 then (awaiting w)(uid \<mapsto> job_args j) else awaiting w
        | _ \<Rightarrow> awaiting w)\<rparr>)"
    by (rule section_inv [OF inv]) (use max sec in \<open>simp_all split: cmd_pc.split\<close>)
  have "awaiting_next (Command j (G_work pc)) (Command j (G_work pc')) (awaiting w)
      = (case pc of
          At_send uid i \<Rightarrow> if pc' = Returned 0 then (awaiting w)(uid \<mapsto> job_args j) else awaiting w
        | _ \<Rightarrow> awaiting w)"
    by (cases pc; cases pc') (auto simp: awaiting_next_def)
  moreover have "calls (view ?w) = (calls (view w))(t \<mapsto> (job_args j, pc'))"
    using calls_view_upd [of ?w w t "Command j (G_work pc')"] by simp
  ultimately have "view ?w = (view w)\<lparr>shared := c', calls := (calls (view w))(t \<mapsto> (job_args j, pc')),
      unanswered := (case pc of
          At_send uid i \<Rightarrow> if pc' = Returned 0 then (awaiting w)(uid \<mapsto> job_args j) else awaiting w
        | _ \<Rightarrow> awaiting w)\<rparr>"
    by (intro cmd_world.equality) simp_all
  then show ?thesis using next_inv by (simp only:)
qed

lemma context_ok:
  assumes "cmd_inv (view w)" and "own_callbacks w"
    and "pending_ops c' = pending_ops (lib w)" "s_unique_msg_id c' = s_unique_msg_id (lib w)"
  shows "cmd_inv ((view w)\<lparr>shared := c'\<rparr>)"
  using assms by (intro cmd_inv_context) (auto simp: own_callbacks_def)

lemma release_keeps:
  assumes "release_section pc c = (pc', c')"
  shows "pending_ops c' = pending_ops c \<and> s_unique_msg_id c' = s_unique_msg_id c \<and> handle c' = handle c
    \<and> (initialized c = 0 \<longrightarrow> initialized c' = 0)"
  using assms by (cases pc) auto

lemma ind_keeps:
  assumes "ind_section pc c = Ok (pc', c')"
  shows "pending_ops c' = pending_ops c \<and> s_unique_msg_id c' = s_unique_msg_id c \<and> handle c' = handle c
    \<and> initialized c' = initialized c \<and> ind_cb c' = ind_cb c \<and> default_async_cb c' = default_async_cb c"
  using assms by (cases pc) (auto split: option.splits)

lemma init_over: "no_init w \<Longrightarrow> activities w t = Some x \<Longrightarrow> \<not> finished x \<Longrightarrow> x \<noteq> Init y pc"
  by (auto simp: no_init_def)

lemma awaiting_next_cases:
  assumes "activity_section send connect x c = Ok (x', c')"
  shows "awaiting_next x x' u = u
    \<or> (\<exists>j uid i. x = Command j (G_work (At_send uid i)) \<and> awaiting_next x x' u = u(uid \<mapsto> job_args j))"
  by (auto simp: awaiting_next_def split: activity.split job_pc.split cmd_pc.split)

lemma activity_same:
  assumes "activity_section send connect x c = Ok (x', c')"
  shows "(\<forall>j pc. x = Command j pc \<longrightarrow> (\<exists>pc'. x' = Command j pc'))
    \<and> (\<forall>pc. x = Release pc \<longrightarrow> (\<exists>pc'. x' = Release pc')) \<and> (\<forall>y pc. x = Init y pc \<longrightarrow> (\<exists>pc'. x' = Init y pc'))"
  using assms by (cases x) (auto simp: outcome_simps Let_def split_def)

lemma section_own:
  assumes own: "own_callbacks w" and t: "activities w t = Some x"
    and sec: "activity_section send connect x (lib w) = Ok (x', c')"
  shows "own_callbacks (w\<lparr>lib := c', activities := (activities w)(t \<mapsto> x'), receiving := b, awaiting := awaiting_next x x' (awaiting w)\<rparr>)"
proof -
  have "arg_cb (job_args j) \<noteq> None" if "x' = Command j pc" for j pc
    using own t activity_same [OF sec] that by (cases x) (auto simp: own_callbacks_def)
  moreover have "arg_cb (job_args j) \<noteq> None" if "x = Command j pc" for j pc
    using own t that by (auto simp: own_callbacks_def)
  ultimately show ?thesis
    using own awaiting_next_cases [OF sec, of "awaiting w"] by (auto simp: own_callbacks_def split: if_splits)
qed

text \<open>No event harms the commands, while nobody initialises the library again.\<close>

lemma section_keeps_ok:
  assumes ok: "life_ok w" and max: "s_unique_msg_id (lib w) \<noteq> -1"
    and t: "activities w t = Some x" "\<not> finished x"
    and sec: "activity_section send connect x (lib w) = Ok (x', c')"
  shows "life_ok (w\<lparr>lib := c', activities := (activities w)(t \<mapsto> x'), receiving := b, awaiting := awaiting_next x x' (awaiting w)\<rparr>)"
    (is "life_ok ?w")
proof -
  have inv: "cmd_inv (view w)" and own: "own_callbacks w" and no: "no_init w" using ok by (simp_all add: life_ok_def)
  have "cmd_inv (view ?w)"
  proof (cases x)
    case (Command j pc)
    obtain pc' where pc': "job_section send j pc (lib w) = Ok (pc', c')" "x' = Command j pc'"
      using sec Command by (auto simp: outcome_simps simp del: job_section.simps)
    show ?thesis
    proof (cases "\<exists>p. pc = G_work p")
      case True
      then obtain p p' where p: "pc = G_work p" "pc' = G_work p'" "call_section send (job_args j) p (lib w) = Ok (p', c')"
        using pc'(1) by (auto simp: outcome_simps simp del: call_section.simps)
      with work_ok [OF inv max, of t j p] t(1) Command pc'(2) show ?thesis by simp
    next
      case False
      then have g: "\<forall>p. pc \<noteq> G_work p" by simp
      then have "awaiting_next x x' (awaiting w) = awaiting w"
        by (cases pc) (simp_all add: awaiting_next_def Command)
      then show ?thesis
        using guard_ok [OF ok t(1) [unfolded Command] g pc'(1)] by (simp add: view_def pc'(2))
    qed
  next
    case (Release pc)
    then obtain pc' where pc': "release_section pc (lib w) = (pc', c')" "x' = Release pc'"
      using sec by (cases "release_section pc (lib w)") simp
    have "calls (view ?w) = calls (view w)"
      using t(1) Release pc'(2) by (intro ext) (simp add: view_def)
    then have "view ?w = (view w)\<lparr>shared := c'\<rparr>"
      by (intro cmd_world.equality) (simp_all add: Release awaiting_next_def)
    then show ?thesis using context_ok [OF inv own, of c'] release_keeps [OF pc'(1)] by simp
  next
    case (Init y pc)
    then show ?thesis using init_over [OF no t] by simp
  qed
  moreover have "no_init ?w"
  proof (cases x)
    case (Init y pc)
    then show ?thesis using init_over [OF no t] by simp
  qed (use no activity_same [OF sec] in \<open>auto simp: no_init_def\<close>)
  ultimately show ?thesis using section_own [OF own t(1) sec] by (simp add: life_ok_def)
qed

lemma begin_keeps_ok:
  assumes "life_ok w" and "begin_activity t x w = Some w'" and "cmd_of x = None"
    and "\<forall>j pc. x = Command j pc \<longrightarrow> arg_cb (job_args j) \<noteq> None" and "\<forall>y pc. x \<noteq> Init y pc"
  shows "life_ok w'"
proof -
  have w': "w' = w\<lparr>activities := (activities w)(t \<mapsto> x)\<rparr>" "activities w t = None"
    using assms(2) by (auto simp: begin_activity_def split: if_splits)
  have "view w' = view w"
    unfolding w'(1) using w'(2) assms(3) by (auto simp: view_def)
  then show ?thesis
    using assms(1,4,5) unfolding w'(1) life_ok_def own_callbacks_def no_init_def by auto
qed

lemma life_does_ok:
  assumes "life_does send connect ev w = Ok (Some w')" and ok: "life_ok w" and "harmless ev"
    and max: "s_unique_msg_id (lib w) \<noteq> -1"
  shows "life_ok w'"
proof (cases ev)
  case (Ev_section t)
  then obtain x x' c' where "activities w t = Some x" "\<not> finished x" "activity_section send connect x (lib w) = Ok (x', c')"
    "w' = w\<lparr>lib := c', activities := (activities w)(t \<mapsto> x'), receiving := receiving w \<or> connected_now x',
       awaiting := awaiting_next x x' (awaiting w)\<rparr>"
    using assms(1) by (auto simp: outcome_simps split: option.splits if_splits)
  with section_keeps_ok [OF ok max] show ?thesis by blast
next
  case Ev_ind_section
  then obtain pc c' where "ind_section (indication w) (lib w) = Ok (pc, c')" "w' = w\<lparr>lib := c', indication := pc\<rparr>"
    using assms(1) by (auto simp: outcome_simps split: if_splits)
  with context_ok [of w c'] ind_keeps [of "indication w" "lib w" pc c'] ok show ?thesis
    by (simp add: life_ok_def view_def own_callbacks_def no_init_def)
next
  case (Ev_response m)
  then obtain r c' where "unique_id m \<in> dom (awaiting w)" "handle_receive_rsp all_locks m (lib w) = Ok (r, c')"
    "w' = w\<lparr>lib := c', awaiting := (awaiting w)(unique_id m := None)\<rparr>"
    using assms(1) by (auto simp: outcome_simps split: if_splits)
  with answer_inv [of "view w" m r c'] ok show ?thesis
    by (auto simp: life_ok_def view_def own_callbacks_def no_init_def)
next
  case (Ev_indication m)
  then have "w' = w\<lparr>indication := Id_test m\<rparr>" using assms(1) by (auto split: if_splits)
  with ok show ?thesis by (simp add: life_ok_def view_def own_callbacks_def no_init_def)
next
  case (Ev_command t j)
  with assms(1,3) begin_keeps_ok [OF ok, of t "Command j G_init" w'] show ?thesis by simp
next
  case (Ev_release t)
  with assms(1,3) begin_keeps_ok [OF ok, of t "Release Rl_test" w'] show ?thesis by simp
qed (use assms(3) in auto)

text \<open>The counter, at most one id per event.\<close>

lemma job_counter:
  assumes "job_section send j pc c = Ok (pc', c')"
  shows "s_unique_msg_id c' \<in> {s_unique_msg_id c, s_unique_msg_id c + 1}"
proof (cases pc)
  case (G_work p)
  with assms show ?thesis
    by (cases p) (auto simp: acquire_free_op_slot_def write_slot_def outcome_simps split: option.splits)
qed (use assms in \<open>auto split: if_splits\<close>)

lemma init_counter:
  assumes "init_section connect x pc c = (pc', c')"
  shows "s_unique_msg_id c' = s_unique_msg_id c"
  using assms by (cases pc) (auto simp: clear_context_def Let_def split: if_splits prod.splits)

lemma section_counter:
  assumes "activity_section send connect x c = Ok (x', c')"
  shows "s_unique_msg_id c' \<in> {s_unique_msg_id c, s_unique_msg_id c + 1}"
proof (cases x)
  case (Command j pc)
  with assms job_counter show ?thesis by (fastforce simp: outcome_simps simp del: job_section.simps)
next
  case (Release pc)
  obtain pc' c1 where "release_section pc c = (pc', c1)" by (cases "release_section pc c")
  with assms release_keeps [OF this] Release show ?thesis by auto
next
  case (Init y pc)
  obtain pc' c1 where "init_section connect y pc c = (pc', c1)" by (cases "init_section connect y pc c")
  with assms init_counter [OF this] Init show ?thesis by auto
qed

lemma life_counter:
  assumes "life_does send connect ev w = Ok (Some w')"
  shows "s_unique_msg_id (lib w') \<in> {s_unique_msg_id (lib w), s_unique_msg_id (lib w) + 1}"
proof (cases ev)
  case (Ev_section t)
  with assms section_counter show ?thesis
    by (fastforce simp: outcome_simps split: option.splits if_splits)
next
  case Ev_ind_section
  with assms ind_keeps [of "indication w" "lib w"] show ?thesis by (auto simp: outcome_simps split: if_splits)
next
  case (Ev_response m)
  with assms response_table [of all_locks m "lib w"] show ?thesis by (auto simp: outcome_simps split: if_splits)
qed (use assms in \<open>auto simp: begin_activity_def split: if_splits\<close>)

lemma life_exec_ok:
  assumes "life_exec send connect evs w = Ok (Some w')" and "life_ok w" and "\<forall>ev \<in> set evs. harmless ev"
    and "unat (s_unique_msg_id (lib w)) + length evs < 2 ^ 32"
  shows "life_ok w'"
  using assms
proof (induction evs arbitrary: w)
  case (Cons ev evs)
  obtain w1 where w1: "life_does send connect ev w = Ok (Some w1)" "life_exec send connect evs w1 = Ok (Some w')"
    using life_exec_Cons [OF Cons.prems(1)] .
  have "unat (- 1 :: u32) = 2 ^ 32 - 1" by (simp add: unsigned_minus_1_eq_mask mask_eq_exp_minus_1)
  with Cons.prems(4) have ne: "s_unique_msg_id (lib w) \<noteq> -1" by auto
  have "unat (s_unique_msg_id (lib w) + 1) = Suc (unat (s_unique_msg_id (lib w)))"
    using unatSuc [of "s_unique_msg_id (lib w)"] ne by (metis add.commute eq_neg_iff_add_eq_0)
  then have "unat (s_unique_msg_id (lib w1)) + length evs < 2 ^ 32"
    using life_counter [OF w1(1)] Cons.prems(4) by auto
  moreover have "life_ok w1" using life_does_ok [OF w1(1) Cons.prems(2) _ ne] Cons.prems(3) by simp
  ultimately show ?case using Cons.IH [OF w1(2)] Cons.prems(3) by simp
qed simp

lemma life_start_ok:
  assumes "client_inv c"
  shows "life_ok (life_start up c)"
  using start_inv [OF assms]
  by (simp add: life_ok_def own_callbacks_def no_init_def view_def life_start_def start_world_def)

end
