(* ===== verification/Lifetime_Properties.thy ===== *)
theory Lifetime_Properties
  imports Client_Lifetime Thread_Properties
begin

text \<open>
  Release and initialisation beside commands and the receive thread: what a release leaves alone, what it
  ends, and the races of the context, which is written and read under no lock.
\<close>

section \<open>In a row\<close>


section \<open>What a release leaves alone\<close>

lemma life_start_simps [simp]: "lib (life_start up c) = c" "no_init (life_start up c)"
  by (simp_all add: life_start_def no_init_def)

lemma job_context:
  assumes "job_section send j pc c = Ok (pc', c')"
  shows "handle c' = handle c \<and> initialized c' = initialized c \<and> ind_cb c' = ind_cb c"
proof (cases pc)
  case (G_work p)
  obtain p' where p': "call_section send (job_args j) p c = Ok (p', c')"
    using assms G_work by (auto simp: outcome_simps simp del: call_section.simps)
  then show ?thesis
    by (cases p) (auto simp: acquire_free_op_slot_def write_slot_def outcome_simps split: option.splits)
qed (use assms in \<open>auto split: if_splits\<close>)

lemma response_context:
  assumes "handle_receive_rsp l m c = Ok (r, c')"
  shows "handle c' = handle c \<and> initialized c' = initialized c \<and> ind_cb c' = ind_cb c"
  using assms
  by (auto simp: handle_receive_rsp_def invoke_cb_def async_cb_def outcome_simps
      split: if_splits option.splits uril_client_async_cb.splits client_ptr.splits)

text \<open>What an event without initialisation does to the context.\<close>

lemma does_context:
  assumes "life_does send connect ev w = Ok (Some w')" and "no_init w" and "\<forall>t y. ev \<noteq> Ev_init t y"
  shows "handle (lib w') = handle (lib w) \<and> (initialized (lib w) = 0 \<longrightarrow> initialized (lib w') = 0) \<and> no_init w'"
proof (cases ev)
  case (Ev_section t)
  then obtain x x' c' where x: "activities w t = Some x" "\<not> finished x" "activity_section send connect x (lib w) = Ok (x', c')"
    "lib w' = c'" "activities w' = (activities w)(t \<mapsto> x')"
    using assms(1) by (auto simp: outcome_simps split: option.splits if_splits)
  have "\<not> (\<exists>y pc. x = Init y pc)" using init_over [OF assms(2) x(1,2)] by blast
  then have "no_init w'"
    using assms(2) x(5) activity_same [OF x(3)] by (cases x) (auto simp: no_init_def)
  moreover have "handle c' = handle (lib w) \<and> (initialized (lib w) = 0 \<longrightarrow> initialized c' = 0)"
  proof (cases x)
    case (Command j pc)
    then obtain pc' where "job_section send j pc (lib w) = Ok (pc', c')"
      using x(3) by (auto simp: outcome_simps simp del: job_section.simps)
    from job_context [OF this] show ?thesis by simp
  next
    case (Release pc)
    obtain pc' c1 where "release_section pc (lib w) = (pc', c1)" by (cases "release_section pc (lib w)")
    with x(3) release_keeps [OF this] Release show ?thesis by auto
  qed (use \<open>\<not> (\<exists>y pc. x = Init y pc)\<close> in auto)
  ultimately show ?thesis using x(4) by simp
next
  case Ev_ind_section
  then obtain pc c' where "ind_section (indication w) (lib w) = Ok (pc, c')" "w' = w\<lparr>lib := c', indication := pc\<rparr>"
    using assms(1) by (auto simp: outcome_simps split: if_splits)
  with ind_keeps [OF this(1)] assms(2) show ?thesis by (simp add: no_init_def)
next
  case (Ev_response m)
  then obtain r c' where "handle_receive_rsp all_locks m (lib w) = Ok (r, c')"
    "w' = w\<lparr>lib := c', awaiting := (awaiting w)(unique_id m := None)\<rparr>"
    using assms(1) by (auto simp: outcome_simps split: if_splits)
  with response_context [OF this(1)] assms(2) show ?thesis by (simp add: no_init_def)
next
  case (Ev_indication m)
  then have "w' = w\<lparr>indication := Id_test m\<rparr>" using assms(1) by (auto split: if_splits)
  with assms(2) show ?thesis by (simp add: no_init_def)
qed (use assms in \<open>auto simp: begin_activity_def no_init_def split: if_splits\<close>)

lemma run_context:
  assumes "life_exec send connect evs w = Ok (Some w')" and "no_init w" and "\<forall>ev \<in> set evs. \<forall>t y. ev \<noteq> Ev_init t y"
  shows "no_init w' \<and> handle (lib w') = handle (lib w)"
  using assms(1)
proof (induction rule: life_exec_induct)
  case (step ev w1 w2)
  with does_context [of send connect ev w1 w2] assms(3) show ?case by simp
qed (use assms(2) in simp)

text \<open>
  C13: A release takes nothing from the commands that are under way: however commands with callbacks of their own, releases,
  indications and responses are interleaved, the response to a command that was sent calls that command's
  callback, once, with its data and the handle of the session, and frees a slot no other command is working on, also after the release.
\<close>

lemma release_keeps_commands:
  assumes "client_inv c" and "life_exec send connect evs (life_start True c) = Ok (Some w)"
    and "\<forall>ev \<in> set evs. harmless ev" and "unat (s_unique_msg_id c) + length evs < 2 ^ 32"
    and "awaiting w (unique_id m) = Some a" and "arg_cb a = Some (Cb_user n)"
  shows "\<exists>c' i. handle_receive_rsp all_locks m (lib w) = Ok (0, c')
    \<and> user_calls c' = user_calls (lib w) @ [Resp_call n (handle c) (sim_id m) (msg_id m) (payload m) (arg_data a)]
    \<and> pending_ops c' = (pending_ops (lib w))[i := (pending_ops (lib w) ! i)\<lparr>busy := 0\<rparr>]
    \<and> (\<forall>t j pc. activities w t = Some (Command j (G_work pc)) \<longrightarrow> slot_of pc \<noteq> Some i)"
proof -
  have "life_ok w" using life_exec_ok [OF assms(2) life_start_ok [OF assms(1)] assms(3)] assms(4) by simp
  then have inv: "cmd_inv (view w)" by (simp add: life_ok_def)
  have h: "handle (lib w) = handle c" using run_context [OF assms(2)] assms(3) by force
  have "unanswered (view w) (unique_id m) = Some a" "cmd_callback a (shared (view w)) = Some (Cb_user n)"
    using assms(5,6) by (simp_all add: cmd_callback_def)
  from answer_calls_back [OF inv this] show ?thesis by (simp add: h) blast
qed

definition sample_job :: job where
  "sample_job = \<lparr>job_hndl = 1, job_null = False, job_args = sample_args\<rparr>"

definition sample_life :: "connect_env life_event list \<Rightarrow> (service_connector_t, connect_env) life_world option outcome" where
  "sample_life evs = life_exec (send_routine (\<lambda>s. True)) connect_routine evs (life_start True sample_client)"

text \<open>A command is sent and then the session released; the response is still to come.\<close>

definition released_early :: "connect_env life_event list" where
  "released_early = [Ev_command 0 sample_job] @ replicate 9 (Ev_section 0) @ [Ev_release 1] @ replicate 4 (Ev_section 1)"

lemma sample_life_case:
  "(case sample_life evs of Ok (Some w) \<Rightarrow> P w | _ \<Rightarrow> False) \<Longrightarrow>
   \<exists>w. life_exec (send_routine (\<lambda>s. True)) connect_routine evs (life_start True sample_client) = Ok (Some w) \<and> P w"
  by (auto simp: sample_life_def split: outcome.splits option.splits)

lemma released_early_run:
  "\<exists>w. life_exec (send_routine (\<lambda>s. True)) connect_routine released_early (life_start True sample_client) = Ok (Some w)
     \<and> awaiting w 1 = Some sample_args \<and> initialized (lib w) = 0 \<and> user_calls (lib w) = []"
  by (rule sample_life_case) code_simp

lemma release_keeps_commands_witness:
  "\<exists>w c'. life_exec (send_routine (\<lambda>s. True)) connect_routine released_early (life_start True sample_client) = Ok (Some w)
     \<and> initialized (lib w) = 0 \<and> handle_receive_rsp all_locks (reply 1) (lib w) = Ok (0, c')
     \<and> user_calls c' = [Resp_call 3 1 0 0x0500 (payload (reply 1)) (Cd_user 8)]"
proof -
  obtain w where w: "life_exec (send_routine (\<lambda>s. True)) connect_routine released_early (life_start True sample_client) = Ok (Some w)"
    "awaiting w 1 = Some sample_args" "initialized (lib w) = 0" "user_calls (lib w) = []"
    using released_early_run by blast
  have "\<forall>ev \<in> set released_early. harmless ev"
    by (simp add: released_early_def sample_job_def sample_args_def)
  moreover have "unat (s_unique_msg_id sample_client) + length released_early < 2 ^ 32"
    by (simp add: released_early_def sample_client_def new_client_def)
  ultimately have "\<exists>c' i. handle_receive_rsp all_locks (reply 1) (lib w) = Ok (0, c')
      \<and> user_calls c' = user_calls (lib w) @ [Resp_call 3 (handle sample_client) (sim_id (reply 1)) (msg_id (reply 1))
           (payload (reply 1)) (arg_data sample_args)]"
    using release_keeps_commands [OF sample_inv w(1), of "reply 1" sample_args 3] w(2)
    by (auto simp: reply_def sample_args_def)
  then show ?thesis using w by (auto simp: reply_def sample_args_def sample_client_def new_client_def)
qed

section \<open>What a release ends\<close>

text \<open>A command that was past its first guard, and on its way, in a world.\<close>

definition under_way :: "('s, 'e) life_world \<Rightarrow> nat \<Rightarrow> job \<Rightarrow> bool" where
  "under_way w t j \<longleftrightarrow>
     (\<exists>pc. activities w t = Some (Command j pc) \<and> pc \<noteq> G_init \<and> (\<forall>r. pc \<noteq> G_work (Returned r)))"

definition after_release :: "('s, 'e) life_world \<Rightarrow> ('s, 'e) life_world \<Rightarrow> bool" where
  "after_release w w1 \<longleftrightarrow>
     initialized (lib w1) = 0 \<and> no_init w1
     \<and> (\<forall>t j pc. activities w1 t = Some (Command j pc) \<longrightarrow>
          under_way w t j \<or> pc = G_init \<or> (\<exists>r. pc = G_work (Returned r) \<and> (r = -1 \<or> activities w t \<noteq> None)))
     \<and> (\<forall>u a. awaiting w1 u = Some a \<longrightarrow> awaiting w u = Some a \<or> (\<exists>t j. under_way w t j \<and> job_args j = a))"

lemma after_release_start:
  assumes "initialized (lib w) = 0" and "no_init w"
  shows "after_release w w"
  unfolding after_release_def under_way_def using assms by auto

lemma after_release_does:
  assumes "life_does send connect ev w1 = Ok (Some w2)" and inv: "after_release w w1" and "\<forall>t y. ev \<noteq> Ev_init t y"
  shows "after_release w w2"
proof -
  have ctx: "initialized (lib w2) = 0" "no_init w2"
    using does_context [OF assms(1) _ assms(3)] inv by (auto simp: after_release_def)
  have old: "under_way w t j \<or> pc = G_init \<or> (\<exists>r. pc = G_work (Returned r) \<and> (r = -1 \<or> activities w t \<noteq> None))"
    if "activities w1 t = Some (Command j pc)" for t j pc
    using inv that unfolding after_release_def by blast
  have sent: "awaiting w u = Some a \<or> (\<exists>t j. under_way w t j \<and> job_args j = a)" if "awaiting w1 u = Some a" for u a
    using inv that unfolding after_release_def by blast
  show ?thesis
  proof (cases ev)
    case (Ev_section t)
    then obtain x x' c' where x: "activities w1 t = Some x" "\<not> finished x" "activity_section send connect x (lib w1) = Ok (x', c')"
      "activities w2 = (activities w1)(t \<mapsto> x')" "awaiting w2 = awaiting_next x x' (awaiting w1)"
      using assms(1) by (auto simp: outcome_simps split: option.splits if_splits)
    have "under_way w t j \<or> pc' = G_work (Returned (-1))" if now: "x' = Command j pc'" for j pc'
    proof -
      obtain pc where pc: "x = Command j pc" using activity_same [OF x(3)] now by (cases x) auto
      then have "under_way w t j \<or> pc = G_init" using old [of t j pc] x(1,2) by auto
      moreover have "pc' = G_work (Returned (-1))" if "pc = G_init"
        using x(3) pc that now inv by (auto simp: after_release_def)
      ultimately show ?thesis by blast
    qed
    then have "under_way w t1 j \<or> pc = G_init \<or> (\<exists>r. pc = G_work (Returned r) \<and> (r = -1 \<or> activities w t1 \<noteq> None))"
      if "activities w2 t1 = Some (Command j pc)" for t1 j pc
      using old [of t1 j pc] x(4) that by (auto split: if_splits)
    moreover have "under_way w t j" if "x = Command j (G_work (At_send u i))" for j u i
      using old [of t j] x(1) that by auto
    then have "awaiting w u = Some a \<or> (\<exists>t j. under_way w t j \<and> job_args j = a)" if "awaiting w2 u = Some a" for u a
      using sent [of u a] x(5) awaiting_next_cases [OF x(3), of "awaiting w1"] that by (auto split: if_splits)
    ultimately show ?thesis using ctx unfolding after_release_def by blast
  next
    case (Ev_response m)
    then have "activities w2 = activities w1 \<and> (\<forall>u a. awaiting w2 u = Some a \<longrightarrow> awaiting w1 u = Some a)"
      using assms(1) by (auto simp: outcome_simps split: if_splits)
    with ctx old sent show ?thesis unfolding after_release_def by auto
  next
    case Ev_ind_section
    then have "activities w2 = activities w1 \<and> awaiting w2 = awaiting w1"
      using assms(1) by (auto simp: outcome_simps split: if_splits)
    with ctx old sent show ?thesis unfolding after_release_def by auto
  next
    case (Ev_indication m)
    then have "activities w2 = activities w1 \<and> awaiting w2 = awaiting w1"
      using assms(1) by (auto split: if_splits)
    with ctx old sent show ?thesis unfolding after_release_def by auto
  next
    case (Ev_command t j)
    then have "activities w2 = (activities w1)(t \<mapsto> Command j G_init) \<and> awaiting w2 = awaiting w1"
      using assms(1) by (auto simp: begin_activity_def split: if_splits)
    with ctx old sent show ?thesis unfolding after_release_def by (auto split: if_splits)
  next
    case (Ev_release t)
    then have "activities w2 = (activities w1)(t \<mapsto> Release Rl_test) \<and> awaiting w2 = awaiting w1"
      using assms(1) by (auto simp: begin_activity_def split: if_splits)
    with ctx old sent show ?thesis unfolding after_release_def by (auto split: if_splits)
  qed (use assms(3) in auto)
qed

text \<open>
  C14: After a release nothing new goes out until the library is initialised again: a command that begins later can only
  return -1, the flag stays cleared, and what the service is sent from then on comes from commands that were past
  their first guard when the flag was cleared.
\<close>

lemma released_refuses:
  assumes "life_exec send connect evs w = Ok (Some w')" and "initialized (lib w) = 0" and "no_init w"
    and "\<forall>ev \<in> set evs. \<forall>t y. ev \<noteq> Ev_init t y"
  shows "initialized (lib w') = 0
    \<and> (\<forall>t j pc. activities w t = None \<and> activities w' t = Some (Command j pc) \<longrightarrow> pc = G_init \<or> pc = G_work (Returned (-1)))
    \<and> (\<forall>u a. awaiting w' u = Some a \<longrightarrow> awaiting w u = Some a
         \<or> (\<exists>t j pc. activities w t = Some (Command j pc) \<and> job_args j = a \<and> pc \<noteq> G_init \<and> (\<forall>r. pc \<noteq> G_work (Returned r))))"
proof -
  have "after_release w w'"
    using assms(1)
  proof (induction rule: life_exec_induct)
    case start
    show ?case using after_release_start [OF assms(2,3)] .
  next
    case (step ev w1 w2)
    then show ?case using after_release_does assms(4) by blast
  qed
  then have a: "initialized (lib w') = 0"
    and b: "\<And>t j pc. activities w' t = Some (Command j pc) \<Longrightarrow>
      under_way w t j \<or> pc = G_init \<or> (\<exists>r. pc = G_work (Returned r) \<and> (r = -1 \<or> activities w t \<noteq> None))"
    and d: "\<And>u a. awaiting w' u = Some a \<Longrightarrow> awaiting w u = Some a \<or> (\<exists>t j. under_way w t j \<and> job_args j = a)"
    unfolding after_release_def by blast+
  show ?thesis
  proof (intro conjI allI impI)
    show "pc = G_init \<or> pc = G_work (Returned (-1))"
      if "activities w t = None \<and> activities w' t = Some (Command j pc)" for t j pc
      using b [of t j pc] that by (auto simp: under_way_def)
    show "awaiting w u = Some a
        \<or> (\<exists>t j pc. activities w t = Some (Command j pc) \<and> job_args j = a \<and> pc \<noteq> G_init \<and> (\<forall>r. pc \<noteq> G_work (Returned r)))"
      if "awaiting w' u = Some a" for u a
      using d [OF that] unfolding under_way_def by blast
  qed (rule a)
qed

text \<open>The first command has passed its guards when the session is released, the second comes too late.\<close>

definition released_between :: "connect_env life_event list" where
  "released_between = [Ev_command 0 sample_job, Ev_section 0, Ev_section 0, Ev_release 1] @ replicate 4 (Ev_section 1)"

definition after_it :: "connect_env life_event list" where
  "after_it = replicate 7 (Ev_section 0) @ [Ev_command 2 sample_job, Ev_section 2]"

lemma released_between_run:
  "\<exists>w. life_exec (send_routine (\<lambda>s. True)) connect_routine released_between (life_start True sample_client) = Ok (Some w)
     \<and> (initialized (lib w) = 0 \<and> awaiting w 1 = None
       \<and> (case life_exec (send_routine (\<lambda>s. True)) connect_routine after_it w of
            Ok (Some w') \<Rightarrow> awaiting w' 1 = Some sample_args
          | _ \<Rightarrow> False))"
  by (rule sample_life_case) code_simp

lemma released_refuses_witness:
  "\<exists>w w'. life_exec (send_routine (\<lambda>s. True)) connect_routine released_between (life_start True sample_client) = Ok (Some w)
     \<and> life_exec (send_routine (\<lambda>s. True)) connect_routine after_it w = Ok (Some w')
     \<and> initialized (lib w') = 0 \<and> awaiting w' 1 = Some sample_args
     \<and> (\<exists>t j pc. activities w t = Some (Command j pc) \<and> job_args j = sample_args \<and> pc \<noteq> G_init)"
proof -
  obtain w w' where w: "life_exec (send_routine (\<lambda>s. True)) connect_routine released_between (life_start True sample_client) = Ok (Some w)"
    "initialized (lib w) = 0" "awaiting w 1 = None" "life_exec (send_routine (\<lambda>s. True)) connect_routine after_it w = Ok (Some w')"
    "awaiting w' 1 = Some sample_args"
    using released_between_run by (fastforce split: outcome.split_asm option.split_asm)
  have no: "\<forall>ev \<in> set released_between. \<forall>t y. ev \<noteq> Ev_init t y" "\<forall>ev \<in> set after_it. \<forall>t y. ev \<noteq> Ev_init t y"
    by (simp_all add: released_between_def after_it_def)
  have "no_init w" using run_context [OF w(1) life_start_simps(2) no(1)] ..
  from released_refuses [OF w(4,2) this no(2)] w(3,5)
  have "initialized (lib w') = 0 \<and> (\<exists>t j pc. activities w t = Some (Command j pc) \<and> job_args j = sample_args \<and> pc \<noteq> G_init)"
    by fastforce
  with w show ?thesis by blast
qed

section \<open>The races of a release\<close>

text \<open>The callback of indications goes between the look of the receive thread and its call.\<close>

definition null_called :: "uril_protocol_msg_t \<Rightarrow> 'e life_event list" where
  "null_called m = [Ev_indication m, Ev_ind_section, Ev_release 1, Ev_section 1, Ev_section 1, Ev_ind_section]"

text \<open>A command without a callback has passed its guards and has its slot when the default one goes.\<close>

definition default_gone :: "job \<Rightarrow> 'e life_event list" where
  "default_gone j = [Ev_command 0 j] @ replicate 5 (Ev_section 0) @ [Ev_release 1] @ replicate 4 (Ev_section 1)
     @ replicate 4 (Ev_section 0)"

lemma null_called_run:
  assumes "initialized c \<noteq> 0" and "ind_cb c = Some n"
  shows "life_exec send connect (null_called m) (life_start True c) = Fault Null_deref"
  using assms by (simp add: null_called_def life_start_def begin_activity_def connected_now_def awaiting_next_def)

lemma default_gone_run:
  assumes "initialized c \<noteq> 0" and "find_slot (\<lambda>x. busy x = 0) (pending_ops c) 0 = Some i"
    and "job_hndl j = handle c" "\<not> job_null j" "length (arg_req (job_args j)) \<le> MAX_URIL_PAYLOAD_SIZE" "arg_cb (job_args j) = None"
    and "send (cmd_msg (job_args j) (s_unique_msg_id c + 1)) (link c) = Ok (0, s)"
  shows "\<exists>w. life_exec send connect (default_gone j) (life_start True c) = Ok (Some w)
    \<and> activities w 0 = Some (Command j (G_work (Returned 0)))
    \<and> s_unique_msg_id (lib w) = s_unique_msg_id c + 1 \<and> user_calls (lib w) = user_calls c
    \<and> pending_ops (lib w) = (pending_ops c)[i := slot_for (pending_ops c ! i) None (arg_data (job_args j)) (s_unique_msg_id c + 1)]"
proof -
  have "i < length (pending_ops c)" using assms(2) by (simp add: find_slot_0_Some)
  with assms show ?thesis
    by (simp add: default_gone_def eval_nat_numeral life_start_def begin_activity_def connected_now_def awaiting_next_def
        acquire_free_op_slot_def write_slot_def cmd_callback_def slot_for_def not_less)
qed

lemma default_gone_response:
  assumes "client_inv c" and "s_unique_msg_id c \<noteq> -1" and "i < length (pending_ops c)"
    and "pending_ops c1 = (pending_ops c)[i := slot_for (pending_ops c ! i) None cd (s_unique_msg_id c + 1)]"
    and "s_unique_msg_id c1 = s_unique_msg_id c + 1" and "unique_id m = s_unique_msg_id c + 1"
  shows "\<exists>c'. handle_receive_rsp all_locks m c1 = Ok (-1, c') \<and> user_calls c' = user_calls c1"
proof -
  have less: "s_unique_msg_id c < s_unique_msg_id c + 1" using assms(2) by (rule less_add_one)
  then have "client_inv c1"
    using ops_inv_new [of "pending_ops c" "s_unique_msg_id c" "s_unique_msg_id c + 1", where i = i
        and x = "(pending_ops c ! i)\<lparr>busy := 1\<rparr>" and f = None and cd = cd]
      assms(1,4,5) by (simp add: client_inv_def slot_for_def)
  moreover have "s_unique_msg_id c + 1 \<noteq> 0" using less by auto
  ultimately have "lookup_pending_op (unique_id m) c1 = Some i"
    using lookup_unique [of c1 i "unique_id m"] assms(3,4,6) by (simp add: slot_for_def)
  then show ?thesis using assms(3,4) by (simp add: handle_receive_rsp_def all_locks_def slot_for_def)
qed

definition ind_cleared :: "('s, 'e) life_world \<Rightarrow> bool" where
  "ind_cleared w \<longleftrightarrow> (\<exists>t pc. activities w t = Some (Release pc) \<and> pc \<in> {Rl_default, Rl_flag, Rl_over 0})"

definition ind_safe :: "('s, 'e) life_world \<Rightarrow> bool" where
  "ind_safe w \<longleftrightarrow> no_init w \<and>
     ((\<exists>m. indication w = Id_call m) \<and> ind_cb (lib w) = None \<longrightarrow> ind_cleared w)"

lemma ind_cleared_keeps:
  assumes "ind_cleared w" and "\<And>t p. activities w t = Some (Release p) \<Longrightarrow> p \<noteq> Rl_test \<Longrightarrow> activities w' t = Some (Release p)"
  shows "ind_cleared w'"
  using assms unfolding ind_cleared_def by blast

lemma ind_safe_does:
  assumes "life_does send connect ev w = Ok (Some w')" and safe: "ind_safe w" and "\<forall>t y. ev \<noteq> Ev_init t y"
  shows "ind_safe w'"
proof -
  have no: "no_init w" "no_init w'" using does_context [OF assms(1) _ assms(3)] safe by (auto simp: ind_safe_def)
  have old: "ind_cleared w" if "indication w = Id_call m" "ind_cb (lib w) = None" for m
    using safe that unfolding ind_safe_def by blast
  show ?thesis
  proof (cases ev)
    case (Ev_section t)
    then obtain x x' c' where x: "activities w t = Some x" "\<not> finished x" "activity_section send connect x (lib w) = Ok (x', c')"
      "lib w' = c'" "activities w' = (activities w)(t \<mapsto> x')" "indication w' = indication w"
      using assms(1) by (auto simp: outcome_simps split: option.splits if_splits)
    show ?thesis
    proof (cases x)
      case (Command j pc)
      then obtain pc' where pc': "job_section send j pc (lib w) = Ok (pc', c')" "x' = Command j pc'"
        using x(3) by (auto simp: outcome_simps simp del: job_section.simps)
      have "ind_cleared w'" if "ind_cleared w"
        by (rule ind_cleared_keeps [OF that]) (use x(1,5) Command in auto)
      then show ?thesis using job_context [OF pc'(1)] old no(2) x(4,6) by (auto simp: ind_safe_def)
    next
      case (Release pc)
      obtain pc' where pc': "release_section pc (lib w) = (pc', c')" "x' = Release pc'"
        using x(3) Release by (cases "release_section pc (lib w)") auto
      have here: "pc' \<in> {Rl_default, Rl_flag, Rl_over 0}" if "pc \<noteq> Rl_test"
        using pc' that x(2) Release by (cases pc) auto
      show ?thesis
      proof (cases "pc = Rl_test")
        case False
        with here x(5) pc'(2) have "ind_cleared w'" unfolding ind_cleared_def by (intro exI [of _ t]) simp
        with no(2) show ?thesis by (simp add: ind_safe_def)
      next
        case True
        then have "c' = lib w" using pc'(1) by simp
        moreover have "ind_cleared w'" if "ind_cleared w"
          by (rule ind_cleared_keeps [OF that]) (use x(1,5) Release True in auto)
        ultimately show ?thesis using old no(2) x(4,6) by (auto simp: ind_safe_def)
      qed
    next
      case (Init y pc)
      then show ?thesis using init_over [OF no(1) x(1,2)] by simp
    qed
  next
    case Ev_ind_section
    then obtain pc c' where "ind_section (indication w) (lib w) = Ok (pc, c')" "w' = w\<lparr>lib := c', indication := pc\<rparr>"
      using assms(1) by (auto simp: outcome_simps split: if_splits)
    then show ?thesis using no(2) by (cases "indication w") (auto simp: ind_safe_def split: option.splits if_splits)
  next
    case (Ev_response m)
    then obtain r c' where "handle_receive_rsp all_locks m (lib w) = Ok (r, c')" "indication w = Id_idle"
      "w' = w\<lparr>lib := c', awaiting := (awaiting w)(unique_id m := None)\<rparr>"
      using assms(1) by (auto simp: outcome_simps split: if_splits)
    then show ?thesis using no(2) by (simp add: ind_safe_def)
  next
    case (Ev_indication m)
    then have "w' = w\<lparr>indication := Id_test m\<rparr>" using assms(1) by (auto split: if_splits)
    then show ?thesis using no(2) by (simp add: ind_safe_def)
  next
    case (Ev_command t j)
    then have w': "activities w t = None" "w' = w\<lparr>activities := (activities w)(t \<mapsto> Command j G_init)\<rparr>"
      using assms(1) by (auto simp: begin_activity_def split: if_splits)
    have "ind_cleared w'" if "ind_cleared w"
      by (rule ind_cleared_keeps [OF that]) (use w' in auto)
    then show ?thesis using old no(2) w'(2) by (auto simp: ind_safe_def)
  next
    case (Ev_release t)
    then have w': "activities w t = None" "w' = w\<lparr>activities := (activities w)(t \<mapsto> Release Rl_test)\<rparr>"
      using assms(1) by (auto simp: begin_activity_def split: if_splits)
    have "ind_cleared w'" if "ind_cleared w"
      by (rule ind_cleared_keeps [OF that]) (use w' in auto)
    then show ?thesis using old no(2) w'(2) by (auto simp: ind_safe_def)
  qed (use assms(3) in auto)
qed

lemma ind_fault:
  assumes "life_exec send connect evs (life_start up c) = Ok (Some w)" and "\<forall>ev \<in> set evs. \<forall>t y. ev \<noteq> Ev_init t y"
    and "life_does send connect Ev_ind_section w = Fault e"
  shows "e = Null_deref \<and> (\<exists>t pc. activities w t = Some (Release pc) \<and> pc \<in> {Rl_default, Rl_flag, Rl_over 0})"
proof -
  have "ind_safe w"
    using assms(1)
  proof (induction rule: life_exec_induct)
    case start
    show ?case by (simp add: ind_safe_def) (simp add: life_start_def)
  next
    case (step ev w1 w2)
    then show ?case using ind_safe_does assms(2) by blast
  qed
  moreover have "\<exists>m. indication w = Id_call m \<and> ind_cb (lib w) = None \<and> e = Null_deref"
    using assms(3) by (cases "indication w") (auto simp: outcome_simps split: if_splits option.splits)
  ultimately show ?thesis unfolding ind_safe_def ind_cleared_def by blast
qed

text \<open>
  C37: A release races with what is under way, because nothing locks the context.  The receive thread tests \<open>ind_cb\<close> and
  reads it again for the call: a release in between makes it call null; and that is the only fault the handler of an indication has,
  it takes a release that has cleared the callback.  A command without a callback reads the default one when it
  fills its slot: after a release that is null, the command returns 0, and its response is given to nobody.
\<close>

lemma release_races:
  assumes "client_inv c" and "s_unique_msg_id c \<noteq> -1" and "initialized c \<noteq> 0" and "ind_cb c = Some n"
    and "find_slot (\<lambda>x. busy x = 0) (pending_ops c) 0 = Some i"
    and "job_hndl j = handle c" "\<not> job_null j" "length (arg_req (job_args j)) \<le> MAX_URIL_PAYLOAD_SIZE" "arg_cb (job_args j) = None"
    and "send (cmd_msg (job_args j) (s_unique_msg_id c + 1)) (link c) = Ok (0, s)"
    and "unique_id r = s_unique_msg_id c + 1"
  shows "life_exec send connect (null_called m) (life_start True c) = Fault Null_deref
    \<and> (\<forall>evs w e. life_exec send connect evs (life_start True c) = Ok (Some w)
         \<and> (\<forall>ev \<in> set evs. \<forall>t y. ev \<noteq> Ev_init t y) \<and> life_does send connect Ev_ind_section w = Fault e
         \<longrightarrow> e = Null_deref \<and> (\<exists>t pc. activities w t = Some (Release pc) \<and> pc \<in> {Rl_default, Rl_flag, Rl_over 0}))
    \<and> (\<exists>w c'. life_exec send connect (default_gone j) (life_start True c) = Ok (Some w)
         \<and> activities w 0 = Some (Command j (G_work (Returned 0)))
         \<and> handle_receive_rsp all_locks r (lib w) = Ok (-1, c') \<and> user_calls c' = user_calls c)"
proof (intro conjI)
  show "life_exec send connect (null_called m) (life_start True c) = Fault Null_deref"
    using null_called_run [OF assms(3,4)] .
  show "\<forall>evs w e. life_exec send connect evs (life_start True c) = Ok (Some w)
         \<and> (\<forall>ev \<in> set evs. \<forall>t y. ev \<noteq> Ev_init t y) \<and> life_does send connect Ev_ind_section w = Fault e
         \<longrightarrow> e = Null_deref \<and> (\<exists>t pc. activities w t = Some (Release pc) \<and> pc \<in> {Rl_default, Rl_flag, Rl_over 0})"
    by (intro allI impI) (elim conjE, rule ind_fault)
  obtain w where w: "life_exec send connect (default_gone j) (life_start True c) = Ok (Some w)"
    "activities w 0 = Some (Command j (G_work (Returned 0)))"
    "s_unique_msg_id (lib w) = s_unique_msg_id c + 1" "user_calls (lib w) = user_calls c"
    "pending_ops (lib w) = (pending_ops c)[i := slot_for (pending_ops c ! i) None (arg_data (job_args j)) (s_unique_msg_id c + 1)]"
    using default_gone_run [where send = send and connect = connect, OF assms(3,5-10)] by blast
  have "i < length (pending_ops c)" using assms(5) by (simp add: find_slot_0_Some)
  then obtain c' where "handle_receive_rsp all_locks r (lib w) = Ok (-1, c')" "user_calls c' = user_calls (lib w)"
    using default_gone_response [OF assms(1,2) _ w(5,3) assms(11)] by blast
  then show "\<exists>w c'. life_exec send connect (default_gone j) (life_start True c) = Ok (Some w)
       \<and> activities w 0 = Some (Command j (G_work (Returned 0)))
       \<and> handle_receive_rsp all_locks r (lib w) = Ok (-1, c') \<and> user_calls c' = user_calls c"
    using w(1,2,4) by (intro exI [of _ w] exI [of _ c']) simp
qed

definition noisy_client :: "service_connector_t client" where
  "noisy_client = sample_client\<lparr>ind_cb := Some 5, default_async_cb := Some (Cb_user 4)\<rparr>"

definition default_job :: job where
  "default_job = sample_job\<lparr>job_args := sample_args\<lparr>arg_cb := None\<rparr>\<rparr>"

lemma release_races_witness:
  "life_exec (send_routine (\<lambda>s. True)) connect_routine (null_called (reply 1)) (life_start True noisy_client) = Fault Null_deref
   \<and> (\<exists>w c'. life_exec (send_routine (\<lambda>s. True)) connect_routine (default_gone default_job) (life_start True noisy_client) = Ok (Some w)
         \<and> handle_receive_rsp all_locks (reply 1) (lib w) = Ok (-1, c') \<and> user_calls c' = [])"
proof -
  have c: "client_inv noisy_client" using sample_inv by (simp add: noisy_client_def client_inv_def)
  have slot: "find_slot (\<lambda>x. busy x = 0) (pending_ops noisy_client) 0 = Some 0"
    by (simp add: noisy_client_def sample_client_def new_client_def URIL_MAX_PENDING_OPS_def eval_nat_numeral zero_op_def)
  obtain s where "send_routine (\<lambda>s. True) (cmd_msg (job_args default_job) (s_unique_msg_id noisy_client + 1)) (link noisy_client) = Ok (0, s)"
    using sample_send by (auto simp: noisy_client_def sample_client_def new_client_def)
  then have "life_exec (send_routine (\<lambda>s. True)) connect_routine (null_called (reply 1)) (life_start True noisy_client) = Fault Null_deref
      \<and> (\<forall>evs w e. life_exec (send_routine (\<lambda>s. True)) connect_routine evs (life_start True noisy_client) = Ok (Some w)
         \<and> (\<forall>ev \<in> set evs. \<forall>t y. ev \<noteq> Ev_init t y) \<and> life_does (send_routine (\<lambda>s. True)) connect_routine Ev_ind_section w = Fault e
         \<longrightarrow> e = Null_deref \<and> (\<exists>t pc. activities w t = Some (Release pc) \<and> pc \<in> {Rl_default, Rl_flag, Rl_over 0}))
      \<and> (\<exists>w c'. life_exec (send_routine (\<lambda>s. True)) connect_routine (default_gone default_job) (life_start True noisy_client) = Ok (Some w)
         \<and> activities w 0 = Some (Command default_job (G_work (Returned 0)))
         \<and> handle_receive_rsp all_locks (reply 1) (lib w) = Ok (-1, c') \<and> user_calls c' = user_calls noisy_client)"
    by (intro release_races [where n = 5 and i = 0] c slot)
      (simp_all add: noisy_client_def default_job_def sample_job_def sample_args_def sample_client_def new_client_def reply_def
        MAX_URIL_PAYLOAD_SIZE_def)
  moreover have "user_calls noisy_client = []" by (simp add: noisy_client_def sample_client_def new_client_def)
  ultimately show ?thesis by auto
qed

section \<open>The races of an initialisation\<close>

text \<open>
  The connect starts the receive thread and the flag is set before the handle is there: an indication that comes in
  between is called back with handle 0, and a command with handle 0 is accepted.
\<close>

definition init_halfway :: "nat \<Rightarrow> 'e init_args \<Rightarrow> 'e life_event list" where
  "init_halfway n x = Ev_init 0 x # replicate n (Ev_section 0)"

lemma early_indication:
  assumes "ia_valid x" "ia_connector x" "ia_ind x = Some n" "connect (ia_envs x 0) s = (0, s')"
  shows "\<exists>w. life_exec send connect (init_halfway 5 x @ [Ev_indication m, Ev_ind_section, Ev_ind_section])
        (life_start False (new_client s)) = Ok (Some w)
    \<and> activities w 0 = Some (Init x It_flag) \<and> user_calls (lib w) = [Ind_call n 0 (sim_id m) (msg_id m)]"
  using assms
  by (simp add: init_halfway_def eval_nat_numeral life_start_def begin_activity_def connected_now_def awaiting_next_def
      clear_context_def new_client_def URIL_CONNECT_ATTEMPTS_COUNT_def)

lemma early_command:
  assumes "ia_valid x" "ia_connector x" "connect (ia_envs x 0) s = (0, s')"
    and "job_hndl j = 0" "\<not> job_null j" "length (arg_req (job_args j)) \<le> MAX_URIL_PAYLOAD_SIZE"
    and "send (cmd_msg (job_args j) 1) s' = Ok (0, s'')"
  shows "\<exists>w. life_exec send connect (init_halfway 6 x @ [Ev_command 1 j] @ replicate 9 (Ev_section 1))
        (life_start False (new_client s)) = Ok (Some w)
    \<and> activities w 0 = Some (Init x It_handle) \<and> activities w 1 = Some (Command j (G_work (Returned 0)))"
proof -
  have slot: "find_slot (\<lambda>x. busy x = 0) (replicate URIL_MAX_PENDING_OPS zero_op) 0 = Some 0"
    by (simp add: find_slot_0_Some URIL_MAX_PENDING_OPS_def zero_op_def)
  from assms show ?thesis
    by (simp add: init_halfway_def eval_nat_numeral life_start_def begin_activity_def connected_now_def awaiting_next_def
        clear_context_def new_client_def URIL_CONNECT_ATTEMPTS_COUNT_def acquire_free_op_slot_def write_slot_def slot not_less)
qed

text \<open>A second initialisation forgets the commands of the first: their responses are given to nobody.\<close>

lemma init_forgets:
  assumes "uril_client_init connect l envs hv co icb dcb c = (0, h, c')" and "unique_id m \<noteq> 0"
  shows "handle_receive_rsp l' m c' = Ok (-1, c')"
proof -
  have "pending_ops c' = replicate URIL_MAX_PENDING_OPS zero_op"
    using assms(1) by (auto simp: uril_client_init_def clear_context_def Let_def split: if_splits prod.splits)
  then have "lookup_pending_op (unique_id m) c' = None"
    using assms(2) by (simp add: lookup_pending_op_def find_slot_None zero_op_def)
  then show ?thesis by (simp add: handle_receive_rsp_def)
qed

end
