(* ===== verification/Spec2Isabelle.thy ===== *)
theory Spec2Isabelle
  imports Answer_Properties System_Properties Sync_Properties Thread_Properties Lock_Properties Wait_Properties
    Receive_Properties Tracker_Properties Callback_Properties Lifetime_Properties
begin

text \<open>
  A model of Unified-RIL: the C client library (\<open>client/\<close>) and the C++ service (\<open>service/\<close>) that
  puts the Android vendor RIL behind one message protocol (\<open>inc/\<close>).

  The program.  A client calls \<open>uril_client_execute_command_async\<close> or \<open>_sync\<close>; the library gives
  the command a unique id and a slot of its table, and sends one message of fixed size over a Unix
  socket.  In the service the pump thread of the connection reads the message and tells the
  observers; the message tracker notes the connection under the unique id and passes the message to the
  request processors, one of which calls a method of the modem adapter.  The Android adapter
  allocates a context, which is the token of the request it sends to the vendor RIL.  The answer
  comes back in a callback with that token; a handler turns it into the payload of a response,
  possibly over several vendor requests; the tracker sends the response to the connection that asked, and
  the receive thread of the client finds the slot by the unique id and calls the command's callback.

  Theories and sources.
    \<open>Uril_Prelude\<close>: machine types, \<open>outcome\<close> (a value, or the way undefined behaviour or an
      assertion is reached), C strings and numbers.
    \<open>Uril_Layout\<close>, \<open>Uril_Enums\<close>, \<open>Uril_Messages\<close>: \<open>inc/uril_*_v01.h\<close>, as offsets and sizes, as
      enumerations with their values and message ids, and as records with their bytes.
    \<open>Uril_Protocol\<close>: \<open>inc/internal/uril_protocol.h\<close>, \<open>client/src/uril_protocol.c\<close>.
    \<open>Osal\<close>, \<open>Service_Connector\<close>, \<open>Uril_Client\<close>: \<open>client/src/osal\<close>,
      \<open>client/src/service_connector\<close>, \<open>client/src/uril_client.c\<close>; \<open>Client_Steps\<close> is the relation of
      the client's steps, \<open>Client_Sync\<close> the stack frames of synchronous commands,
      \<open>Client_Threads\<close> the unlocked sections of commands that run concurrently, \<open>Client_Locks\<close> the
      same lock by lock, \<open>Client_Receive\<close> the receive thread step by step beside them, \<open>Client_Wait\<close>
      the wait of a synchronous command beside its callback, \<open>Client_Lifetime\<close> commands with their guards,
      \<open>uril_client_init\<close>, \<open>uril_client_release\<close> and indications beside each other.
    \<open>Ril_Interface\<close>: what the adapter uses of \<open>telephony/ril.h\<close>, which is not part of the
      repository.  Its numbers and structure sizes are the record \<open>ril_h\<close>, an argument of the
      definitions; \<open>ril_h_ok\<close> says that enumerators are distinct.
    \<open>Ril_Convert\<close>, \<open>Ril_Responses\<close>, \<open>Ril_Adapter\<close>:
      \<open>service/src/modem_adapters/ril/AndroidRilAdapter.cpp\<close>, in the order of the file;
      \<open>Ril_System\<close> and \<open>Ril_Steps\<close> are the adapter with its environment, \<open>Ril_Safety\<close> what
      it does with the processor of its responses, \<open>Ril_Threads\<close> the callback in sections, as several
      threads of the vendor RIL run it, \<open>Ril_Radio\<close> the threads that read the radio mode.
    \<open>Modem_Interface\<close>, \<open>Request_Processors\<close>: \<open>service/inc\<close> and \<open>service/src/processor\<close>.
    \<open>Client_Connector\<close>: \<open>service/src/connection/socks\<close>.
    \<open>Message_Tracker\<close>: \<open>service/src/MessageTracker.cpp\<close>; \<open>Tracker_Threads\<close> has its handlers as
      the sections that the pumps and the threads of the vendor RIL run at the same time.
    \<open>Uril_Service\<close>: configuration, factory, \<open>main\<close>, the pump with all below it, the stub adapter;
      \<open>Service_System\<close> is the running service with its clients and the vendor RIL, as steps.
    \<open>Response_Layout\<close>: reading a payload at the offsets of \<open>inc/*.h\<close>, as a client does.
    \<open>Convert_Properties\<close>, \<open>Ril_Properties\<close>, \<open>Answer_Properties\<close>, \<open>Service_Properties\<close>,
      \<open>System_Properties\<close>, \<open>Client_Properties\<close>, \<open>Sync_Properties\<close>,
      \<open>Thread_Properties\<close>, \<open>Lock_Properties\<close>, \<open>Receive_Properties\<close>, \<open>Wait_Properties\<close>,
      \<open>Tracker_Properties\<close>, \<open>Callback_Properties\<close>, \<open>Lifetime_Properties\<close> and this theory: the properties.

  From fine to coarse.  The client's threads are described at three levels: single steps with the
  lock calls (\<open>Client_Locks\<close>, \<open>Client_Receive\<close>, \<open>Client_Wait\<close>), sections between locks (\<open>Client_Threads\<close>), whole
  functions (\<open>Uril_Client\<close>).  Each level refines the next: a run of the receive thread is a run in which
  a response is one step, a run of the locks is a run of the sections, sections without interruption are
  the function, and the wait step by step returns what the three atomic pieces of \<open>Uril_Client\<close>
  return.  The first two steps are one statement, \<open>receive_thread_atomic\<close>; \<open>Client_Lifetime\<close> runs on the sections.
  The tracker has two levels, \<open>Tracker_Threads\<close> and \<open>Message_Tracker\<close>, and so has the callback
  of the adapter, \<open>Ril_Threads\<close> and \<open>Ril_Adapter\<close>, and the radio mode thread, \<open>Ril_Radio\<close> and \<open>Ril_Adapter\<close>.

  What threads can do to each other.  The locks of the client protect its table, and with a service that
  answers each message once that is enough: commands and responses do not disturb each other, and a release does not
  disturb commands that have callbacks of their own.  The context is under no lock: the
  races of \<open>uril_client_release\<close> and \<open>uril_client_init\<close> are in \<open>Lifetime_Properties\<close>.  In the service the lock of the tracker
  protects its table; the vector of connections, \<open>isCompleted\<close> of a context and the parameters of \<open>getRadioModeV1\<close> are read
  without protection, and the faults that come of it are characterised in \<open>Tracker_Properties\<close> and \<open>Callback_Properties\<close>.

  Interfaces. \<open>modem_adapter\<close> and \<open>request_processor\<close> are the contracts of
  the adapter and of the processors (a refusal has no effect), \<open>response_handler\<close> that of
  the response processor, \<open>client_connections\<close> what the tracker needs of the connections,
  \<open>service_link\<close> what the client needs of its connector, \<open>osal_mutex_ops\<close>
  what it needs of a mutex, \<open>c_enum\<close> an enumeration with distinct values. Each is
  interpreted on the definitions of the component that provides it.

  State.  Objects that the code allocates live in maps from numbers (contexts, connections,
  connector contexts, stack frames), so that use after free is a lookup that fails.  Results of
  system calls, of \<open>malloc\<close>, of locks and of the vendor library are arguments or events.  Padding
  bytes are arguments.  The payload of a response under construction is kept as the structure it is
  cast to; writes past 1024 bytes are faults.

  Bounds.  Unique ids have 32 bits; what is stated of whole runs of the client supposes that they have
  not wrapped.  The connect loop has at most 20 attempts.  Loops are structural or have a
  measure, there is no fuel (\<open>call_sections\<close>, \<open>job_sections\<close>, \<open>init_sections\<close>, \<open>receive_sections\<close>, \<open>radio_sections\<close> and \<open>handler_sections\<close> run a
  given number of sections: a command has six, nine with its guards, an initialisation 27, the receive thread at most 23 steps,
  a radio mode thread four, a handler of the tracker two, or three and one for every connection);
  \<open>pumpLoop\<close> and the receive loop consume the list of results of
  \<open>recv\<close>.

  Not modelled.  Logging; \<open>inc/uril_ecall_v01.h\<close>, which declares nothing; the tests.  Of the pthread
  library the model has what a mutex and a condition promise, not its errors and priorities.  In the client
  concurrent asynchronous commands and the receive thread are interleaved lock by lock, and so are a
  synchronous command and its callback; \<open>uril_client_init\<close>, \<open>_release\<close> and indications are interleaved with the sections
  of commands, the \<open>memset\<close> of the context being one step and a second initialisation not starting a second receive
  thread.  In the service the handlers of the tracker are interleaved at their locks, with the accept loop, the
  callbacks of the adapter at their looks at the context, and the radio mode threads at their reads; a call of the request processors
  is one step, and these three are not interleaved with one another.  The destruction of the adapter, the
  tracker and the connector: \<open>main\<close> never reaches it, it sleeps in an endless loop once it has started.
  The delays (\<open>sleep\<close>, \<open>usleep\<close>).  The data of an unsolicited response, which the code ignores.
\<close>

section \<open>From the client to the modem and back\<close>

text \<open>
  C7: Setting the preferred network end to end: when a client's command has succeeded and the service
  reads the bytes it put on the socket, exactly one request goes to the vendor RIL, with the number of
  the converted preference, under a fresh token whose context carries the command's unique id and
  SIM id, and the tracker remembers the client's connection for it.
\<close>

lemma preference_reaches_modem:
  assumes "uril_client_execute_command_async (send_routine net) l h sid URIL_NW_SET_PREF_REQ_V01
      (Some (le32 (uril_nw_pref_type_t_v01_code e))) cb cd c = Ok (0, c')"
    and "connected (link c)"
    and "objects (mConnector (upper a)) p = Some (accepted_connection s)"
    and "funcs a" and "padding_wf pad"
  shows "\<exists>fd m a1. wire (link c') = wire (link c) @ [(fd, m)]
    \<and> pump_turn H p (Recv_bytes (msg_image pad m)) a = Ok (True, a1)
    \<and> on_requests a1 = on_requests a @
        [\<lparr>vc_request = RIL_REQUEST_SET_PREFERRED_NETWORK_TYPE,
          vc_data = Req_int (pref_code H (nw_pref_to_ril e)) 4, vc_token = next_token a\<rparr>]
    \<and> heap a1 (next_token a)
        = Some (new_context RIL_REQUEST_SET_PREFERRED_NETWORK_TYPE (s_unique_msg_id c') sid)
    \<and> mPendingRequests (upper a1) = (mPendingRequests (upper a))(s_unique_msg_id c' \<mapsto> p)"
proof -
  let ?bs = "le32 (uril_nw_pref_type_t_v01_code e)"
  let ?m = "request_msg sid URIL_NW_SET_PREF_REQ_V01 (s_unique_msg_id c') ?bs"
  obtain fd where fd: "wire (link c') = wire (link c) @ [(fd, ?m)]"
    using async_wire [OF assms(1,2)] by (metis option.inject)
  have wf: "msg_wf ?m" by (rule request_msg_wf) (simp add: MAX_URIL_PAYLOAD_SIZE_def)
  have op: "map_of op_table (msg_id ?m) = Some Op_setNetworkPreferenceV1"
    by (simp add: op_table_def code_simps request_msg_def)
  have "field_at uril_nw_set_pref_req_msg_v01 [Dot ''preferred_nw_mode''] = 0" by code_simp
  then have "rd32 uril_nw_set_pref_req_msg_v01 [Dot ''preferred_nw_mode''] (payload ?m)
      = uril_nw_pref_type_t_v01_code e"
    by (simp add: rd32_def bytes_at_def request_msg_def overlay_def)
  then have call: "android_call H Op_setNetworkPreferenceV1 (payload ?m) (unique_id ?m) (sim_id ?m) a
      = send_request RIL_REQUEST_SET_PREFERRED_NETWORK_TYPE (Req_int (pref_code H (nw_pref_to_ril e)) 4)
          (s_unique_msg_id c') sid a"
    by (simp add: setNetworkPreferenceV1_def urilNwPref_code) (simp add: request_msg_def)
  have "unique_id ?m = s_unique_msg_id c'" by (simp add: request_msg_def)
  with fd call assms(4) show ?thesis
    unfolding pump_turn_accepted [OF assms(3)] received_msg_image [OF wf assms(5)] service_dispatch_table
    by (intro exI [of _ fd] exI [of _ ?m])
      (simp add: op received_msg_image [OF wf assms(5)] send_request_def makeTokenForMessage_def
        sendToVendorRil_def Let_def track_request_def pump_turn_accepted [OF assms(3)]
        service_dispatch_table)
qed

text \<open>A client whose message the service of \<open>two_clients_service\<close> reads from its second connection.\<close>

lemma sample_service:
  "funcs two_clients_service" "next_token two_clients_service = 0"
  "objects (mConnector (upper two_clients_service)) 1 = Some (accepted_connection 11)"
  "mConnector (upper two_clients_service) = two_clients" "on_requests two_clients_service = []"
  by (simp_all add: two_clients_service_def new_adapter_def two_clients_tracker_def track_request_def
      new_tracker_def two_clients_def)

lemma sample_link_up: "connected (link sample_client)"
  using sample_connected by (simp add: sample_client_def new_client_def)

lemma zero_padding_wf: "padding_wf zero_padding"
  by (simp add: padding_wf_def zero_padding_def)

lemma preference_reaches_modem_witness:
  "\<exists>c' m a1. uril_client_execute_command_async (send_routine (\<lambda>s. True)) all_locks 1 2 URIL_NW_SET_PREF_REQ_V01
        (Some (le32 (uril_nw_pref_type_t_v01_code URIL_NW_PREF_TYPE_LTE_ONLY))) None Cd_null sample_client
      = Ok (0, c')
    \<and> pump_turn sample_h 1 (Recv_bytes (msg_image zero_padding m)) two_clients_service = Ok (True, a1)
    \<and> on_requests a1 = [\<lparr>vc_request = RIL_REQUEST_SET_PREFERRED_NETWORK_TYPE,
          vc_data = Req_int (pref_code sample_h (nw_pref_to_ril URIL_NW_PREF_TYPE_LTE_ONLY)) 4,
          vc_token = 0\<rparr>]
    \<and> mPendingRequests (upper a1) 1 = Some 1"
proof -
  obtain c' where c': "uril_client_execute_command_async (send_routine (\<lambda>s. True)) all_locks 1 2
        URIL_NW_SET_PREF_REQ_V01 (Some (le32 (uril_nw_pref_type_t_v01_code URIL_NW_PREF_TYPE_LTE_ONLY)))
        None Cd_null sample_client = Ok (0, c')" "s_unique_msg_id c' = 1"
    using sample_async [where bs = "le32 (uril_nw_pref_type_t_v01_code URIL_NW_PREF_TYPE_LTE_ONLY)"
        and sid = 2 and mid = URIL_NW_SET_PREF_REQ_V01 and cb = None and cd = Cd_null]
    by (auto simp: MAX_URIL_PAYLOAD_SIZE_def)
  from preference_reaches_modem [OF c'(1) sample_link_up sample_service(3,1) zero_padding_wf, of sample_h]
  obtain m a1 where "pump_turn sample_h 1 (Recv_bytes (msg_image zero_padding m)) two_clients_service
      = Ok (True, a1)"
    "on_requests a1 = [\<lparr>vc_request = RIL_REQUEST_SET_PREFERRED_NETWORK_TYPE,
          vc_data = Req_int (pref_code sample_h (nw_pref_to_ril URIL_NW_PREF_TYPE_LTE_ONLY)) 4,
          vc_token = 0\<rparr>]"
    "mPendingRequests (upper a1) 1 = Some 1"
    unfolding sample_service c'(2) by auto
  with c'(1) show ?thesis by blast
qed

text \<open>The service's part: the answer to a client's request, when the vendor RIL has completed it.\<close>

lemma request_served:
  assumes "length bs \<le> MAX_URIL_PAYLOAD_SIZE" and "m = request_msg sid mid uid bs"
    and "objects (mConnector (upper a)) p = Some (accepted_connection s)"
    and "padding_wf pad" and "map_of op_table mid = Some op"
    and "pump_turn H p (Recv_bytes (msg_image pad m)) a = Ok (True, a1)"
    and "next_token a1 \<noteq> next_token a"
    and "handleRilResponse H (tracker_pr net') (Some (next_token a)) e data a1 = Ok (True, a2)"
    and "heap a2 (next_token a) = None"
  obtains r where "is_indication r = 0" and "msg_wf r" and "unique_id r = uid" and "sim_id r = sid"
    and "\<forall>q. delivered_to q (mConnector (upper a2))
           = delivered_to q (mConnector (upper a)) @ (if q = p then [r] else [])"
proof -
  have m: "msg_wf m" "unique_id m = uid" "sim_id m = sid" "msg_id m = mid"
    using request_msg_wf [OF assms(1)] assms(2) by (simp_all add: request_msg_def)
  have "map_of op_table (msg_id m) = Some op" using assms(5) m(4) by simp
  from answer_to_sender [OF assms(3) m(1) assms(4) this assms(6,7,8)] assms(9) m that
  show thesis by auto
qed


lemma sample_screen_request:
  assumes "m = request_msg 2 URIL_NW_SET_SCREEN_REQ_V01 1 bs" and "length bs \<le> MAX_URIL_PAYLOAD_SIZE"
  shows "\<exists>a1 a2. pump_turn sample_h 1 (Recv_bytes (msg_image zero_padding m)) two_clients_service
      = Ok (True, a1) \<and> next_token a1 = 1
    \<and> handleRilResponse sample_h (tracker_pr (\<lambda>s. True)) (Some 0) RIL_E_SUCCESS Data_null a1 = Ok (True, a2)
    \<and> heap a2 0 = None"
proof -
  have wf: "msg_wf m" using request_msg_wf [OF assms(2)] by (simp add: assms(1))
  have op: "map_of op_table (msg_id m) = Some Op_setScreenStateV1"
    by (simp add: op_table_def code_simps assms(1) request_msg_def)
  have "unique_id m = 1" "sim_id m = 2" by (simp_all add: assms(1) request_msg_def)
  then obtain a1 where a1: "pump_turn sample_h 1 (Recv_bytes (msg_image zero_padding m)) two_clients_service
      = Ok (True, a1)"
    "heap a1 0 = Some (new_context RIL_REQUEST_SCREEN_STATE 1 2)" "next_token a1 = 1"
    "mConnector (upper a1) = two_clients" "mPendingRequests (upper a1) 1 = Some 1"
    unfolding pump_turn_accepted [OF sample_service(3)] received_msg_image [OF wf zero_padding_wf]
    unfolding service_dispatch_table op
    by (simp add: setScreenStateV1_def send_request_def Let_def makeTokenForMessage_def
        sendToVendorRil_def sample_service track_request_def)
  moreover obtain a2 where "handleRilResponse sample_h (tracker_pr (\<lambda>s. True)) (Some 0) RIL_E_SUCCESS
      Data_null a1 = Ok (True, a2)" "heap a2 0 = None"
    using a1(2,4,5)
    by (simp add: handleRilResponse_def Let_def with_rsp_def new_context_def
        handleRilSetScreenStateResponseV1_def complete_with_def put_rsp_def fresh_rsp_def
        msg_of_rsp_def tracker_pr_def processResponse_def sendMessageToClient_def two_clients_def)
  ultimately show ?thesis by blast
qed


text \<open>
  C2: A synchronous command comes full circle: the service reads its message and asks the vendor RIL, the answer
  of the vendor RIL completes the request, the response reaches the client on its own connection while
  the caller waits, and the call returns 0 with the payload in the caller's buffer, cut to its length;
  no callback of the user is called for it.
\<close>

lemma sync_command_answered:
  assumes "client_inv c" and "frames_ok c" and "connected (link c)"
    and "sync_start (send_routine net) l env h sid mid req buf c = Ok (Inr f, c1)"
    and "wire (link c1) = wire (link c) @ [(fd, m)]"
    and "client_run (send_routine net) evs c1 c2"
    and "\<forall>ev \<in> set evs. user_event ev \<and> ev \<noteq> Cl_return f \<and> \<not> answers (s_unique_msg_id c1) ev"
    and "unat (s_unique_msg_id c) + length evs + 1 < 2 ^ 32"
    and "objects (mConnector (upper a)) p = Some (accepted_connection s)"
    and "padding_wf pad" and "padding_wf pad'" and "map_of op_table mid = Some op"
    and "pump_turn H p (Recv_bytes (msg_image pad m)) a = Ok (True, a1)"
    and "next_token a1 \<noteq> next_token a"
    and "handleRilResponse H (tracker_pr net') (Some (next_token a)) e data a1 = Ok (True, a2)"
    and "heap a2 (next_token a) = None"
  shows "\<exists>r c3 c4. (\<forall>q. delivered_to q (mConnector (upper a2))
           = delivered_to q (mConnector (upper a)) @ (if q = p then [r] else []))
    \<and> run_upcalls all_locks (receive_routine [Crecv_bytes (msg_image pad' r)]) c2 = Ok c3
    \<and> user_calls c3 = user_calls c2
    \<and> sync_return True 0 f c3 = Ok (0, sync_result buf r, c4)"
proof -
  obtain c0 where c0: "link c0 = link c" and async: "uril_client_execute_command_async (send_routine net) l h
      sid mid req (Some Cb_async_cb) (Cd_frame f) c0 = Ok (0, c1)"
    using sync_start_waits [OF assms(4)] by blast
  have up: "connected (link c0)" using assms(3) c0 by simp
  obtain bs where bs: "length bs \<le> MAX_URIL_PAYLOAD_SIZE" "m = request_msg sid mid (s_unique_msg_id c1) bs"
    using async_wire [OF async up] assms(5) unfolding c0 by (metis append1_eq_conv prod.inject)
  obtain r where r: "is_indication r = 0" "msg_wf r" "unique_id r = s_unique_msg_id c1"
    and d: "\<forall>q. delivered_to q (mConnector (upper a2))
           = delivered_to q (mConnector (upper a)) @ (if q = p then [r] else [])"
    using request_served [OF bs assms(9,10,12-16)] by metis
  obtain c3 w where c3: "handle_receive_rsp all_locks r c2 = Ok (0, c3)" "user_calls c3 = user_calls c2"
    "frames c3 f = Some \<lparr>success = True, condition = True, resp = sync_result buf r,
       resp_len = length buf, waiting_op = w\<rparr>"
    using sync_answered [OF assms(1,2,4,6,7,8) r(3)] .
  have "run_upcalls all_locks (receive_routine [Crecv_bytes (msg_image pad' r)]) c2 = Ok c3"
    using upcall_of_image [OF r(2) assms(11), of all_locks c2] r(1) c3(1)
    by (simp del: run_upcalls.simps receive_routine.simps)
  moreover have "\<exists>c4. sync_return True 0 f c3 = Ok (0, sync_result buf r, c4)"
    using c3(3) by (simp add: sync_return_def Let_def)
  ultimately show ?thesis using d c3(2) by blast
qed

lemma sync_command_answered_witness:
  "\<exists>c1 a1 a2 r c3 c4. sync_start (send_routine (\<lambda>s. True)) all_locks good_sync 1 2 URIL_NW_SET_SCREEN_REQ_V01
        (Some [1]) [7, 7] sample_client = Ok (Inr 0, c1)
    \<and> handleRilResponse sample_h (tracker_pr (\<lambda>s. True)) (Some 0) RIL_E_SUCCESS Data_null a1 = Ok (True, a2)
    \<and> delivered_to 1 (mConnector (upper a2)) = [r]
    \<and> run_upcalls all_locks (receive_routine [Crecv_bytes (msg_image zero_padding r)]) c1 = Ok c3
    \<and> sync_return True 0 0 c3 = Ok (0, sync_result [7, 7] r, c4)"
proof -
  obtain c1 where c1: "sync_start (send_routine (\<lambda>s. True)) all_locks good_sync 1 2 URIL_NW_SET_SCREEN_REQ_V01
        (Some [1]) [7, 7] sample_client = Ok (Inr 0, c1)" "s_unique_msg_id c1 = 1"
    using sample_sync by blast
  obtain c0 where c0: "link c0 = link sample_client" and async: "uril_client_execute_command_async
      (send_routine (\<lambda>s. True)) all_locks 1 2 URIL_NW_SET_SCREEN_REQ_V01 (Some [1]) (Some Cb_async_cb)
      (Cd_frame 0) c0 = Ok (0, c1)"
    using sync_start_waits [OF c1(1)] by blast
  have "connected (link c0)" using sample_link_up c0 by simp
  from async_wire [OF async this] obtain fd where fd: "wire (link c1) = wire (link sample_client)
      @ [(fd, request_msg 2 URIL_NW_SET_SCREEN_REQ_V01 1 [1])]"
    unfolding c1(2) c0 by (metis option.inject)
  have "length [1 :: u8] \<le> MAX_URIL_PAYLOAD_SIZE" by (simp add: MAX_URIL_PAYLOAD_SIZE_def)
  from sample_screen_request [OF refl this] obtain a1 a2
    where a1: "pump_turn sample_h 1 (Recv_bytes (msg_image zero_padding
          (request_msg 2 URIL_NW_SET_SCREEN_REQ_V01 1 [1]))) two_clients_service = Ok (True, a1)"
      "next_token a1 \<noteq> next_token two_clients_service"
    and a2: "handleRilResponse sample_h (tracker_pr (\<lambda>s. True)) (Some (next_token two_clients_service))
        RIL_E_SUCCESS Data_null a1 = Ok (True, a2)" "heap a2 (next_token two_clients_service) = None"
    by (auto simp: sample_service(2))
  have op: "map_of op_table URIL_NW_SET_SCREEN_REQ_V01 = Some Op_setScreenStateV1"
    by (simp add: op_table_def code_simps)
  have "unat (s_unique_msg_id sample_client) + length ([] :: client_event list) + 1 < 2 ^ 32"
    by (simp add: sample_client_def new_client_def)
  from sync_command_answered [OF sample_inv sample_frames sample_link_up c1(1) fd run_none _ this sample_service(3)
      zero_padding_wf zero_padding_wf op a1 a2]
  obtain r c3 c4 where r: "\<forall>q. delivered_to q (mConnector (upper a2))
        = delivered_to q (mConnector (upper two_clients_service)) @ (if q = 1 then [r] else [])"
    and c3: "run_upcalls all_locks (receive_routine [Crecv_bytes (msg_image zero_padding r)]) c1 = Ok c3"
      "sync_return True 0 0 c3 = Ok (0, sync_result [7, 7] r, c4)"
    by auto
  have "delivered_to 1 (mConnector (upper two_clients_service)) = []"
    by (simp add: sample_service(4) two_clients_def delivered_to_def new_connector_def)
  then have "delivered_to 1 (mConnector (upper a2)) = [r]" using r by simp
  with c1(1) a2(1) c3 show ?thesis unfolding sample_service(2) by blast
qed

end
